(* ===== verification/Prelude.thy ===== *)
theory Prelude
  imports Complex_Main
begin

text \<open>
  Shared vocabulary of the development: the errors a C++ operation can end in, the
  result type with its sequencing combinators, the two loop shapes the code uses (a
  loop that fills a fresh vector and a loop that updates an accumulator), checked
  indexing, and matrices as lists of rows with the index-function normal form
  \<open>mat_of\<close> to which every shape-correct operation is reduced.
\<close>

named_theorems res_simps \<open>evaluation of checked operations on well-shaped arguments\<close>
named_theorems wf_intros \<open>shape preservation\<close>

section \<open>Errors and results\<close>

text \<open>
  What the C++ standard leaves undefined is an error of the model, so that every theorem
  that concludes a value also says that no undefined behaviour was reached.
\<close>

datatype undefined_behaviour =
    Out_of_bounds        \<comment> \<open>\<open>operator[]\<close> past the end, or an iterator past the end\<close>
  | Missing_return       \<comment> \<open>flowing off the end of a value-returning function\<close>
  | Data_race            \<comment> \<open>unsynchronised accesses of two threads, one of them a write\<close>
  | Dangling_pointer     \<comment> \<open>use of an object whose lifetime has ended\<close>
  | Signed_overflow
  | Bad_shift            \<comment> \<open>a shift by the width of the type or more\<close>
  | Null_difference      \<comment> \<open>the difference of a pointer and a null pointer\<close>
  | Assertion            \<comment> \<open>\<open>assert\<close> of a false condition, in a build that checks it\<close>
  | Bad_conversion       \<comment> \<open>double to integer outside the integer's range\<close>
  | Indeterminate        \<comment> \<open>read of an uninitialised variable\<close>

datatype cxx_error =
    Invalid_argument string
  | Out_of_range string
  | Runtime_error string
  | Length_error
  | Undefined undefined_behaviour

type_synonym 'a res = "cxx_error + 'a"

definition bind_res :: "'e + 'a \<Rightarrow> ('a \<Rightarrow> 'e + 'b) \<Rightarrow> 'e + 'b" where
  "bind_res r f = (case r of Inl e \<Rightarrow> Inl e | Inr x \<Rightarrow> f x)"

lemma bind_res_Inl [simp]: "bind_res (Inl e) f = Inl e"
  by (simp add: bind_res_def)

lemma bind_res_Inr [simp]: "bind_res (Inr x) f = f x"
  by (simp add: bind_res_def)

lemma bind_res_cong [fundef_cong]:
  "r = r' \<Longrightarrow> (\<And>x. r' = Inr x \<Longrightarrow> f x = f' x) \<Longrightarrow> bind_res r f = bind_res r' f'"
  by (simp add: bind_res_def split: sum.splits)

lemma bind_res_eq_Inr: "bind_res r f = Inr y \<longleftrightarrow> (\<exists>x. r = Inr x \<and> f x = Inr y)"
  by (cases r) simp_all

lemma bind_res_assoc: "bind_res (bind_res r f) g = bind_res r (\<lambda>x. bind_res (f x) g)"
  by (cases r) simp_all

subsection \<open>Loops\<close>

fun map_res :: "('b \<Rightarrow> 'e + 'c) \<Rightarrow> 'b list \<Rightarrow> 'e + 'c list" where
  "map_res f [] = Inr []"
| "map_res f (x # xs) = bind_res (f x) (\<lambda>y. bind_res (map_res f xs) (\<lambda>ys. Inr (y # ys)))"

fun fold_res :: "('s \<Rightarrow> 'b \<Rightarrow> 'e + 's) \<Rightarrow> 's \<Rightarrow> 'b list \<Rightarrow> 'e + 's" where
  "fold_res f s [] = Inr s"
| "fold_res f s (x # xs) = bind_res (f s x) (\<lambda>s'. fold_res f s' xs)"

lemma map_res_pure:
  "(\<And>x. x \<in> set xs \<Longrightarrow> f x = Inr (g x)) \<Longrightarrow> map_res f xs = Inr (map g xs)"
  by (induction xs) simp_all

lemma map_res_cong [fundef_cong]:
  "xs = ys \<Longrightarrow> (\<And>x. x \<in> set ys \<Longrightarrow> f x = g x) \<Longrightarrow> map_res f xs = map_res g ys"
  by (induction ys arbitrary: xs) auto

lemma map_res_map: "map_res f (map g xs) = map_res (\<lambda>x. f (g x)) xs"
  by (induction xs) simp_all

lemma map_res_length: "map_res f xs = Inr ys \<Longrightarrow> length ys = length xs"
  by (induction xs arbitrary: ys) (auto simp: bind_res_eq_Inr)

lemma map_res_nth: "map_res f xs = Inr ys \<Longrightarrow> i < length xs \<Longrightarrow> f (xs ! i) = Inr (ys ! i)"
  by (induction xs arbitrary: ys i) (auto simp: bind_res_eq_Inr nth_Cons split: nat.splits)

lemma fold_res_pure:
  "(\<And>s x. x \<in> set xs \<Longrightarrow> f s x = Inr (g s x)) \<Longrightarrow> fold_res f s xs = Inr (foldl g s xs)"
  by (induction xs arbitrary: s) simp_all

lemma fold_res_invariant:
  "fold_res f s xs = Inr t \<Longrightarrow> P s \<Longrightarrow>
   (\<And>s x s'. x \<in> set xs \<Longrightarrow> P s \<Longrightarrow> f s x = Inr s' \<Longrightarrow> P s') \<Longrightarrow> P t"
  by (induction xs arbitrary: s) (auto simp: bind_res_eq_Inr)

lemma fold_res_total:
  assumes "P s"
    and "\<And>s x. x \<in> set xs \<Longrightarrow> P s \<Longrightarrow> \<exists>s'. f s x = Inr s' \<and> P s'"
  shows "\<exists>t. fold_res f s xs = Inr t \<and> P t"
  using assms
proof (induction xs arbitrary: s)
  case Nil
  then show ?case by simp
next
  case (Cons x xs)
  then obtain s' where "f s x = Inr s'" and "P s'"
    by (metis list.set_intros(1))
  with Cons show ?case by simp
qed

lemma fold_res_append:
  "fold_res f s (xs @ ys) = bind_res (fold_res f s xs) (\<lambda>t. fold_res f t ys)"
  by (induction xs arbitrary: s) (simp_all add: bind_res_assoc)

lemma fold_res_map: "fold_res f s (map h xs) = fold_res (\<lambda>s x. f s (h x)) s xs"
  by (induction xs arbitrary: s) (auto intro!: bind_res_cong)

lemma fold_res_cong [fundef_cong]:
  "s = t \<Longrightarrow> xs = ys \<Longrightarrow> (\<And>s x. x \<in> set ys \<Longrightarrow> f s x = g s x) \<Longrightarrow> fold_res f s xs = fold_res g t ys"
proof (induction ys arbitrary: s t xs)
  case (Cons y ys)
  then have "f t y = g t y" by simp
  with Cons show ?case by (cases "g t y") simp_all
qed simp

text \<open>\<open>for (int i = 0; i < n; i++) v[i] = e;\<close> over a fresh vector of length \<open>n\<close>.\<close>

definition for_vec :: "nat \<Rightarrow> (nat \<Rightarrow> 'e + 'a) \<Rightarrow> 'e + 'a list" where
  "for_vec n f = map_res f [0..<n]"

text \<open>\<open>for (int i = 0; i < n; i++) acc = e;\<close>\<close>

definition for_acc :: "nat \<Rightarrow> 's \<Rightarrow> ('s \<Rightarrow> nat \<Rightarrow> 'e + 's) \<Rightarrow> 'e + 's" where
  "for_acc n s f = fold_res f s [0..<n]"

lemma for_vec_pure [res_simps]:
  "(\<And>i. i < n \<Longrightarrow> f i = Inr (g i)) \<Longrightarrow> for_vec n f = Inr (map g [0..<n])"
  unfolding for_vec_def by (rule map_res_pure) simp

lemma for_acc_pure:
  "(\<And>s i. i < n \<Longrightarrow> f s i = Inr (g s i)) \<Longrightarrow> for_acc n s f = Inr (foldl g s [0..<n])"
  unfolding for_acc_def by (rule fold_res_pure) simp

lemma for_acc_Suc:
  "for_acc (Suc n) s f = bind_res (for_acc n s f) (\<lambda>t. f t n)"
  by (cases "fold_res f s [0..<n]")
    (simp_all add: for_acc_def fold_res_append bind_res_def split: sum.splits)

lemma for_acc_0 [simp]: "for_acc 0 s f = Inr s"
  by (simp add: for_acc_def)

lemma for_acc_stuck:
  "for_acc k s f = Inr t \<Longrightarrow> f t k = Inl e \<Longrightarrow> k < n \<Longrightarrow> for_acc n s f = Inl e"
proof (induction n)
  case (Suc n)
  then show ?case by (cases "k = n") (simp_all add: for_acc_Suc)
qed simp

text \<open>The sum a loop \<open>acc += e(k)\<close> computes, in the loop's own order of additions.\<close>

definition loop_sum :: "nat \<Rightarrow> (nat \<Rightarrow> 'a) \<Rightarrow> 'a::{zero,plus}" where
  "loop_sum n f = foldl (\<lambda>acc k. acc + f k) 0 [0..<n]"

lemma loop_sum_0 [simp]: "loop_sum 0 f = 0"
  by (simp add: loop_sum_def)

lemma loop_sum_Suc: "loop_sum (Suc n) f = loop_sum n f + f n"
  by (simp add: loop_sum_def)

lemma loop_sum_cong [fundef_cong]:
  "m = n \<Longrightarrow> (\<And>k. k < n \<Longrightarrow> f k = g k) \<Longrightarrow> loop_sum m f = loop_sum n g"
  by (induction n arbitrary: m) (simp_all add: loop_sum_Suc)

lemma loop_sum_eq_sum: "loop_sum n f = (\<Sum>k<n. f k :: 'a::comm_monoid_add)"
  by (induction n) (simp_all add: loop_sum_Suc)

lemma for_acc_sum [res_simps]:
  assumes "\<And>acc k. k < n \<Longrightarrow> f acc k = Inr (acc + g k)"
  shows "for_acc n 0 f = Inr (loop_sum n g)"
  unfolding loop_sum_def by (rule for_acc_pure) (rule assms)

lemma loop_sum_foldl: "loop_sum n f = foldl (+) 0 (map f [0..<n])"
  by (simp add: loop_sum_def foldl_map)

lemma map_nth_upt: "map (\<lambda>i. f (xs ! i)) [0..<length xs] = map f xs"
  by (rule nth_equalityI) simp_all

section \<open>Checked indexing\<close>

definition at_v :: "'a list \<Rightarrow> nat \<Rightarrow> 'a res" where
  "at_v xs i = (if i < length xs then Inr (xs ! i) else Inl (Undefined Out_of_bounds))"

definition at_m :: "'a list list \<Rightarrow> nat \<Rightarrow> nat \<Rightarrow> 'a res" where
  "at_m A i j = bind_res (at_v A i) (\<lambda>row. at_v row j)"

definition set_v :: "'a list \<Rightarrow> nat \<Rightarrow> 'a \<Rightarrow> 'a list res" where
  "set_v xs i x = (if i < length xs then Inr (xs[i := x]) else Inl (Undefined Out_of_bounds))"

definition set_m :: "'a list list \<Rightarrow> nat \<Rightarrow> nat \<Rightarrow> 'a \<Rightarrow> 'a list list res" where
  "set_m A i j x = bind_res (at_v A i) (\<lambda>row. bind_res (set_v row j x) (\<lambda>row'. set_v A i row'))"

text \<open>Indexing with a signed integer: a negative index is out of bounds.\<close>

definition at_int :: "'a list \<Rightarrow> int \<Rightarrow> 'a res" where
  "at_int xs i = (if 0 \<le> i then at_v xs (nat i) else Inl (Undefined Out_of_bounds))"

lemma at_v_Inr [simp]: "i < length xs \<Longrightarrow> at_v xs i = Inr (xs ! i)"
  by (simp add: at_v_def)

lemma at_v_out [simp]: "length xs \<le> i \<Longrightarrow> at_v xs i = Inl (Undefined Out_of_bounds)"
  by (simp add: at_v_def)

lemma at_v_eq_Inr: "at_v xs i = Inr x \<longleftrightarrow> i < length xs \<and> xs ! i = x"
  by (auto simp: at_v_def)

lemma set_v_Inr [simp]: "i < length xs \<Longrightarrow> set_v xs i x = Inr (xs[i := x])"
  by (simp add: set_v_def)

section \<open>Matrices\<close>

type_synonym 'a vec = "'a list"
type_synonym 'a mat = "'a list list"

definition mat_wf :: "nat \<Rightarrow> nat \<Rightarrow> 'a mat \<Rightarrow> bool" where
  "mat_wf r c A \<longleftrightarrow> length A = r \<and> (\<forall>row \<in> set A. length row = c)"

definition mat_of :: "nat \<Rightarrow> nat \<Rightarrow> (nat \<Rightarrow> nat \<Rightarrow> 'a) \<Rightarrow> 'a mat" where
  "mat_of r c f = map (\<lambda>i. map (f i) [0..<c]) [0..<r]"

lemma mat_wf_length: "mat_wf r c A \<Longrightarrow> length A = r"
  by (simp add: mat_wf_def)

lemma mat_wf_row: "mat_wf r c A \<Longrightarrow> i < r \<Longrightarrow> length (A ! i) = c"
  by (auto simp: mat_wf_def)

lemma mat_wfI: "length A = r \<Longrightarrow> (\<And>i. i < r \<Longrightarrow> length (A ! i) = c) \<Longrightarrow> mat_wf r c A"
  by (auto simp: mat_wf_def in_set_conv_nth)

lemma mat_wf_unique_rows: "mat_wf r c A \<Longrightarrow> mat_wf r' c' A \<Longrightarrow> r = r'"
  by (simp add: mat_wf_def)

lemma mat_of_wf [simp, wf_intros]: "mat_wf r c (mat_of r c f)"
  by (simp add: mat_wf_def mat_of_def)

lemma mat_wf_Nil [simp]: "mat_wf r c [] \<longleftrightarrow> r = 0"
  by (auto simp: mat_wf_def)

lemma mat_wf_Cons [simp]:
  "mat_wf r c (x # xs) \<longleftrightarrow> 0 < r \<and> length x = c \<and> mat_wf (r - 1) c xs"
  by (auto simp: mat_wf_def)

lemma mat_wf_not_Nil: "mat_wf r c A \<Longrightarrow> 0 < r \<Longrightarrow> A \<noteq> []"
  by auto

text \<open>
  These two are rewrite rules from here on; \<open>mat_wf_def\<close> is not to be unfolded together
  with them.
\<close>

declare mat_wf_length [simp] mat_wf_row [simp]

lemma mat_of_length [simp]: "length (mat_of r c f) = r"
  by (simp add: mat_of_def)

lemma mat_of_row: "i < r \<Longrightarrow> mat_of r c f ! i = map (f i) [0..<c]"
  by (simp add: mat_of_def)

lemma mat_of_row_length [simp]: "i < r \<Longrightarrow> length (mat_of r c f ! i) = c"
  by (simp add: mat_of_row)

lemma mat_of_nth [simp]: "i < r \<Longrightarrow> j < c \<Longrightarrow> mat_of r c f ! i ! j = f i j"
  by (simp add: mat_of_def)

lemma mat_of_cong [fundef_cong]:
  "r = r' \<Longrightarrow> c = c' \<Longrightarrow> (\<And>i j. i < r' \<Longrightarrow> j < c' \<Longrightarrow> f i j = g i j) \<Longrightarrow> mat_of r c f = mat_of r' c' g"
  by (simp add: mat_of_def)

lemma mat_eqI:
  assumes "mat_wf r c A" "mat_wf r c B" "\<And>i j. i < r \<Longrightarrow> j < c \<Longrightarrow> A ! i ! j = B ! i ! j"
  shows "A = B"
  using assms by (intro nth_equalityI) auto

lemma mat_of_eq_iff: "mat_of r c f = mat_of r c g \<longleftrightarrow> (\<forall>i<r. \<forall>j<c. f i j = g i j)"
  by (auto simp: mat_of_def)

lemma mat_of_self: "mat_wf r c A \<Longrightarrow> mat_of r c (\<lambda>i j. A ! i ! j) = A"
  by (rule mat_eqI [of r c]) simp_all

lemma at_m_wf [simp]: "mat_wf r c A \<Longrightarrow> i < r \<Longrightarrow> j < c \<Longrightarrow> at_m A i j = Inr (A ! i ! j)"
  by (simp add: at_m_def)

lemma set_m_wf: "mat_wf r c A \<Longrightarrow> i < r \<Longrightarrow> j < c \<Longrightarrow> set_m A i j x = Inr (A[i := (A ! i)[j := x]])"
  by (simp add: set_m_def)

lemma mat_wf_update: "mat_wf r c A \<Longrightarrow> i < r \<Longrightarrow> length row = c \<Longrightarrow> mat_wf r c (A[i := row])"
  by (auto intro!: mat_wfI simp: nth_list_update)

text \<open>Writing one cell, in the index-function form.\<close>

lemma mat_set_cell:
  assumes "mat_wf r c A" "i < r" "j < c"
  shows "A[i := (A ! i)[j := x]] = mat_of r c (\<lambda>p q. if p = i \<and> q = j then x else A ! p ! q)"
proof (rule mat_eqI)
  show "mat_wf r c (A[i := (A ! i)[j := x]])"
    using assms by (intro mat_wf_update) simp_all
  show "A[i := (A ! i)[j := x]] ! p ! q =
      mat_of r c (\<lambda>p q. if p = i \<and> q = j then x else A ! p ! q) ! p ! q" if "p < r" "q < c" for p q
    using assms that by (cases "p = i"; cases "q = j") simp_all
qed simp

lemma set_m_cell:
  "mat_wf r c A \<Longrightarrow> i < r \<Longrightarrow> j < c \<Longrightarrow>
   set_m A i j x = Inr (mat_of r c (\<lambda>p q. if p = i \<and> q = j then x else A ! p ! q))"
  by (simp add: set_m_wf mat_set_cell)

text \<open>
  Two nested loops over the cells of a matrix, row by row: \<open>st i j\<close> is the state before
  cell \<open>(i, j)\<close>.
\<close>

lemma for_cells:
  assumes step: "\<And>i j. i < r \<Longrightarrow> j < c \<Longrightarrow> f (st i j) i j = Inr (st i (Suc j))"
    and row: "\<And>i. i < r \<Longrightarrow> st i c = st (Suc i) 0"
  shows "for_acc r (st 0 0) (\<lambda>s i. for_acc c s (\<lambda>s j. f s i j)) = Inr (st r 0)"
proof -
  have inner: "for_acc k (st i 0) (\<lambda>s j. f s i j) = Inr (st i k)" if "i < r" "k \<le> c" for i k
    using that(2) by (induction k) (simp_all add: for_acc_Suc step that(1))
  have "for_acc k (st 0 0) (\<lambda>s i. for_acc c s (\<lambda>s j. f s i j)) = Inr (st k 0)" if "k \<le> r" for k
    using that by (induction k) (simp_all add: for_acc_Suc inner row)
  then show ?thesis by simp
qed

text \<open>The matrix in which the cells before \<open>(i, j)\<close> have been replaced.\<close>

definition partly :: "nat \<Rightarrow> nat \<Rightarrow> (nat \<Rightarrow> nat \<Rightarrow> 'a) \<Rightarrow> 'a mat \<Rightarrow> nat \<Rightarrow> nat \<Rightarrow> 'a mat" where
  "partly r c f A i j = mat_of r c (\<lambda>p q. if p < i \<or> p = i \<and> q < j then f p q else A ! p ! q)"

lemma partly_start: "mat_wf r c A \<Longrightarrow> partly r c f A 0 0 = A"
  by (simp add: partly_def mat_of_self)

lemma partly_row: "partly r c f A i c = partly r c f A (Suc i) 0"
  by (auto simp: partly_def mat_of_eq_iff less_Suc_eq)

lemma partly_end: "partly r c f A r 0 = mat_of r c f"
  by (simp add: partly_def cong: mat_of_cong)

lemma partly_at: "i < r \<Longrightarrow> j < c \<Longrightarrow> at_m (partly r c f A i j) i j = Inr (A ! i ! j)"
  by (subst at_m_wf [of r c]) (simp_all add: partly_def)

lemma partly_set:
  "i < r \<Longrightarrow> j < c \<Longrightarrow> f i j = x \<Longrightarrow>
   set_m (partly r c f A i j) i j x = Inr (partly r c f A i (Suc j))"
  by (subst set_m_cell [of r c]) (auto simp: partly_def mat_of_eq_iff less_Suc_eq)

text \<open>The two nested loops that fill a fresh matrix.\<close>

definition for_mat :: "nat \<Rightarrow> nat \<Rightarrow> (nat \<Rightarrow> nat \<Rightarrow> 'e + 'a) \<Rightarrow> 'e + 'a mat" where
  "for_mat r c f = for_vec r (\<lambda>i. for_vec c (f i))"

lemma for_mat_pure [res_simps]:
  "(\<And>i j. i < r \<Longrightarrow> j < c \<Longrightarrow> f i j = Inr (g i j)) \<Longrightarrow> for_mat r c f = Inr (mat_of r c g)"
  by (simp add: for_mat_def mat_of_def for_vec_pure)

end
