(* ===== verification/Cxx.thy ===== *)
theory Cxx
  imports Prelude
begin

text \<open>
  The C++ run time the program rests on. A C++ \<open>double\<close> is a type variable \<open>'a\<close> of the
  model that carries the operators through Isabelle's syntactic classes only (\<open>plus\<close>,
  \<open>times\<close>, \<open>inverse\<close>, \<open>ord\<close>, \<dots>): no algebraic law is available for it, so a theorem
  about \<open>'a\<close> holds for IEEE arithmetic with its rounding, infinities and NaNs as it does
  for the reals. What the operators do not cover (the functions of \<open>cmath\<close>, literals,
  conversions) comes from a record \<open>'a cxx\<close>. Theorems that need algebra or analysis are
  stated at type \<^typ>\<open>real\<close>, with the record \<open>real_cxx\<close> of the exact functions: they say
  what the code computes up to rounding, and only where no division by zero, logarithm
  of a non-positive number or overflow occurs.
\<close>

record 'a cxx =
  c_exp :: "'a \<Rightarrow> 'a"
  c_log :: "'a \<Rightarrow> 'a"
  c_sqrt :: "'a \<Rightarrow> 'a"
  c_tanh :: "'a \<Rightarrow> 'a"
  c_lit :: "rat \<Rightarrow> 'a"             \<comment> \<open>a decimal literal, or an integer converted to double\<close>
  c_to_int :: "'a \<Rightarrow> int option"   \<comment> \<open>conversion to \<open>int\<close>; \<open>None\<close> where it is undefined\<close>
  c_rand_max :: int
  c_to_string :: "'a \<Rightarrow> string"    \<comment> \<open>\<open>std::to_string(double)\<close>, printf's \<open>%f\<close>\<close>
  c_general :: "'a \<Rightarrow> string"      \<comment> \<open>printf's \<open>%.*g\<close> with \<open>DECIMAL_DIG\<close>, 21 digits\<close>
  c_special :: "'a \<Rightarrow> bool"        \<comment> \<open>\<open>isnan\<close> or \<open>isinf\<close>\<close>

text \<open>
  \<open>x == y\<close> on doubles: two comparisons, so that NaN differs from itself and the two
  zeros are equal; on a linear order this is equality. A double used as a condition is
  compared with zero.
\<close>

definition num_eq :: "'a::ord \<Rightarrow> 'a \<Rightarrow> bool" where
  "num_eq x y \<longleftrightarrow> x \<le> y \<and> y \<le> x"

definition num_true :: "'a::{zero,ord} \<Rightarrow> bool" where
  "num_true x \<longleftrightarrow> \<not> num_eq x 0"

lemma num_eq_linorder [simp]: "num_eq x y \<longleftrightarrow> x = (y :: 'a::linorder)"
  by (auto simp: num_eq_def)

lemma num_true_linorder [simp]: "num_true x \<longleftrightarrow> x \<noteq> (0 :: 'a::{zero,linorder})"
  by (simp add: num_true_def)

text \<open>\<open>std::max(a, b)\<close> is \<open>(a < b) ? b : a\<close>.\<close>

definition std_max :: "'a::ord \<Rightarrow> 'a \<Rightarrow> 'a" where
  "std_max a b = (if a < b then b else a)"

lemma std_max_linorder [simp]: "std_max a b = max a (b :: 'a::linorder)"
  by (auto simp: std_max_def max_def)

text \<open>A \<open>bool\<close> converted to \<open>double\<close>.\<close>

definition num_of_bool :: "bool \<Rightarrow> 'a::{zero,one}" where
  "num_of_bool b = (if b then 1 else 0)"

lemma num_of_bool_simps [simp]: "num_of_bool True = 1" "num_of_bool False = 0"
  by (simp_all add: num_of_bool_def)

definition c_int :: "'a cxx \<Rightarrow> int \<Rightarrow> 'a" where
  "c_int C n = c_lit C (of_int n)"

section \<open>Integers and vector sizes\<close>

text \<open>
  \<open>int\<close> is 32 bits wide; signed overflow is undefined. A negative \<open>int\<close> given as a vector's
  length converts to a \<open>size_t\<close> above \<open>max_size()\<close>, for which the constructor and
  \<open>resize\<close> throw \<open>std::length_error\<close>. Lengths of existing vectors are taken to fit an
  \<open>int\<close>, as the code's \<open>int n = v.size()\<close> does.
\<close>

definition INT_MAX :: int where "INT_MAX = 2147483647"
definition INT_MIN :: int where "INT_MIN = - 2147483648"

definition add_int :: "int \<Rightarrow> int \<Rightarrow> int res" where
  "add_int x y = (if INT_MIN \<le> x + y \<and> x + y \<le> INT_MAX then Inr (x + y)
                  else Inl (Undefined Signed_overflow))"

definition mul_int :: "int \<Rightarrow> int \<Rightarrow> int res" where
  "mul_int x y = (if INT_MIN \<le> x * y \<and> x * y \<le> INT_MAX then Inr (x * y)
                  else Inl (Undefined Signed_overflow))"

definition new_vec :: "int \<Rightarrow> 'b \<Rightarrow> 'b list res" where
  "new_vec n x = (if n < 0 then Inl Length_error else Inr (replicate (nat n) x))"

definition resize_vec :: "int \<Rightarrow> 'b \<Rightarrow> 'b list \<Rightarrow> 'b list res" where
  "resize_vec n x xs =
     (if n < 0 then Inl Length_error
      else Inr (take (nat n) xs @ replicate (nat n - length xs) x))"

lemma new_vec_Inr [simp]: "0 \<le> n \<Longrightarrow> new_vec n x = Inr (replicate (nat n) x)"
  by (simp add: new_vec_def)

lemma resize_vec_same [simp]: "length xs = nat n \<Longrightarrow> 0 \<le> n \<Longrightarrow> resize_vec n x xs = Inr xs"
  by (simp add: resize_vec_def)

lemma resize_vec_Nil [simp]: "0 \<le> n \<Longrightarrow> resize_vec n x [] = Inr (replicate (nat n) x)"
  by (simp add: resize_vec_def)

section \<open>Decimal notation\<close>

text \<open>\<open>std::to_string(int)\<close>, with ASCII digits.\<close>

definition digit :: "nat \<Rightarrow> char" where
  "digit d = char_of (48 + d)"

fun show_nat :: "nat \<Rightarrow> string" where
  "show_nat n = (if n < 10 then [digit n] else show_nat (n div 10) @ [digit (n mod 10)])"

declare show_nat.simps [simp del]

definition show_int :: "int \<Rightarrow> string" where
  "show_int n = (if n < 0 then ''-'' @ show_nat (nat (- n)) else show_nat (nat n))"

text \<open>Reading it back: the digits in order of significance.\<close>

definition read_nat :: "string \<Rightarrow> nat" where
  "read_nat s = foldl (\<lambda>v ch. 10 * v + (of_char ch - 48)) 0 s"

lemma read_show_nat: "read_nat (show_nat n) = n"
proof (induction n rule: show_nat.induct)
  case (1 n)
  have digit: "of_char (digit d) = (48 + d :: nat)" if "d < 10" for d
    using that by (simp add: digit_def)
  show ?case
  proof (cases "n < 10")
    case True
    then show ?thesis by (subst show_nat.simps) (simp add: read_nat_def digit)
  next
    case False
    with 1 have "read_nat (show_nat (n div 10)) = n div 10" by simp
    with False show ?thesis
      by (subst show_nat.simps) (simp add: read_nat_def digit)
  qed
qed

lemma show_nat_inject: "show_nat m = show_nat n \<longleftrightarrow> m = n"
  by (metis read_show_nat)

section \<open>Exact arithmetic\<close>

text \<open>Six decimals, rounded half up on the magnitude.\<close>

definition fixed6 :: "real \<Rightarrow> string" where
  "fixed6 x =
     (let k = nat \<lfloor>\<bar>x\<bar> * 1000000 + 1 / 2\<rfloor>; frac = show_nat (k mod 1000000)
      in (if x < 0 then ''-'' else '''') @ show_nat (k div 1000000) @ ''.'' @
         replicate (6 - length frac) (digit 0) @ frac)"

text \<open>\<open>%.21g\<close>: 21 significant digits, trailing zeros dropped, with an exponent below -4 and from 21 on.\<close>

definition without_zeros :: "string \<Rightarrow> string" where
  "without_zeros s = rev (dropWhile (\<lambda>c. c = digit 0) (rev s))"

definition pointed :: "string \<Rightarrow> string \<Rightarrow> string" where
  "pointed whole fr =
     (let f = without_zeros fr in if f = [] then whole else whole @ ''.'' @ f)"

definition general21 :: "real \<Rightarrow> string" where
  "general21 x =
     (if x = 0 then show_nat 0
      else let e = \<lfloor>log 10 \<bar>x\<bar>\<rfloor>; m = nat \<lfloor>\<bar>x\<bar> * 10 powr (20 - of_int e) + 1 / 2\<rfloor>;
               (m, e) = (if 10 ^ 21 \<le> m then (10 ^ 20, e + 1) else (m, e));
               ds = show_nat m; k = show_nat (nat \<bar>e\<bar>)
           in (if x < 0 then ''-'' else '''') @
              (if e < -4 \<or> 21 \<le> e
               then pointed (take 1 ds) (drop 1 ds) @ (if e < 0 then ''e-'' else ''e+'') @ replicate (2 - length k) (digit 0) @ k
               else if 0 \<le> e then pointed (take (nat e + 1) ds) (drop (nat e + 1) ds)
               else pointed (show_nat 0) (replicate (nat (- e) - 1) (digit 0) @ ds)))"

definition real_to_int :: "real \<Rightarrow> int option" where
  "real_to_int x =
     (let t = (if 0 \<le> x then \<lfloor>x\<rfloor> else \<lceil>x\<rceil>)
      in if INT_MIN \<le> t \<and> t \<le> INT_MAX then Some t else None)"

definition real_cxx :: "real cxx" where
  "real_cxx = \<lparr> c_exp = exp, c_log = ln, c_sqrt = sqrt, c_tanh = tanh, c_lit = of_rat,
     c_to_int = real_to_int, c_rand_max = 2147483647, c_to_string = fixed6,
     c_general = general21, c_special = (\<lambda>_. False) \<rparr>"

lemma real_cxx_simps [simp]:
  "c_exp real_cxx = exp" "c_log real_cxx = ln" "c_sqrt real_cxx = sqrt"
  "c_tanh real_cxx = tanh" "c_lit real_cxx = of_rat" "c_to_int real_cxx = real_to_int"
  "c_rand_max real_cxx = 2147483647" "c_to_string real_cxx = fixed6"
  "c_general real_cxx = general21" "c_special real_cxx = (\<lambda>_. False)"
  by (simp_all add: real_cxx_def)

lemma c_int_real [simp]: "c_int real_cxx n = real_of_int n"
  by (simp add: c_int_def)

lemma real_to_int_of_nat: "int k \<le> INT_MAX \<Longrightarrow> real_to_int (real k) = Some (int k)"
  by (simp add: real_to_int_def Let_def INT_MIN_def)

section \<open>Random sources\<close>

text \<open>
  \<open>std::random_device\<close>, \<open>std::mt19937\<close> and the distributions of \<open>random\<close> are a source of
  draws: a draw is a natural number (what the generator hands the distribution), and a
  distribution maps its parameters and a draw to a double. The standard fixes no algorithm
  for a distribution, so both are arguments (\<open>'a dist\<close>). \<open>rand()\<close> is a source of integers. A
  source is an infinite sequence, consumed from the front.
\<close>

record 'a dist =
  normal_draw :: "'a \<Rightarrow> 'a \<Rightarrow> nat \<Rightarrow> 'a"    \<comment> \<open>mean, standard deviation, draw\<close>
  uniform_draw :: "'a \<Rightarrow> 'a \<Rightarrow> nat \<Rightarrow> 'a"   \<comment> \<open>lower and upper bound, draw\<close>

type_synonym 'b source = "nat \<Rightarrow> 'b"

definition next_draw :: "'b source \<Rightarrow> 'b" where
  "next_draw s = s 0"

definition skip_draws :: "nat \<Rightarrow> 'b source \<Rightarrow> 'b source" where
  "skip_draws k s = (\<lambda>i. s (k + i))"

lemma skip_draws_0 [simp]: "skip_draws 0 s = s"
  by (simp add: skip_draws_def)

lemma skip_draws_skip [simp]: "skip_draws k (skip_draws l s) = skip_draws (l + k) s"
  by (simp add: skip_draws_def add.assoc)

lemma next_draw_skip [simp]: "next_draw (skip_draws k s) = s k"
  by (simp add: next_draw_def skip_draws_def)

text \<open>
  The documented contract of \<open>std::uniform_real_distribution\<close>: every draw lies in the
  half-open interval.
\<close>

locale uniform_source =
  fixes draw :: "real \<Rightarrow> real \<Rightarrow> nat \<Rightarrow> real"
  assumes draw_range: "lo < hi \<Longrightarrow> lo \<le> draw lo hi k \<and> draw lo hi k < hi"
begin

lemma draw_abs: "0 < d \<Longrightarrow> \<bar>draw (- d) d k\<bar> \<le> d"
  using draw_range [of "- d" d k] by auto

end

text \<open>The usual implementation: a generator output below \<open>2^32\<close> scaled into the interval.\<close>

definition scaled_uniform :: "real \<Rightarrow> real \<Rightarrow> nat \<Rightarrow> real" where
  "scaled_uniform lo hi k = lo + (hi - lo) * (real (k mod 2 ^ 32) / 2 ^ 32)"

interpretation scaled: uniform_source scaled_uniform
proof
  fix lo hi :: real and k :: nat
  assume lt: "lo < hi"
  define u where "u = real (k mod 2 ^ 32) / 2 ^ 32"
  have "k mod 2 ^ 32 < (2::nat) ^ 32" by simp
  then have "real (k mod 2 ^ 32) < 2 ^ 32"
    by (metis of_nat_less_iff of_nat_numeral of_nat_power)
  then have u: "0 \<le> u" "u < 1" by (simp_all add: u_def)
  from lt u have lower: "0 \<le> (hi - lo) * u" by simp
  from lt u have upper: "(hi - lo) * u < hi - lo"
    using mult_strict_left_mono [of u 1 "hi - lo"] by simp
  from lower upper show "lo \<le> scaled_uniform lo hi k \<and> scaled_uniform lo hi k < hi"
    unfolding scaled_uniform_def u_def [symmetric] by linarith
qed

end
