(* ===== verification/MathUtils.thy ===== *)
theory MathUtils
  imports Cxx
begin

text \<open>
  \<open>Src/Essential Functions/Math Utils\<close>: the element-wise operations
  (\<open>ElementWiseOperations.cpp\<close>), the dot products (\<open>DotProduct.cpp\<close>) and the transposes
  (\<open>Transpose.cpp\<close>). The five overload shapes (vector with vector, matrix with matrix,
  matrix with vector, matrix with number, vector with number) share their loops and
  checks; each overload of each operation is a definition of its own, with its operator
  and its message. The interface \<open>elementwise\<close> states what the five overloads of one
  operation promise, and is interpreted on the four operations.
\<close>

section \<open>Element-wise operations\<close>

text \<open>The check and loop of the overload on two vectors.\<close>

definition ew_vv :: "('a \<Rightarrow> 'a \<Rightarrow> 'a) \<Rightarrow> string \<Rightarrow> 'a vec \<Rightarrow> 'a vec \<Rightarrow> 'a vec res" where
  "ew_vv f msg vec1 vec2 =
     (if length vec1 \<noteq> length vec2 then Inl (Invalid_argument msg)
      else for_vec (length vec1)
             (\<lambda>i. bind_res (at_v vec1 i) (\<lambda>x. bind_res (at_v vec2 i) (\<lambda>y. Inr (f x y)))))"

text \<open>
  On two matrices: the numbers of rows are compared first, and only when they agree are
  the first rows read (which is undefined when both matrices are empty).
\<close>

definition ew_mm :: "('a \<Rightarrow> 'a \<Rightarrow> 'a) \<Rightarrow> string \<Rightarrow> 'a mat \<Rightarrow> 'a mat \<Rightarrow> 'a mat res" where
  "ew_mm f msg matrix1 matrix2 =
     (if length matrix1 \<noteq> length matrix2 then Inl (Invalid_argument msg)
      else bind_res (at_v matrix1 0) (\<lambda>row1. bind_res (at_v matrix2 0) (\<lambda>row2.
        if length row1 \<noteq> length row2 then Inl (Invalid_argument msg)
        else for_mat (length matrix1) (length row1)
               (\<lambda>i j. bind_res (at_m matrix1 i j) (\<lambda>x.
                      bind_res (at_m matrix2 i j) (\<lambda>y. Inr (f x y)))))))"

text \<open>On a matrix and a column vector: row \<open>i\<close> is combined with entry \<open>i\<close>.\<close>

definition ew_mv :: "('a \<Rightarrow> 'a \<Rightarrow> 'a) \<Rightarrow> string \<Rightarrow> 'a mat \<Rightarrow> 'a vec \<Rightarrow> 'a mat res" where
  "ew_mv f msg matrix vec =
     (if length matrix \<noteq> length vec then Inl (Invalid_argument msg)
      else bind_res (at_v matrix 0) (\<lambda>row.
        for_mat (length matrix) (length row)
          (\<lambda>i j. bind_res (at_m matrix i j) (\<lambda>x. bind_res (at_v vec i) (\<lambda>y. Inr (f x y))))))"

definition ew_mn :: "('a \<Rightarrow> 'a \<Rightarrow> 'a) \<Rightarrow> 'a mat \<Rightarrow> 'a \<Rightarrow> 'a mat res" where
  "ew_mn f matrix num =
     bind_res (at_v matrix 0) (\<lambda>row.
       for_mat (length matrix) (length row)
         (\<lambda>i j. bind_res (at_m matrix i j) (\<lambda>x. Inr (f x num))))"

definition ew_vn :: "('a \<Rightarrow> 'a \<Rightarrow> 'a) \<Rightarrow> 'a vec \<Rightarrow> 'a \<Rightarrow> 'a vec res" where
  "ew_vn f vec num =
     for_vec (length vec) (\<lambda>i. bind_res (at_v vec i) (\<lambda>x. Inr (f x num)))"

subsection \<open>\<open>elementWiseProduct\<close>\<close>

definition elementWiseProduct_vv :: "'a::times vec \<Rightarrow> 'a vec \<Rightarrow> 'a vec res" where
  "elementWiseProduct_vv = ew_vv (*) ''Vectors must be of the same size for element-wise product.''"

definition elementWiseProduct_mm :: "'a::times mat \<Rightarrow> 'a mat \<Rightarrow> 'a mat res" where
  "elementWiseProduct_mm = ew_mm (*) ''Matrixes must be of the same size for element-wise product.''"

definition elementWiseProduct_mv :: "'a::times mat \<Rightarrow> 'a vec \<Rightarrow> 'a mat res" where
  "elementWiseProduct_mv = ew_mv (*) ''Matrix and vector size must me compatible for element-wise product.''"

definition elementWiseProduct_mn :: "'a::times mat \<Rightarrow> 'a \<Rightarrow> 'a mat res" where
  "elementWiseProduct_mn = ew_mn (*)"

definition elementWiseProduct_vn :: "'a::times vec \<Rightarrow> 'a \<Rightarrow> 'a vec res" where
  "elementWiseProduct_vn = ew_vn (*)"

subsection \<open>\<open>elementWiseDivide\<close>\<close>

definition elementWiseDivide_vv :: "'a::inverse vec \<Rightarrow> 'a vec \<Rightarrow> 'a vec res" where
  "elementWiseDivide_vv = ew_vv (/) ''Vectors must be of the same size for element-wise sum.''"

definition elementWiseDivide_mm :: "'a::inverse mat \<Rightarrow> 'a mat \<Rightarrow> 'a mat res" where
  "elementWiseDivide_mm = ew_mm (/) ''Matrixes must be of the same size for element-wise sum.''"

definition elementWiseDivide_mv :: "'a::inverse mat \<Rightarrow> 'a vec \<Rightarrow> 'a mat res" where
  "elementWiseDivide_mv = ew_mv (/) ''Matrix and vector size must me compatible for element-wise sum.''"

definition elementWiseDivide_mn :: "'a::inverse mat \<Rightarrow> 'a \<Rightarrow> 'a mat res" where
  "elementWiseDivide_mn = ew_mn (/)"

definition elementWiseDivide_vn :: "'a::inverse vec \<Rightarrow> 'a \<Rightarrow> 'a vec res" where
  "elementWiseDivide_vn = ew_vn (/)"

subsection \<open>\<open>elementWiseSum\<close>\<close>

definition elementWiseSum_vv :: "'a::plus vec \<Rightarrow> 'a vec \<Rightarrow> 'a vec res" where
  "elementWiseSum_vv = ew_vv (+) ''Vectors must be of the same size for element-wise sum.''"

definition elementWiseSum_mm :: "'a::plus mat \<Rightarrow> 'a mat \<Rightarrow> 'a mat res" where
  "elementWiseSum_mm = ew_mm (+) ''Matrixes must be of the same size for element-wise sum.''"

definition elementWiseSum_mv :: "'a::plus mat \<Rightarrow> 'a vec \<Rightarrow> 'a mat res" where
  "elementWiseSum_mv = ew_mv (+) ''Matrix and vector size must me compatible for element-wise sum.''"

definition elementWiseSum_mn :: "'a::plus mat \<Rightarrow> 'a \<Rightarrow> 'a mat res" where
  "elementWiseSum_mn = ew_mn (+)"

definition elementWiseSum_vn :: "'a::plus vec \<Rightarrow> 'a \<Rightarrow> 'a vec res" where
  "elementWiseSum_vn = ew_vn (+)"

subsection \<open>\<open>elementWiseSubtract\<close>\<close>

definition elementWiseSubtract_vv :: "'a::minus vec \<Rightarrow> 'a vec \<Rightarrow> 'a vec res" where
  "elementWiseSubtract_vv = ew_vv (-) ''Vectors must be of the same size for element-wise sum.''"

definition elementWiseSubtract_mm :: "'a::minus mat \<Rightarrow> 'a mat \<Rightarrow> 'a mat res" where
  "elementWiseSubtract_mm = ew_mm (-) ''Matrixes must be of the same size for element-wise sum.''"

definition elementWiseSubtract_mv :: "'a::minus mat \<Rightarrow> 'a vec \<Rightarrow> 'a mat res" where
  "elementWiseSubtract_mv = ew_mv (-) ''Matrix and vector size must me compatible for element-wise sum.''"

definition elementWiseSubtract_mn :: "'a::minus mat \<Rightarrow> 'a \<Rightarrow> 'a mat res" where
  "elementWiseSubtract_mn = ew_mn (-)"

definition elementWiseSubtract_vn :: "'a::minus vec \<Rightarrow> 'a \<Rightarrow> 'a vec res" where
  "elementWiseSubtract_vn = ew_vn (-)"

section \<open>What the overloads of one operation promise\<close>

locale elementwise =
  fixes opr :: "'a \<Rightarrow> 'a \<Rightarrow> 'a"
    and vv :: "'a vec \<Rightarrow> 'a vec \<Rightarrow> 'a vec res"
    and mm :: "'a mat \<Rightarrow> 'a mat \<Rightarrow> 'a mat res"
    and mv :: "'a mat \<Rightarrow> 'a vec \<Rightarrow> 'a mat res"
    and mn :: "'a mat \<Rightarrow> 'a \<Rightarrow> 'a mat res"
    and vn :: "'a vec \<Rightarrow> 'a \<Rightarrow> 'a vec res"
  assumes vv_eq: "length u = n \<Longrightarrow> length v = n \<Longrightarrow>
      vv u v = Inr (map (\<lambda>i. opr (u ! i) (v ! i)) [0..<n])"
    and vv_mismatch: "length u \<noteq> length v \<Longrightarrow> \<exists>msg. vv u v = Inl (Invalid_argument msg)"
    and mm_eq: "mat_wf r c A \<Longrightarrow> mat_wf r c B \<Longrightarrow> 0 < r \<Longrightarrow>
      mm A B = Inr (mat_of r c (\<lambda>i j. opr (A ! i ! j) (B ! i ! j)))"
    and mm_mismatch: "mat_wf r c A \<Longrightarrow> mat_wf r' c' B \<Longrightarrow> 0 < r \<Longrightarrow> 0 < r' \<Longrightarrow> (r, c) \<noteq> (r', c') \<Longrightarrow>
      \<exists>msg. mm A B = Inl (Invalid_argument msg)"
    and mv_eq: "mat_wf r c A \<Longrightarrow> length v = r \<Longrightarrow> 0 < r \<Longrightarrow>
      mv A v = Inr (mat_of r c (\<lambda>i j. opr (A ! i ! j) (v ! i)))"
    and mn_eq: "mat_wf r c A \<Longrightarrow> 0 < r \<Longrightarrow> mn A x = Inr (mat_of r c (\<lambda>i j. opr (A ! i ! j) x))"
    and vn_eq: "vn u x = Inr (map (\<lambda>y. opr y x) u)"
begin

text \<open>Success is exactly agreement of the shapes.\<close>

lemma mm_defined_iff:
  assumes "mat_wf r c A" "mat_wf r' c' B" "0 < r" "0 < r'"
  shows "(\<exists>R. mm A B = Inr R) \<longleftrightarrow> (r, c) = (r', c')"
proof
  assume "\<exists>R. mm A B = Inr R"
  then show "(r, c) = (r', c')" using mm_mismatch [OF assms] by fastforce
next
  assume "(r, c) = (r', c')"
  with assms mm_eq [of r c A B] show "\<exists>R. mm A B = Inr R" by auto
qed

text \<open>The other overloads are the matrix overload on a spread-out second operand.\<close>

lemma mv_as_mm:
  assumes "mat_wf r c A" "length v = r" "0 < r"
  shows "mv A v = mm A (mat_of r c (\<lambda>i j. v ! i))"
  using assms by (simp add: mv_eq [of r c] mm_eq [of r c] cong: mat_of_cong)

lemma mn_as_mm:
  assumes "mat_wf r c A" "0 < r"
  shows "mn A x = mm A (mat_of r c (\<lambda>i j. x))"
  using assms by (simp add: mn_eq [of r c] mm_eq [of r c] cong: mat_of_cong)

end

lemma ew_vv_eq: "length u = n \<Longrightarrow> length v = n \<Longrightarrow>
    ew_vv f msg u v = Inr (map (\<lambda>i. f (u ! i) (v ! i)) [0..<n])"
  by (simp add: ew_vv_def for_vec_pure)

lemma ew_mm_eq: "mat_wf r c A \<Longrightarrow> mat_wf r c B \<Longrightarrow> 0 < r \<Longrightarrow>
    ew_mm f msg A B = Inr (mat_of r c (\<lambda>i j. f (A ! i ! j) (B ! i ! j)))"
  by (simp add: ew_mm_def for_mat_pure)

lemma ew_mm_mismatch: "mat_wf r c A \<Longrightarrow> mat_wf r' c' B \<Longrightarrow> 0 < r \<Longrightarrow> 0 < r' \<Longrightarrow> (r, c) \<noteq> (r', c') \<Longrightarrow>
    ew_mm f msg A B = Inl (Invalid_argument msg)"
  by (auto simp: ew_mm_def)

lemma ew_mv_eq: "mat_wf r c A \<Longrightarrow> length v = r \<Longrightarrow> 0 < r \<Longrightarrow>
    ew_mv f msg A v = Inr (mat_of r c (\<lambda>i j. f (A ! i ! j) (v ! i)))"
  by (simp add: ew_mv_def for_mat_pure)

lemma ew_mn_eq: "mat_wf r c A \<Longrightarrow> 0 < r \<Longrightarrow>
    ew_mn f A x = Inr (mat_of r c (\<lambda>i j. f (A ! i ! j) x))"
  by (simp add: ew_mn_def for_mat_pure)

lemma ew_vn_eq: "ew_vn f u x = Inr (map (\<lambda>y. f y x) u)"
  using map_nth_upt [of "\<lambda>y. f y x" u] by (simp add: ew_vn_def for_vec_pure)

lemma ew_elementwise: "elementwise f (ew_vv f msg1) (ew_mm f msg2) (ew_mv f msg3) (ew_mn f) (ew_vn f)"
  by unfold_locales (auto simp: ew_vv_eq ew_mm_eq ew_mm_mismatch ew_mv_eq ew_mn_eq ew_vn_eq,
      simp add: ew_vv_def)

interpretation product: elementwise "(*) :: 'a::times \<Rightarrow> 'a \<Rightarrow> 'a"
    elementWiseProduct_vv elementWiseProduct_mm elementWiseProduct_mv elementWiseProduct_mn elementWiseProduct_vn
  unfolding elementWiseProduct_vv_def elementWiseProduct_mm_def elementWiseProduct_mv_def
    elementWiseProduct_mn_def elementWiseProduct_vn_def
  by (rule ew_elementwise)

interpretation divide: elementwise "(/) :: 'a::inverse \<Rightarrow> 'a \<Rightarrow> 'a"
    elementWiseDivide_vv elementWiseDivide_mm elementWiseDivide_mv elementWiseDivide_mn elementWiseDivide_vn
  unfolding elementWiseDivide_vv_def elementWiseDivide_mm_def elementWiseDivide_mv_def
    elementWiseDivide_mn_def elementWiseDivide_vn_def
  by (rule ew_elementwise)

interpretation sum: elementwise "(+) :: 'a::plus \<Rightarrow> 'a \<Rightarrow> 'a"
    elementWiseSum_vv elementWiseSum_mm elementWiseSum_mv elementWiseSum_mn elementWiseSum_vn
  unfolding elementWiseSum_vv_def elementWiseSum_mm_def elementWiseSum_mv_def
    elementWiseSum_mn_def elementWiseSum_vn_def
  by (rule ew_elementwise)

interpretation subtract: elementwise "(-) :: 'a::minus \<Rightarrow> 'a \<Rightarrow> 'a"
    elementWiseSubtract_vv elementWiseSubtract_mm elementWiseSubtract_mv elementWiseSubtract_mn elementWiseSubtract_vn
  unfolding elementWiseSubtract_vv_def elementWiseSubtract_mm_def elementWiseSubtract_mv_def
    elementWiseSubtract_mn_def elementWiseSubtract_vn_def
  by (rule ew_elementwise)

section \<open>Dot products\<close>

definition dotProduct_vv :: "'a::{zero,plus,times} vec \<Rightarrow> 'a vec \<Rightarrow> 'a res" where
  "dotProduct_vv vec1 vec2 =
     (if length vec1 \<noteq> length vec2
      then Inl (Invalid_argument ''Number of elements in vectors shoul be equal.'')
      else for_acc (length vec1) 0
             (\<lambda>result i. bind_res (at_v vec1 i) (\<lambda>x. bind_res (at_v vec2 i) (\<lambda>y.
                Inr (result + x * y)))))"

definition dotProduct_mv :: "'a::{zero,plus,times} mat \<Rightarrow> 'a vec \<Rightarrow> 'a vec res" where
  "dotProduct_mv matrix vec =
     (if length matrix = 0 then Inl (Invalid_argument ''Matrix input can't be empty.'')
      else bind_res (at_v matrix 0) (\<lambda>row0.
        if length row0 \<noteq> length vec
        then Inl (Invalid_argument ''Matrix and vector incompatible for dot product!'')
        else for_vec (length matrix) (\<lambda>i.
               for_acc (length row0) 0
                 (\<lambda>result j. bind_res (at_m matrix i j) (\<lambda>x. bind_res (at_v vec j) (\<lambda>y.
                    Inr (result + x * y)))))))"

text \<open>There is no emptiness check here: an empty first matrix is read out of bounds.\<close>

definition dotProduct_mm :: "'a::{zero,plus,times} mat \<Rightarrow> 'a mat \<Rightarrow> 'a mat res" where
  "dotProduct_mm matrix1 matrix2 =
     bind_res (at_v matrix1 0) (\<lambda>row1.
       if length row1 \<noteq> length matrix2
       then Inl (Invalid_argument ''Matrixes must be of compatible size for dot product.'')
       else bind_res (at_v matrix2 0) (\<lambda>row2.
         for_mat (length matrix1) (length row2) (\<lambda>i j.
           for_acc (length row1) 0
             (\<lambda>result k. bind_res (at_m matrix1 i k) (\<lambda>x. bind_res (at_m matrix2 k j) (\<lambda>y.
                Inr (result + x * y)))))))"

lemma dotProduct_vv_eq:
  "length u = n \<Longrightarrow> length v = n \<Longrightarrow> dotProduct_vv u v = Inr (loop_sum n (\<lambda>i. u ! i * v ! i))"
  by (simp add: dotProduct_vv_def for_acc_sum)

lemma dotProduct_mv_eq:
  "mat_wf r c A \<Longrightarrow> length v = c \<Longrightarrow> 0 < r \<Longrightarrow>
   dotProduct_mv A v = Inr (map (\<lambda>i. loop_sum c (\<lambda>j. A ! i ! j * v ! j)) [0..<r])"
  by (simp add: dotProduct_mv_def for_vec_pure for_acc_sum)

lemma dotProduct_mm_eq:
  "mat_wf r n A \<Longrightarrow> mat_wf n c B \<Longrightarrow> 0 < r \<Longrightarrow> 0 < n \<Longrightarrow>
   dotProduct_mm A B = Inr (mat_of r c (\<lambda>i j. loop_sum n (\<lambda>k. A ! i ! k * B ! k ! j)))"
  by (simp add: dotProduct_mm_def for_mat_pure for_acc_sum)

section \<open>Transposes\<close>

text \<open>
  The loops of \<open>transpose\<close> write every cell \<open>[j][i]\<close> of a fresh \<open>cols\<close> by \<open>rows\<close> matrix
  once, from cell \<open>[i][j]\<close>; all of these reads are in bounds once the row lengths agree.
\<close>

definition transpose_m :: "'a mat \<Rightarrow> 'a mat res" where
  "transpose_m matrix =
     (if matrix = [] then Inr []
      else bind_res (at_v matrix 0) (\<lambda>row0.
        if list_all (\<lambda>i. length (matrix ! i) = length row0) [1..<length matrix]
        then for_mat (length row0) (length matrix) (\<lambda>j i. at_m matrix i j)
        else Inl (Invalid_argument ''All rows must have the same number of columns to transpose'')))"

definition transpose_v :: "'a vec \<Rightarrow> 'a mat res" where
  "transpose_v v =
     (if v = [] then Inr []
      else for_mat 1 (length v) (\<lambda>_ j. at_v v j))"

lemma transpose_m_eq:
  assumes "mat_wf r c A" "0 < r"
  shows "transpose_m A = Inr (mat_of c r (\<lambda>j i. A ! i ! j))"
proof -
  from assms have "A \<noteq> []" by (rule mat_wf_not_Nil)
  with assms show ?thesis by (simp add: transpose_m_def list_all_iff for_mat_pure)
qed

lemma transpose_m_ragged:
  assumes "A \<noteq> []" "i < length A" "length (A ! i) \<noteq> length (A ! 0)"
  shows "transpose_m A =
    Inl (Invalid_argument ''All rows must have the same number of columns to transpose'')"
proof -
  from assms(3) have "i \<noteq> 0" by metis
  with assms(2) have "i \<in> set [1..<length A]" by simp
  with assms show ?thesis by (auto simp: transpose_m_def list_all_iff)
qed

lemma transpose_v_eq: "0 < length v \<Longrightarrow> transpose_v v = Inr [v]"
  by (auto simp: transpose_v_def for_mat_pure mat_of_def map_nth)

end
