(* ===== verification/Activations.thy ===== *)
theory Activations
  imports MathUtils
begin

text \<open>
  \<open>Src/Essential Functions/Activation Factory\<close>. Each class of the hierarchy below
  \<open>ActivationFunction\<close> overrides six methods: \<open>activate\<close> and \<open>derivative\<close> on a number, a
  vector (\<open>_v\<close>) and a matrix (\<open>_m\<close>). They are definitions of their own, loops written out
  per overload; the datatype \<open>activation\<close> is the class of the object and the functions
  \<open>activate\<close>, \<open>activate_m\<close>, \<dots> are the virtual calls. The interfaces
  \<open>activation_shape\<close>, \<open>activation_pointwise\<close> and \<open>activation_derivative\<close> state what a
  layer relies on; the \<open>Softmax\<close> class keeps the first only.
\<close>

section \<open>Loop shapes\<close>

text \<open>\<open>for (double x : input) output.push_back(e(x));\<close>\<close>

definition vec_loop :: "('a \<Rightarrow> 'a) \<Rightarrow> 'a vec \<Rightarrow> 'a vec" where
  "vec_loop f input = map f input"

text \<open>
  \<open>output.resize(row, vector(col))\<close> and the two loops over it, with \<open>col\<close> the length of
  row 0.
\<close>

definition mat_loop :: "('a \<Rightarrow> 'a) \<Rightarrow> 'a mat \<Rightarrow> 'a mat res" where
  "mat_loop f input =
     bind_res (at_v input 0) (\<lambda>row0.
       for_mat (length input) (length row0) (\<lambda>i j. bind_res (at_m input i j) (\<lambda>x. Inr (f x))))"

lemma mat_loop_eq: "mat_wf r c X \<Longrightarrow> 0 < r \<Longrightarrow> mat_loop f X = Inr (mat_of r c (\<lambda>i j. f (X ! i ! j)))"
  by (simp add: mat_loop_def for_mat_pure)

section \<open>\<open>Sigmoid\<close>\<close>

definition Sigmoid_activate :: "'a cxx \<Rightarrow> 'a::{one,plus,uminus,inverse} \<Rightarrow> 'a" where
  "Sigmoid_activate C x = 1 / (1 + c_exp C (- x))"

definition Sigmoid_activate_v :: "'a cxx \<Rightarrow> 'a::{one,plus,uminus,inverse} vec \<Rightarrow> 'a vec" where
  "Sigmoid_activate_v C = vec_loop (\<lambda>x. 1 / (1 + c_exp C (- x)))"

definition Sigmoid_activate_m :: "'a cxx \<Rightarrow> 'a::{one,plus,uminus,inverse} mat \<Rightarrow> 'a mat res" where
  "Sigmoid_activate_m C = mat_loop (\<lambda>x. 1 / (1 + c_exp C (- x)))"

text \<open>
  The number and matrix overloads take the value of the activation, as the layer passes
  it; the vector overload takes the argument of the activation and applies the sigmoid
  itself.
\<close>

definition Sigmoid_derivative :: "'a cxx \<Rightarrow> 'a::{one,minus,times} \<Rightarrow> 'a" where
  "Sigmoid_derivative C x = x * (1 - x)"

definition Sigmoid_derivative_v :: "'a cxx \<Rightarrow> 'a::{one,plus,minus,uminus,times,inverse} vec \<Rightarrow> 'a vec" where
  "Sigmoid_derivative_v C =
     vec_loop (\<lambda>x. let sigmoid_x = 1 / (1 + c_exp C (- x)) in sigmoid_x * (1 - sigmoid_x))"

definition Sigmoid_derivative_m :: "'a cxx \<Rightarrow> 'a::{one,minus,times} mat \<Rightarrow> 'a mat res" where
  "Sigmoid_derivative_m C = mat_loop (\<lambda>x. x * (1 - x))"

section \<open>\<open>Tanh\<close>\<close>

definition Tanh_activate :: "'a cxx \<Rightarrow> 'a \<Rightarrow> 'a" where
  "Tanh_activate C x = c_tanh C x"

definition Tanh_activate_v :: "'a cxx \<Rightarrow> 'a vec \<Rightarrow> 'a vec" where
  "Tanh_activate_v C = vec_loop (\<lambda>x. c_tanh C x)"

definition Tanh_activate_m :: "'a cxx \<Rightarrow> 'a mat \<Rightarrow> 'a mat res" where
  "Tanh_activate_m C = mat_loop (\<lambda>x. c_tanh C x)"

definition Tanh_derivative :: "'a cxx \<Rightarrow> 'a::{one,minus,times} \<Rightarrow> 'a" where
  "Tanh_derivative C x = 1 - x * x"

definition Tanh_derivative_v :: "'a cxx \<Rightarrow> 'a::{one,minus,times} vec \<Rightarrow> 'a vec" where
  "Tanh_derivative_v C = vec_loop (\<lambda>x. 1 - x * x)"

definition Tanh_derivative_m :: "'a cxx \<Rightarrow> 'a::{one,minus,times} mat \<Rightarrow> 'a mat res" where
  "Tanh_derivative_m C = mat_loop (\<lambda>x. 1 - x * x)"

section \<open>\<open>Relu\<close>\<close>

definition Relu_activate :: "'a cxx \<Rightarrow> 'a::{zero,ord} \<Rightarrow> 'a" where
  "Relu_activate C x = std_max 0 x"

definition Relu_activate_v :: "'a cxx \<Rightarrow> 'a::{zero,ord} vec \<Rightarrow> 'a vec" where
  "Relu_activate_v C = vec_loop (\<lambda>x. std_max 0 x)"

definition Relu_activate_m :: "'a cxx \<Rightarrow> 'a::{zero,ord} mat \<Rightarrow> 'a mat res" where
  "Relu_activate_m C = mat_loop (\<lambda>x. std_max 0 x)"

definition Relu_derivative :: "'a cxx \<Rightarrow> 'a::{zero,one,ord} \<Rightarrow> 'a" where
  "Relu_derivative C x = num_of_bool (0 < x)"

definition Relu_derivative_v :: "'a cxx \<Rightarrow> 'a::{zero,one,ord} vec \<Rightarrow> 'a vec" where
  "Relu_derivative_v C = vec_loop (\<lambda>x. num_of_bool (0 < x))"

definition Relu_derivative_m :: "'a cxx \<Rightarrow> 'a::{zero,one,ord} mat \<Rightarrow> 'a mat res" where
  "Relu_derivative_m C = mat_loop (\<lambda>x. num_of_bool (0 < x))"

section \<open>\<open>LeakyRelu\<close>\<close>

definition LeakyRelu_activate :: "'a cxx \<Rightarrow> 'a::{times,ord} \<Rightarrow> 'a" where
  "LeakyRelu_activate C x = std_max (c_lit C (1 / 100) * x) x"

definition LeakyRelu_activate_v :: "'a cxx \<Rightarrow> 'a::{times,ord} vec \<Rightarrow> 'a vec" where
  "LeakyRelu_activate_v C = vec_loop (\<lambda>x. std_max (c_lit C (1 / 100) * x) x)"

definition LeakyRelu_activate_m :: "'a cxx \<Rightarrow> 'a::{times,ord} mat \<Rightarrow> 'a mat res" where
  "LeakyRelu_activate_m C = mat_loop (\<lambda>x. std_max (c_lit C (1 / 100) * x) x)"

definition LeakyRelu_derivative :: "'a cxx \<Rightarrow> 'a::{zero,one,ord} \<Rightarrow> 'a" where
  "LeakyRelu_derivative C x = (if 0 < x then 1 else c_lit C (1 / 100))"

definition LeakyRelu_derivative_v :: "'a cxx \<Rightarrow> 'a::{zero,one,ord} vec \<Rightarrow> 'a vec" where
  "LeakyRelu_derivative_v C = vec_loop (\<lambda>x. (if 0 < x then 1 else c_lit C (1 / 100)))"

definition LeakyRelu_derivative_m :: "'a cxx \<Rightarrow> 'a::{zero,one,ord} mat \<Rightarrow> 'a mat res" where
  "LeakyRelu_derivative_m C = mat_loop (\<lambda>x. (if 0 < x then 1 else c_lit C (1 / 100)))"

section \<open>\<open>Softmax\<close>\<close>

text \<open>A single number passes through unchanged, and its derivative is zero.\<close>

definition Softmax_activate :: "'a cxx \<Rightarrow> 'a \<Rightarrow> 'a" where
  "Softmax_activate C input = input"

text \<open>\<open>*std::max_element\<close>; on an empty vector it dereferences the end iterator.\<close>

definition max_element :: "'a::ord vec \<Rightarrow> 'a res" where
  "max_element v = (case v of [] \<Rightarrow> Inl (Undefined Out_of_bounds) | x # xs \<Rightarrow> Inr (foldl std_max x xs))"

definition Softmax_activate_v :: "'a cxx \<Rightarrow> 'a::{zero,plus,minus,inverse,ord} vec \<Rightarrow> 'a vec res" where
  "Softmax_activate_v C input =
     bind_res (max_element input) (\<lambda>maxVal.
     bind_res (for_acc (length input) (0, replicate (length input) 0)
       (\<lambda>(sumExp, results) i. bind_res (at_v input i) (\<lambda>x.
          let val = c_exp C (x - maxVal)
          in bind_res (set_v results i val) (\<lambda>results'. Inr (sumExp + val, results')))))
       (\<lambda>(sumExp, results).
     for_acc (length input) results
       (\<lambda>results i. bind_res (at_v results i) (\<lambda>x. set_v results i (x / sumExp)))))"

text \<open>
  The matrix overload works in place, column by column: the column's maximum, then the
  exponentials written back while they are summed, then the division.
\<close>

definition Softmax_column :: "'a cxx \<Rightarrow> nat \<Rightarrow> 'a::{zero,plus,minus,inverse,ord} mat \<Rightarrow> nat \<Rightarrow> 'a mat res" where
  "Softmax_column C n results j =
     bind_res (at_m results 0 j) (\<lambda>max0.
     bind_res (fold_res (\<lambda>max i. bind_res (at_m results i j) (\<lambda>x. Inr (if max < x then x else max)))
                max0 [1..<n]) (\<lambda>max.
     bind_res (for_acc n (0, results)
       (\<lambda>(sum, results) i. bind_res (at_m results i j) (\<lambda>x.
          let val = c_exp C (x - max)
          in bind_res (set_m results i j val) (\<lambda>results'. Inr (sum + val, results')))))
       (\<lambda>(sum, results).
     for_acc n results
       (\<lambda>results i. bind_res (at_m results i j) (\<lambda>x. set_m results i j (x / sum))))))"

definition Softmax_activate_m :: "'a cxx \<Rightarrow> 'a::{zero,plus,minus,inverse,ord} mat \<Rightarrow> 'a mat res" where
  "Softmax_activate_m C input =
     bind_res (at_v input 0) (\<lambda>row0.
       for_acc (length row0) input (Softmax_column C (length input)))"

definition Softmax_derivative :: "'a cxx \<Rightarrow> 'a::zero \<Rightarrow> 'a" where
  "Softmax_derivative C input = 0"

definition Softmax_derivative_v :: "'a cxx \<Rightarrow> 'a::{zero,one,plus,minus,times,inverse,ord} vec \<Rightarrow> 'a vec res" where
  "Softmax_derivative_v C input =
     bind_res (Softmax_activate_v C input) (\<lambda>softmaxOutput.
       for_vec (length input) (\<lambda>i. bind_res (at_v softmaxOutput i) (\<lambda>s. Inr (s * (1 - s)))))"

text \<open>The matrix overload returns its argument.\<close>

definition Softmax_derivative_m :: "'a cxx \<Rightarrow> 'a mat \<Rightarrow> 'a mat res" where
  "Softmax_derivative_m C input = Inr input"

section \<open>The hierarchy: dynamic type and virtual calls\<close>

datatype activation = Sigmoid | Tanh | Relu | LeakyRelu | Softmax

definition getActivationClass :: "string \<Rightarrow> activation res" where
  "getActivationClass name =
     (if name = ''sigmoid'' then Inr Sigmoid
      else if name = ''tanh'' then Inr Tanh
      else if name = ''relu'' then Inr Relu
      else if name = ''leaky relu'' then Inr LeakyRelu
      else if name = ''softmax'' then Inr Softmax
      else Inl (Invalid_argument (''Unknown activation function: '' @ name)))"

fun activate :: "'a cxx \<Rightarrow> activation \<Rightarrow> 'a::{zero,one,plus,minus,uminus,times,inverse,ord} \<Rightarrow> 'a" where
  "activate C Sigmoid = Sigmoid_activate C"
| "activate C Tanh = Tanh_activate C"
| "activate C Relu = Relu_activate C"
| "activate C LeakyRelu = LeakyRelu_activate C"
| "activate C Softmax = Softmax_activate C"

fun activate_m :: "'a cxx \<Rightarrow> activation \<Rightarrow> 'a::{zero,one,plus,minus,uminus,times,inverse,ord} mat \<Rightarrow> 'a mat res" where
  "activate_m C Sigmoid = Sigmoid_activate_m C"
| "activate_m C Tanh = Tanh_activate_m C"
| "activate_m C Relu = Relu_activate_m C"
| "activate_m C LeakyRelu = LeakyRelu_activate_m C"
| "activate_m C Softmax = Softmax_activate_m C"

fun derivative :: "'a cxx \<Rightarrow> activation \<Rightarrow> 'a::{zero,one,plus,minus,uminus,times,inverse,ord} \<Rightarrow> 'a" where
  "derivative C Sigmoid = Sigmoid_derivative C"
| "derivative C Tanh = Tanh_derivative C"
| "derivative C Relu = Relu_derivative C"
| "derivative C LeakyRelu = LeakyRelu_derivative C"
| "derivative C Softmax = Softmax_derivative C"

fun derivative_m :: "'a cxx \<Rightarrow> activation \<Rightarrow> 'a::{zero,one,plus,minus,uminus,times,inverse,ord} mat \<Rightarrow> 'a mat res" where
  "derivative_m C Sigmoid = Sigmoid_derivative_m C"
| "derivative_m C Tanh = Tanh_derivative_m C"
| "derivative_m C Relu = Relu_derivative_m C"
| "derivative_m C LeakyRelu = LeakyRelu_derivative_m C"
| "derivative_m C Softmax = Softmax_derivative_m C"

section \<open>What a layer relies on\<close>

locale activation_shape =
  fixes act_m :: "'a mat \<Rightarrow> 'a mat res"
  assumes shape: "mat_wf r c X \<Longrightarrow> 0 < r \<Longrightarrow> \<exists>Y. act_m X = Inr Y \<and> mat_wf r c Y"
begin

lemma shape_Inr: "mat_wf r c X \<Longrightarrow> 0 < r \<Longrightarrow> act_m X = Inr Y \<Longrightarrow> mat_wf r c Y"
  using shape by fastforce

end

text \<open>The matrix method is the number method at every entry.\<close>

locale activation_pointwise =
  fixes act :: "'a \<Rightarrow> 'a" and act_m :: "'a mat \<Rightarrow> 'a mat res"
  assumes pointwise: "mat_wf r c X \<Longrightarrow> 0 < r \<Longrightarrow> act_m X = Inr (mat_of r c (\<lambda>i j. act (X ! i ! j)))"

sublocale activation_pointwise \<subseteq> activation_shape act_m
  by unfold_locales (auto simp: pointwise)

text \<open>
  The derivative convention of the code: \<open>deriv\<close> takes the value of the activation, not
  its argument. It is right at every point of \<open>dom\<close>.
\<close>

locale activation_derivative =
  fixes act :: "real \<Rightarrow> real" and deriv :: "real \<Rightarrow> real" and smooth :: "real \<Rightarrow> bool"
  assumes has_deriv: "smooth x \<Longrightarrow> (act has_real_derivative deriv (act x)) (at x)"
begin

lemma chain:
  assumes "(f has_real_derivative f') (at t)" "smooth (f t)"
  shows "((\<lambda>s. act (f s)) has_real_derivative deriv (act (f t)) * f') (at t)"
  using DERIV_chain2 [OF has_deriv [OF assms(2)] assms(1)] by simp

end

interpretation sigmoid: activation_pointwise "Sigmoid_activate C" "Sigmoid_activate_m C" for C
  by unfold_locales (simp add: Sigmoid_activate_m_def Sigmoid_activate_def mat_loop_eq)

interpretation sigmoid_deriv: activation_pointwise "Sigmoid_derivative C" "Sigmoid_derivative_m C" for C
  by unfold_locales (simp add: Sigmoid_derivative_m_def Sigmoid_derivative_def mat_loop_eq)

interpretation tanh_act: activation_pointwise "Tanh_activate C" "Tanh_activate_m C" for C
  by unfold_locales (simp add: Tanh_activate_m_def Tanh_activate_def mat_loop_eq)

interpretation tanh_act_deriv: activation_pointwise "Tanh_derivative C" "Tanh_derivative_m C" for C
  by unfold_locales (simp add: Tanh_derivative_m_def Tanh_derivative_def mat_loop_eq)

interpretation relu: activation_pointwise "Relu_activate C" "Relu_activate_m C" for C
  by unfold_locales (simp add: Relu_activate_m_def Relu_activate_def mat_loop_eq)

interpretation relu_deriv: activation_pointwise "Relu_derivative C" "Relu_derivative_m C" for C
  by unfold_locales (simp add: Relu_derivative_m_def Relu_derivative_def mat_loop_eq)

interpretation leaky: activation_pointwise "LeakyRelu_activate C" "LeakyRelu_activate_m C" for C
  by unfold_locales (simp add: LeakyRelu_activate_m_def LeakyRelu_activate_def mat_loop_eq)

interpretation leaky_deriv: activation_pointwise "LeakyRelu_derivative C" "LeakyRelu_derivative_m C" for C
  by unfold_locales (simp add: LeakyRelu_derivative_m_def LeakyRelu_derivative_def mat_loop_eq)

end
