(* ===== verification/SoftmaxLoop.thy ===== *)
theory SoftmaxLoop
  imports Activations
begin

text \<open>
  The in-place matrix softmax: the three loops of a column (maximum, exponentials with
  their running sum, division) are shown to leave in the column the specification
  \<open>softmax_spec\<close> of the column it held, and nothing else changed. Over the reals the
  specification is a probability distribution that keeps the order of its arguments.
\<close>

section \<open>The loops against the specification\<close>

definition softmax_spec :: "'a cxx \<Rightarrow> 'a::{zero,plus,minus,inverse,ord} vec \<Rightarrow> 'a vec" where
  "softmax_spec C xs =
     (let m = foldl std_max (hd xs) (tl xs);
          es = map (\<lambda>x. c_exp C (x - m)) xs
      in map (\<lambda>e. e / foldl (+) 0 es) es)"

definition column :: "'a mat \<Rightarrow> nat \<Rightarrow> 'a vec" where
  "column A j = map (\<lambda>row. row ! j) A"

lemma column_length [simp]: "length (column A j) = length A"
  by (simp add: column_def)

lemma column_nth [simp]: "i < length A \<Longrightarrow> column A j ! i = A ! i ! j"
  by (simp add: column_def)

text \<open>The matrix \<open>A\<close> with the first \<open>k\<close> entries of column \<open>j\<close> replaced.\<close>

definition with_column :: "nat \<Rightarrow> nat \<Rightarrow> nat \<Rightarrow> nat \<Rightarrow> (nat \<Rightarrow> 'a) \<Rightarrow> 'a mat \<Rightarrow> 'a mat" where
  "with_column n c j k f A = mat_of n c (\<lambda>i q. if q = j \<and> i < k then f i else A ! i ! q)"

lemma with_column_wf [simp]: "mat_wf n c (with_column n c j k f A)"
  by (simp add: with_column_def)

lemma with_column_0: "mat_wf n c A \<Longrightarrow> with_column n c j 0 f A = A"
  by (simp add: with_column_def mat_of_self)

lemma with_column_at:
  "i < n \<Longrightarrow> j < c \<Longrightarrow> at_m (with_column n c j k f A) i j = Inr (if i < k then f i else A ! i ! j)"
  by (subst at_m_wf [of n c]) (simp_all add: with_column_def)

lemma with_column_set:
  "k < n \<Longrightarrow> j < c \<Longrightarrow>
   set_m (with_column n c j k f A) k j (f k) = Inr (with_column n c j (Suc k) f A)"
  by (auto simp: set_m_cell [of n c] with_column_def mat_of_eq_iff less_Suc_eq)

lemma column_loop:
  assumes "mat_wf n c A" "j < c" "k \<le> n"
  shows "for_acc k A (\<lambda>R i. bind_res (at_m R i j) (\<lambda>x. set_m R i j (h x))) =
    Inr (with_column n c j k (\<lambda>i. h (A ! i ! j)) A)"
  using assms(3)
proof (induction k)
  case 0
  with assms(1) show ?case by (simp add: with_column_0)
next
  case (Suc k)
  with assms(2) show ?case
    using with_column_set [of k n j c "\<lambda>i. h (A ! i ! j)" A]
    by (simp add: for_acc_Suc with_column_at)
qed

lemma column_sum_loop:
  assumes "mat_wf n c A" "j < c" "k \<le> n"
  shows "for_acc k (0, A) (\<lambda>(s, R) i. bind_res (at_m R i j) (\<lambda>x.
      let v = h x in bind_res (set_m R i j v) (\<lambda>R'. Inr (s + v, R')))) =
    Inr (loop_sum k (\<lambda>i. h (A ! i ! j)), with_column n c j k (\<lambda>i. h (A ! i ! j)) A)"
  using assms(3)
proof (induction k)
  case 0
  with assms(1) show ?case by (simp add: with_column_0)
next
  case (Suc k)
  with assms(2) show ?case
    using with_column_set [of k n j c "\<lambda>i. h (A ! i ! j)" A]
    by (simp add: for_acc_Suc with_column_at loop_sum_Suc)
qed

lemma column_map_upt: "length A = n \<Longrightarrow> map (\<lambda>i. f (A ! i ! j)) [0..<n] = map f (column A j)"
  by (rule nth_equalityI) simp_all

lemma column_max_loop:
  assumes "mat_wf n c A" "j < c" "0 < n"
  shows "fold_res (\<lambda>max i. bind_res (at_m A i j) (\<lambda>x. Inr (if max < x then x else max)))
      (A ! 0 ! j) [1..<n] = Inr (foldl std_max (hd (column A j)) (tl (column A j)))"
proof -
  have "fold_res (\<lambda>max i. bind_res (at_m A i j) (\<lambda>x. Inr (if max < x then x else max)))
      (A ! 0 ! j) [1..<n] = Inr (foldl (\<lambda>max i. std_max max (A ! i ! j)) (A ! 0 ! j) [1..<n])"
    using assms by (intro fold_res_pure) (simp add: std_max_def)
  also have "foldl (\<lambda>max i. std_max max (A ! i ! j)) (A ! 0 ! j) [1..<n] =
      foldl std_max (A ! 0 ! j) (map (\<lambda>i. A ! i ! j) [1..<n])"
    by (simp add: foldl_map)
  also have "map (\<lambda>i. A ! i ! j) [1..<n] = tl (column A j)"
    using assms by (intro nth_equalityI) (simp_all add: nth_tl)
  finally show ?thesis
    using assms by (simp add: hd_conv_nth mat_wf_not_Nil flip: length_0_conv)
qed

lemma Softmax_column_eq:
  assumes wf: "mat_wf n c A" and j: "j < c" and n: "0 < n"
  shows "Softmax_column C n A j = Inr (with_column n c j n (\<lambda>i. softmax_spec C (column A j) ! i) A)"
proof -
  define m where "m = foldl std_max (hd (column A j)) (tl (column A j))"
  define e where "e i = c_exp C (A ! i ! j - m)" for i
  define s where "s = loop_sum n e"
  let ?B = "with_column n c j n e A"
  have s_eq: "s = foldl (+) 0 (map (\<lambda>x. c_exp C (x - m)) (column A j))"
    unfolding s_def loop_sum_foldl e_def
    using wf by (subst column_map_upt [where f = "\<lambda>x. c_exp C (x - m)"]) simp_all
  have spec: "softmax_spec C (column A j) ! i = e i / s" if "i < n" for i
    using that wf by (simp add: softmax_spec_def Let_def s_eq m_def e_def)
  have "Softmax_column C n A j = Inr (with_column n c j n (\<lambda>i. ?B ! i ! j / s) ?B)"
    using wf j n column_max_loop [OF wf j n] column_sum_loop [OF wf j order_refl, of "\<lambda>x. c_exp C (x - m)"]
      column_loop [of n c ?B j n "\<lambda>x. x / s"]
    by (simp add: Softmax_column_def m_def [symmetric] e_def [symmetric] s_def)
  also have "with_column n c j n (\<lambda>i. ?B ! i ! j / s) ?B =
      with_column n c j n (\<lambda>i. softmax_spec C (column A j) ! i) A"
    using j by (intro mat_eqI [of n c]) (simp_all add: with_column_def spec)
  finally show ?thesis .
qed

lemma Softmax_activate_m_eq:
  assumes wf: "mat_wf n c A" and n: "0 < n"
  shows "Softmax_activate_m C A = Inr (mat_of n c (\<lambda>i j. softmax_spec C (column A j) ! i))"
proof -
  let ?R = "\<lambda>k. mat_of n c (\<lambda>i j. if j < k then softmax_spec C (column A j) ! i else A ! i ! j)"
  have step: "for_acc k A (Softmax_column C n) = Inr (?R k)" if "k \<le> c" for k
    using that
  proof (induction k)
    case 0
    with wf show ?case by (simp add: mat_of_self)
  next
    case (Suc k)
    have col: "column (?R k) k = column A k"
      using Suc.prems wf by (intro nth_equalityI) simp_all
    have "with_column n c k n (\<lambda>i. softmax_spec C (column (?R k) k) ! i) (?R k) = ?R (Suc k)"
      unfolding col using Suc.prems
      by (intro mat_eqI [of n c]) (auto simp: with_column_def less_Suc_eq)
    with Suc n show ?case
      by (simp add: for_acc_Suc Softmax_column_eq [of n c "?R k" k])
  qed
  have "Softmax_activate_m C A = Inr (?R c)"
    using wf n step [of c] by (simp add: Softmax_activate_m_def)
  also have "?R c = mat_of n c (\<lambda>i j. softmax_spec C (column A j) ! i)"
    by (simp cong: mat_of_cong)
  finally show ?thesis .
qed

section \<open>The vector overload\<close>

lemma Softmax_activate_v_eq:
  assumes "xs \<noteq> []"
  shows "Softmax_activate_v C xs = Inr (softmax_spec C xs)"
proof -
  define n where "n = length xs"
  define m where "m = foldl std_max (hd xs) (tl xs)"
  define e where "e i = c_exp C (xs ! i - m)" for i
  have max: "max_element xs = Inr m"
    using assms by (cases xs) (simp_all add: max_element_def m_def)
  have sum: "for_acc k (0, replicate n 0) (\<lambda>(s, R) i. bind_res (at_v xs i) (\<lambda>x.
       let v = c_exp C (x - m) in bind_res (set_v R i v) (\<lambda>R'. Inr (s + v, R')))) =
     Inr (loop_sum k e, map (\<lambda>i. if i < k then e i else 0) [0..<n])" if "k \<le> n" for k
    using that
  proof (induction k)
    case 0
    show ?case by (simp add: map_replicate_const)
  next
    case (Suc k)
    have "(map (\<lambda>i. if i < k then e i else 0) [0..<n])[k := e k] =
        map (\<lambda>i. if i < Suc k then e i else 0) [0..<n]"
      using Suc.prems by (intro nth_equalityI) (auto simp: nth_list_update less_Suc_eq)
    with Suc show ?case by (simp add: for_acc_Suc n_def e_def loop_sum_Suc)
  qed
  define s where "s = loop_sum n e"
  have div: "for_acc k (map e [0..<n]) (\<lambda>R i. bind_res (at_v R i) (\<lambda>x. set_v R i (x / s))) =
     Inr (map (\<lambda>i. if i < k then e i / s else e i) [0..<n])" if "k \<le> n" for k
    using that
  proof (induction k)
    case 0
    show ?case by simp
  next
    case (Suc k)
    have "(map (\<lambda>i. if i < k then e i / s else e i) [0..<n])[k := e k / s] =
        map (\<lambda>i. if i < Suc k then e i / s else e i) [0..<n]"
      using Suc.prems by (intro nth_equalityI) (auto simp: nth_list_update less_Suc_eq)
    with Suc show ?case by (simp add: for_acc_Suc)
  qed
  have es: "map e [0..<n] = map (\<lambda>x. c_exp C (x - m)) xs"
    unfolding e_def n_def by (rule map_nth_upt)
  have cut: "map (\<lambda>i. if i < n then f i else g i) [0..<n] = map f [0..<n]" for f g :: "nat \<Rightarrow> 'a"
    by simp
  have "Softmax_activate_v C xs = Inr (map (\<lambda>i. e i / s) [0..<n])"
    using sum [of n] div [of n] by (simp add: Softmax_activate_v_def max cut flip: n_def s_def)
  also have "map (\<lambda>i. e i / s) [0..<n] = map (\<lambda>x. x / s) (map e [0..<n])"
    by simp
  also have "\<dots> = softmax_spec C xs"
    by (simp add: softmax_spec_def Let_def es m_def s_def loop_sum_foldl del: map_map)
  finally show ?thesis .
qed

section \<open>Over the reals\<close>

definition exp_sum :: "real list \<Rightarrow> real" where
  "exp_sum xs = (\<Sum>i<length xs. exp (xs ! i))"

lemma exp_sum_pos: "xs \<noteq> [] \<Longrightarrow> 0 < exp_sum xs"
  unfolding exp_sum_def by (rule sum_pos) (auto simp: lessThan_empty_iff)

text \<open>The shift by the maximum cancels.\<close>

lemma softmax_real:
  assumes "i < length xs"
  shows "softmax_spec real_cxx xs ! i = exp (xs ! i) / exp_sum xs"
proof -
  define m where "m = foldl std_max (hd xs) (tl xs)"
  have "foldl (+) 0 (map (\<lambda>x. exp (x - m)) xs) = (\<Sum>i<length xs. exp (xs ! i - m))"
    by (simp flip: loop_sum_eq_sum add: loop_sum_foldl map_nth_upt [of "\<lambda>x. exp (x - m)"])
  also have "\<dots> = exp_sum xs / exp m"
    by (simp add: exp_sum_def exp_diff sum_divide_distrib)
  finally have s: "foldl (+) 0 (map (\<lambda>x. exp (x - m)) xs) = exp_sum xs / exp m" .
  from assms show ?thesis
    unfolding softmax_spec_def Let_def m_def [symmetric] real_cxx_simps
    by (simp add: s) (simp add: exp_diff)
qed

lemma softmax_length [simp]: "length (softmax_spec C xs) = length xs"
  by (simp add: softmax_spec_def Let_def)

lemma softmax_pos: "i < length xs \<Longrightarrow> 0 < softmax_spec real_cxx xs ! i"
  using exp_sum_pos [of xs] by (fastforce simp: softmax_real)

lemma softmax_sum: "xs \<noteq> [] \<Longrightarrow> (\<Sum>i<length xs. softmax_spec real_cxx xs ! i) = 1"
  using exp_sum_pos [of xs]
  by (simp add: softmax_real flip: sum_divide_distrib exp_sum_def)

lemma softmax_le_one: "i < length xs \<Longrightarrow> softmax_spec real_cxx xs ! i \<le> 1"
proof -
  assume i: "i < length xs"
  then have "softmax_spec real_cxx xs ! i \<le> (\<Sum>i<length xs. softmax_spec real_cxx xs ! i)"
    by (intro member_le_sum) (auto intro: less_imp_le softmax_pos)
  with i show ?thesis using softmax_sum [of xs] by fastforce
qed

lemma softmax_mono:
  "i < length xs \<Longrightarrow> k < length xs \<Longrightarrow>
   softmax_spec real_cxx xs ! i \<le> softmax_spec real_cxx xs ! k \<longleftrightarrow> xs ! i \<le> xs ! k"
  using exp_sum_pos [of xs] by (fastforce simp: softmax_real divide_le_cancel)

end
