(* ===== verification/ActivationFacts.thy ===== *)
theory ActivationFacts
  imports SoftmaxLoop
begin

text \<open>
  What the activation classes promise, over any number type (shape and pointwise
  behaviour) and over the reals (derivatives, ranges, the softmax distribution).
\<close>

section \<open>Shape and pointwise behaviour of the virtual calls\<close>

lemma activate_m_pointwise:
  "k \<noteq> Softmax \<Longrightarrow> mat_wf r c X \<Longrightarrow> 0 < r \<Longrightarrow>
   activate_m C k X = Inr (mat_of r c (\<lambda>i j. activate C k (X ! i ! j)))"
  by (cases k) (simp_all add: sigmoid.pointwise tanh_act.pointwise relu.pointwise leaky.pointwise)

lemma derivative_m_pointwise:
  "k \<noteq> Softmax \<Longrightarrow> mat_wf r c X \<Longrightarrow> 0 < r \<Longrightarrow>
   derivative_m C k X = Inr (mat_of r c (\<lambda>i j. derivative C k (X ! i ! j)))"
  by (cases k) (simp_all add: sigmoid_deriv.pointwise tanh_act_deriv.pointwise
      relu_deriv.pointwise leaky_deriv.pointwise)

interpretation act_shape: activation_shape "activate_m C k" for C k
proof
  fix r c and X :: "'a mat"
  assume "mat_wf r c X" "0 < r"
  then show "\<exists>Y. activate_m C k X = Inr Y \<and> mat_wf r c Y"
    by (cases "k = Softmax") (auto simp: activate_m_pointwise Softmax_activate_m_eq)
qed

interpretation deriv_shape: activation_shape "derivative_m C k" for C k
proof
  fix r c and X :: "'a mat"
  assume "mat_wf r c X" "0 < r"
  then show "\<exists>Y. derivative_m C k X = Inr Y \<and> mat_wf r c Y"
    by (cases "k = Softmax") (auto simp: derivative_m_pointwise Softmax_derivative_m_def)
qed

section \<open>Derivatives over the reals\<close>

fun smooth_at :: "activation \<Rightarrow> real \<Rightarrow> bool" where
  "smooth_at Sigmoid x = True"
| "smooth_at Tanh x = True"
| "smooth_at Relu x = (x \<noteq> 0)"
| "smooth_at LeakyRelu x = (x \<noteq> 0)"
| "smooth_at Softmax x = False"

lemma sigmoid_pos: "0 < Sigmoid_activate real_cxx x" "Sigmoid_activate real_cxx x < 1"
  by (simp_all add: Sigmoid_activate_def add_pos_pos divide_less_eq_1)

lemma Sigmoid_has_deriv:
  "(Sigmoid_activate real_cxx has_real_derivative
     Sigmoid_derivative real_cxx (Sigmoid_activate real_cxx x)) (at x)"
proof -
  have pos: "1 + exp (- x) > 0" by (simp add: add_pos_pos)
  have "((\<lambda>x. 1 / (1 + exp (- x))) has_real_derivative exp (- x) / (1 + exp (- x))\<^sup>2) (at x)"
    using pos by (auto intro!: derivative_eq_intros simp: power2_eq_square)
  also have "exp (- x) / (1 + exp (- x))\<^sup>2 = 1 / (1 + exp (- x)) * (1 - 1 / (1 + exp (- x)))"
    using pos by (simp add: field_simps power2_eq_square)
  finally show ?thesis
    by (simp add: Sigmoid_activate_def [abs_def] Sigmoid_derivative_def)
qed

lemma Tanh_has_deriv:
  "(Tanh_activate real_cxx has_real_derivative
     Tanh_derivative real_cxx (Tanh_activate real_cxx x)) (at x)"
  by (auto simp: Tanh_activate_def [abs_def] Tanh_derivative_def power2_eq_square
      intro!: derivative_eq_intros)

text \<open>A function with two linear branches is differentiable off the joint.\<close>

lemma two_branches_deriv:
  assumes "x \<noteq> 0" and f: "\<And>y. f y = (if 0 < y then y else s * y :: real)"
  shows "(f has_real_derivative (if 0 < x then 1 else s)) (at x)"
proof (cases "0 < x")
  case True
  have "(f has_real_derivative 1) (at x within {0<..})"
    by (rule has_field_derivative_transform_within [of "\<lambda>y. y" _ _ _ 1])
      (use True f in \<open>auto intro!: derivative_eq_intros\<close>)
  then have "(f has_real_derivative 1) (at x)"
    using True by (simp add: at_within_open [of x "{0<..}"])
  with True show ?thesis by simp
next
  case False
  have "(f has_real_derivative s) (at x within {..<0})"
    by (rule has_field_derivative_transform_within [of "\<lambda>y. s * y" _ _ _ 1])
      (use False assms in \<open>auto intro!: derivative_eq_intros\<close>)
  then have "(f has_real_derivative s) (at x)"
    using False assms(1) by (simp add: at_within_open [of x "{..<0}"])
  with False show ?thesis by simp
qed

lemma Relu_eq: "Relu_activate real_cxx x = (if 0 < x then x else 0 * x)"
  by (simp add: Relu_activate_def)

lemma LeakyRelu_eq: "LeakyRelu_activate real_cxx x = (if 0 < x then x else 1 / 100 * x)"
  by (simp add: LeakyRelu_activate_def of_rat_divide max_def)

lemma Relu_has_deriv:
  "x \<noteq> 0 \<Longrightarrow> (Relu_activate real_cxx has_real_derivative
     Relu_derivative real_cxx (Relu_activate real_cxx x)) (at x)"
  using two_branches_deriv [of x "Relu_activate real_cxx" 0]
  by (cases "0 < x") (simp_all add: Relu_eq Relu_derivative_def)

lemma LeakyRelu_has_deriv:
  "x \<noteq> 0 \<Longrightarrow> (LeakyRelu_activate real_cxx has_real_derivative
     LeakyRelu_derivative real_cxx (LeakyRelu_activate real_cxx x)) (at x)"
  using two_branches_deriv [of x "LeakyRelu_activate real_cxx" "1 / 100"]
  by (cases "0 < x") (simp_all add: LeakyRelu_eq LeakyRelu_derivative_def of_rat_divide)

interpretation act_deriv:
  activation_derivative "activate real_cxx k" "derivative real_cxx k" "smooth_at k" for k
proof
  fix x
  assume "smooth_at k x"
  then show "(activate real_cxx k has_real_derivative derivative real_cxx k (activate real_cxx k x)) (at x)"
    by (cases k) (auto simp: Sigmoid_has_deriv Tanh_has_deriv Relu_has_deriv LeakyRelu_has_deriv)
qed

section \<open>Properties\<close>

text \<open>C32: Every activation class but softmax follows the convention the layers assume: its
  \<open>derivative\<close>, applied to the value \<open>activate(x)\<close>, is the derivative of \<open>activate\<close> at \<open>x\<close>,
  wherever the function is differentiable (everywhere for sigmoid and tanh, off zero for
  the two rectifiers).\<close>

theorem derivative_of_activation_value:
  assumes "smooth_at k x"
  shows "(activate real_cxx k has_real_derivative derivative real_cxx k (activate real_cxx k x)) (at x)"
  using assms by (rule act_deriv.has_deriv)

theorem derivative_of_activation_value_witness:
  "smooth_at LeakyRelu (- 2) \<and>
   (activate real_cxx LeakyRelu has_real_derivative 1 / 100) (at (- 2))"
  using derivative_of_activation_value [of LeakyRelu "- 2"]
  by (simp add: LeakyRelu_eq LeakyRelu_derivative_def of_rat_divide)

text \<open>C30: The in-place column loops of the matrix softmax compute, for every number type,
  the softmax of each column of the argument, independently of the other columns.\<close>

theorem softmax_in_place_correct:
  assumes "mat_wf n c A" "0 < n"
  shows "Softmax_activate_m C A = Inr (mat_of n c (\<lambda>i j. softmax_spec C (column A j) ! i))"
  using assms by (rule Softmax_activate_m_eq)

theorem softmax_in_place_correct_witness:
  "Softmax_activate_m real_cxx [[0, 1], [0, 1 :: real]] =
   Inr (mat_of 2 2 (\<lambda>i j. softmax_spec real_cxx (column [[0, 1], [0, 1]] j) ! i))"
  by (rule softmax_in_place_correct) simp_all

text \<open>C31: Over the reals the matrix softmax turns every column into a probability
  distribution (positive entries that sum to one) that orders the classes as the
  argument does.\<close>

theorem softmax_distribution:
  assumes "mat_wf n c A" "0 < n"
  shows "\<exists>P. Softmax_activate_m real_cxx A = Inr P \<and> mat_wf n c P \<and>
    (\<forall>j<c. (\<Sum>i<n. P ! i ! j) = 1) \<and>
    (\<forall>i<n. \<forall>j<c. 0 < P ! i ! j \<and> P ! i ! j \<le> 1) \<and>
    (\<forall>i<n. \<forall>k<n. \<forall>j<c. P ! i ! j \<le> P ! k ! j \<longleftrightarrow> A ! i ! j \<le> A ! k ! j)"
proof -
  have ne: "column A j \<noteq> []" for j
    using assms by (simp flip: length_0_conv)
  have "(\<Sum>i<n. softmax_spec real_cxx (column A j) ! i) = 1" for j
    using softmax_sum [OF ne] assms by simp
  then show ?thesis
    using assms by (intro exI [of _ "mat_of n c (\<lambda>i j. softmax_spec real_cxx (column A j) ! i)"])
      (simp add: Softmax_activate_m_eq softmax_pos softmax_le_one softmax_mono)
qed

theorem softmax_distribution_witness:
  "\<exists>P. Softmax_activate_m real_cxx [[0], [ln 3 :: real]] = Inr P \<and> P ! 0 ! 0 + P ! 1 ! 0 = 1"
  using softmax_distribution [of 2 1 "[[0], [ln 3]]"]
  by (auto simp: numeral_2_eq_2 lessThan_Suc)

text \<open>The vector overload of the sigmoid's derivative does not follow the convention of
  the other two: it is the number overload composed with the activation, so it expects
  the argument and not the value; on the value \<open>1/2\<close> the two differ.\<close>

theorem sigmoid_derivative_overloads_differ:
  "Sigmoid_derivative_v C xs = map (Sigmoid_derivative C) (Sigmoid_activate_v C xs) \<and>
   Sigmoid_derivative_v real_cxx [1 / 2] \<noteq> [Sigmoid_derivative real_cxx (1 / 2)]"
proof
  show "Sigmoid_derivative_v C xs = map (Sigmoid_derivative C) (Sigmoid_activate_v C xs)"
    by (simp add: Sigmoid_derivative_v_def Sigmoid_activate_v_def Sigmoid_derivative_def
        vec_loop_def Let_def)
next
  define s where "s = 1 / (1 + exp (- (1 / 2 :: real)))"
  have "exp (- (1 / 2 :: real)) < 1" by simp
  then have "1 / 2 < s" by (simp add: s_def field_simps add_pos_pos)
  then have "0 < (s - 1 / 2)\<^sup>2" by simp
  then have "s * (1 - s) \<noteq> 1 / 2 * (1 - 1 / 2)"
    by (simp add: power2_eq_square algebra_simps)
  then show "Sigmoid_derivative_v real_cxx [1 / 2] \<noteq> [Sigmoid_derivative real_cxx (1 / 2)]"
    by (simp add: Sigmoid_derivative_v_def vec_loop_def Sigmoid_derivative_def Let_def s_def)
qed

end
