(* ===== verification/Losses.thy ===== *)
theory Losses
  imports MathUtils
begin

text \<open>
  \<open>Src/Essential Functions/Loss Factory\<close>: the two loss classes with their overloads on
  a number, a vector (\<open>_v\<close>) and a matrix (\<open>_m\<close>), the factory, and the virtual calls a
  network makes. The categorical loss takes class indices in row 0 of the targets, one
  per sample; a double used as an index is converted to \<open>int\<close> first.
\<close>

definition epsilon :: "'a cxx \<Rightarrow> 'a" where
  "epsilon C = c_lit C (1 / 10 ^ 10)"

section \<open>\<open>SigmoidCrossEntropy\<close>\<close>

definition SCE_calculateLoss :: "'a cxx \<Rightarrow> 'a::{one,plus,minus,uminus,times} \<Rightarrow> 'a \<Rightarrow> 'a" where
  "SCE_calculateLoss C prediction target =
     - (target * c_log C prediction + (1 - target) * c_log C (1 - prediction))"

definition SCE_calculateLoss_v ::
  "'a cxx \<Rightarrow> 'a::{zero,one,plus,minus,times,inverse} vec \<Rightarrow> 'a vec \<Rightarrow> 'a res" where
  "SCE_calculateLoss_v C predictions targets =
     (if length predictions \<noteq> length targets
      then Inl (Invalid_argument ''Predictions and targets must be the same size'')
      else bind_res (for_acc (length predictions) 0 (\<lambda>sum i.
             bind_res (at_v predictions i) (\<lambda>pred. bind_res (at_v targets i) (\<lambda>target.
               Inr (sum - (target * c_log C pred + (1 - target) * c_log C (1 - pred)))))))
           (\<lambda>sum. Inr (sum / c_int C (int (length predictions)))))"

definition SCE_calculateLoss_m ::
  "'a cxx \<Rightarrow> 'a::{zero,one,plus,minus,times,inverse} mat \<Rightarrow> 'a mat \<Rightarrow> 'a res" where
  "SCE_calculateLoss_m C predictions targets =
     bind_res (at_v predictions 0) (\<lambda>row0.
     bind_res (for_acc (length predictions) 0 (\<lambda>sum i. for_acc (length row0) sum (\<lambda>sum j.
         bind_res (at_m predictions i j) (\<lambda>pred. bind_res (at_m targets i j) (\<lambda>target.
           Inr (sum - (target * c_log C pred + (1 - target) * c_log C (1 - pred))))))))
       (\<lambda>sum. Inr (sum / c_int C (int (length row0)))))"

definition SCE_derivative ::
  "'a cxx \<Rightarrow> 'a::{one,plus,minus,times,inverse} \<Rightarrow> 'a \<Rightarrow> 'a" where
  "SCE_derivative C prediction target =
     (prediction - target) / (prediction * (1 - prediction) + epsilon C)"

definition SCE_derivative_v ::
  "'a cxx \<Rightarrow> 'a::{one,plus,minus,times,inverse} vec \<Rightarrow> 'a vec \<Rightarrow> 'a vec res" where
  "SCE_derivative_v C prediction target =
     for_vec (length prediction) (\<lambda>i.
       bind_res (at_v prediction i) (\<lambda>p. bind_res (at_v target i) (\<lambda>t.
         Inr ((p - t) / (p * (1 - p) + epsilon C)))))"

definition SCE_derivative_m ::
  "'a cxx \<Rightarrow> 'a::{one,plus,minus,times,inverse} mat \<Rightarrow> 'a mat \<Rightarrow> 'a mat res" where
  "SCE_derivative_m C predictions targets =
     bind_res (at_v predictions 0) (\<lambda>row0.
       for_mat (length predictions) (length row0) (\<lambda>i j.
         bind_res (at_m predictions i j) (\<lambda>pred. bind_res (at_m targets i j) (\<lambda>target.
           Inr ((pred - target) / (pred * (1 - pred) + epsilon C))))))"

section \<open>\<open>CategoricalCrossEntropy\<close>\<close>

definition CCE_calculateLoss :: "'a cxx \<Rightarrow> 'a::{plus,uminus,times} \<Rightarrow> 'a \<Rightarrow> 'a" where
  "CCE_calculateLoss C prediction target = - (target * c_log C prediction + epsilon C)"

text \<open>
  One sample with one-hot targets: the loop stops at the first class whose target is 1;
  the loss is 0 when there is none.
\<close>

fun CCE_calculateLoss_v ::
  "'a cxx \<Rightarrow> 'a::{zero,one,plus,uminus,ord} vec \<Rightarrow> 'a vec \<Rightarrow> 'a res" where
  "CCE_calculateLoss_v C [] targets = Inr 0"
| "CCE_calculateLoss_v C (p # predictions) [] = Inl (Undefined Out_of_bounds)"
| "CCE_calculateLoss_v C (p # predictions) (t # targets) =
     (if num_eq t 1 then Inr (- c_log C (p + epsilon C))
      else CCE_calculateLoss_v C predictions targets)"

text \<open>\<open>int targetInd = targets[0][sampleIdx];\<close>\<close>

definition targetInd :: "'a cxx \<Rightarrow> 'a mat \<Rightarrow> nat \<Rightarrow> int res" where
  "targetInd C targets sampleIdx =
     bind_res (at_m targets 0 sampleIdx) (\<lambda>t.
       case c_to_int C t of None \<Rightarrow> Inl (Undefined Bad_conversion) | Some k \<Rightarrow> Inr k)"

definition CCE_calculateLoss_m ::
  "'a cxx \<Rightarrow> 'a::{zero,plus,uminus,inverse} mat \<Rightarrow> 'a mat \<Rightarrow> 'a res" where
  "CCE_calculateLoss_m C predictions targets =
     bind_res (at_v predictions 0) (\<lambda>row0.
     bind_res (for_acc (length row0) 0 (\<lambda>totalLoss sampleIdx.
         bind_res (targetInd C targets sampleIdx) (\<lambda>k.
         bind_res (at_int predictions k) (\<lambda>row. bind_res (at_v row sampleIdx) (\<lambda>p.
           Inr (totalLoss + - c_log C (p + epsilon C)))))))
       (\<lambda>totalLoss. Inr (totalLoss / c_int C (int (length row0)))))"

definition CCE_derivative ::
  "'a cxx \<Rightarrow> 'a::{one,plus,minus,times,inverse} \<Rightarrow> 'a \<Rightarrow> 'a" where
  "CCE_derivative C prediction target =
     (prediction - target) / (prediction * (1 - prediction) + epsilon C)"

definition CCE_derivative_v :: "'a::minus vec \<Rightarrow> 'a vec \<Rightarrow> 'a vec res" where
  "CCE_derivative_v prediction target =
     for_vec (length prediction) (\<lambda>i.
       bind_res (at_v prediction i) (\<lambda>p. bind_res (at_v target i) (\<lambda>t. Inr (p - t))))"

text \<open>A copy of the predictions, with one entry per column lowered by one.\<close>

definition CCE_derivative_m :: "'a cxx \<Rightarrow> 'a::{one,minus} mat \<Rightarrow> 'a mat \<Rightarrow> 'a mat res" where
  "CCE_derivative_m C predictions targets =
     bind_res (at_v predictions 0) (\<lambda>row0.
       for_acc (length row0) predictions (\<lambda>gradients sampleIdx.
         bind_res (targetInd C targets sampleIdx) (\<lambda>k.
         bind_res (at_int predictions k) (\<lambda>row. bind_res (at_v row sampleIdx) (\<lambda>p.
           set_m gradients (nat k) sampleIdx (p - 1))))))"

section \<open>The factory and the virtual calls\<close>

datatype loss = SigmoidCrossEntropy | CategoricalCrossEntropy

text \<open>The branches for \<open>adam\<close> and \<open>mse\<close> are empty and flow off the end of the function.\<close>

definition getLossClass :: "string \<Rightarrow> loss res" where
  "getLossClass name =
     (if name = ''sigmoid cross entropy'' then Inr SigmoidCrossEntropy
      else if name = ''categorical cross entropy'' then Inr CategoricalCrossEntropy
      else if name = ''adam'' then Inl (Undefined Missing_return)
      else if name = ''mse'' then Inl (Undefined Missing_return)
      else Inl (Invalid_argument (''Unknown loss function: '' @ name)))"

fun calculateLoss_m ::
  "'a cxx \<Rightarrow> loss \<Rightarrow> 'a::{zero,one,plus,minus,uminus,times,inverse} mat \<Rightarrow> 'a mat \<Rightarrow> 'a res" where
  "calculateLoss_m C SigmoidCrossEntropy = SCE_calculateLoss_m C"
| "calculateLoss_m C CategoricalCrossEntropy = CCE_calculateLoss_m C"

fun lossDerivative_m ::
  "'a cxx \<Rightarrow> loss \<Rightarrow> 'a::{zero,one,plus,minus,uminus,times,inverse} mat \<Rightarrow> 'a mat \<Rightarrow> 'a mat res" where
  "lossDerivative_m C SigmoidCrossEntropy = SCE_derivative_m C"
| "lossDerivative_m C CategoricalCrossEntropy = CCE_derivative_m C"

section \<open>What a network relies on\<close>

locale loss_function =
  fixes loss :: "'a mat \<Rightarrow> 'a mat \<Rightarrow> 'a res"
    and deriv :: "'a mat \<Rightarrow> 'a mat \<Rightarrow> 'a mat res"
    and fits :: "nat \<Rightarrow> nat \<Rightarrow> 'a mat \<Rightarrow> bool"
  assumes loss_defined: "mat_wf n c P \<Longrightarrow> fits n c T \<Longrightarrow> 0 < n \<Longrightarrow> \<exists>v. loss P T = Inr v"
    and deriv_shape: "mat_wf n c P \<Longrightarrow> fits n c T \<Longrightarrow> 0 < n \<Longrightarrow> \<exists>D. deriv P T = Inr D \<and> mat_wf n c D"

section \<open>Evaluation on targets that fit\<close>

text \<open>\<open>ls\<close> are the class indices that row 0 of the targets denotes.\<close>

definition class_labels :: "'a cxx \<Rightarrow> nat \<Rightarrow> nat \<Rightarrow> 'a mat \<Rightarrow> nat list \<Rightarrow> bool" where
  "class_labels C n c T ls \<longleftrightarrow> T \<noteq> [] \<and> length (T ! 0) = c \<and> length ls = c \<and>
     (\<forall>j<c. c_to_int C (T ! 0 ! j) = Some (int (ls ! j)) \<and> ls ! j < n)"

fun targets_fit :: "'a cxx \<Rightarrow> loss \<Rightarrow> nat \<Rightarrow> nat \<Rightarrow> 'a mat \<Rightarrow> bool" where
  "targets_fit C SigmoidCrossEntropy n c T = mat_wf n c T"
| "targets_fit C CategoricalCrossEntropy n c T = (\<exists>ls. class_labels C n c T ls)"

lemma targetInd_label:
  "class_labels C n c T ls \<Longrightarrow> j < c \<Longrightarrow> targetInd C T j = Inr (int (ls ! j))"
  by (simp add: class_labels_def targetInd_def at_m_def)

lemma at_int_of_nat [simp]: "at_int xs (int k) = at_v xs k"
  by (simp add: at_int_def)

lemma CCE_calculateLoss_m_eq:
  assumes "mat_wf n c P" "class_labels C n c T ls" "0 < n"
  shows "CCE_calculateLoss_m C P T =
    Inr (loop_sum c (\<lambda>j. - c_log C (P ! (ls ! j) ! j + epsilon C)) / c_int C (int c))"
proof -
  have "ls ! j < n" if "j < c" for j
    using that assms(2) by (simp add: class_labels_def)
  then have "for_acc c 0 (\<lambda>totalLoss j. bind_res (targetInd C T j) (\<lambda>k.
      bind_res (at_int P k) (\<lambda>row. bind_res (at_v row j) (\<lambda>p.
        Inr (totalLoss + - c_log C (p + epsilon C)))))) =
      Inr (loop_sum c (\<lambda>j. - c_log C (P ! (ls ! j) ! j + epsilon C)))"
    using assms by (intro for_acc_sum) (simp add: targetInd_label)
  with assms show ?thesis by (simp add: CCE_calculateLoss_m_def)
qed

lemma CCE_derivative_m_eq:
  assumes "mat_wf n c P" "class_labels C n c T ls" "0 < n"
  shows "CCE_derivative_m C P T =
    Inr (mat_of n c (\<lambda>i j. if i = ls ! j then P ! i ! j - 1 else P ! i ! j))"
proof -
  let ?R = "\<lambda>k. mat_of n c (\<lambda>i j. if j < k \<and> i = ls ! j then P ! i ! j - 1 else P ! i ! j)"
  have lt: "ls ! j < n" if "j < c" for j
    using that assms(2) by (simp add: class_labels_def)
  have "for_acc k P (\<lambda>gradients j. bind_res (targetInd C T j) (\<lambda>k.
      bind_res (at_int P k) (\<lambda>row. bind_res (at_v row j) (\<lambda>p.
        set_m gradients (nat k) j (p - 1))))) = Inr (?R k)" if "k \<le> c" for k
    using that
  proof (induction k)
    case 0
    with assms(1) show ?case by (simp add: mat_of_self)
  next
    case (Suc k)
    then have k: "k < c" by simp
    have "set_m (?R k) (ls ! k) k (P ! (ls ! k) ! k - 1) = Inr (?R (Suc k))"
      using lt [OF k] k
      by (subst set_m_cell [of n c]) (auto simp: mat_of_eq_iff less_Suc_eq)
    with Suc k lt [OF k] assms show ?case
      by (simp add: for_acc_Suc targetInd_label)
  qed
  from this [of c] have "CCE_derivative_m C P T = Inr (?R c)"
    using assms by (simp add: CCE_derivative_m_def)
  then show ?thesis by (simp cong: mat_of_cong)
qed

definition SCE_term :: "'a cxx \<Rightarrow> 'a::{one,plus,minus,times} \<Rightarrow> 'a \<Rightarrow> 'a" where
  "SCE_term C p t = t * c_log C p + (1 - t) * c_log C (1 - p)"

lemma SCE_calculateLoss_m_eq:
  assumes "mat_wf n c P" "mat_wf n c T" "0 < n"
  shows "SCE_calculateLoss_m C P T =
    Inr (foldl (\<lambda>s i. foldl (\<lambda>s j. s - SCE_term C (P ! i ! j) (T ! i ! j)) s [0..<c]) 0 [0..<n]
         / c_int C (int c))"
proof -
  have inner: "for_acc c s (\<lambda>sum j. bind_res (at_m P i j) (\<lambda>pred. bind_res (at_m T i j) (\<lambda>target.
      Inr (sum - (target * c_log C pred + (1 - target) * c_log C (1 - pred)))))) =
      Inr (foldl (\<lambda>s j. s - SCE_term C (P ! i ! j) (T ! i ! j)) s [0..<c])" if "i < n" for s i
    using assms that by (intro for_acc_pure) (simp add: SCE_term_def)
  have "for_acc n 0 (\<lambda>sum i. for_acc c sum (\<lambda>sum j.
      bind_res (at_m P i j) (\<lambda>pred. bind_res (at_m T i j) (\<lambda>target.
        Inr (sum - (target * c_log C pred + (1 - target) * c_log C (1 - pred))))))) =
      Inr (foldl (\<lambda>s i. foldl (\<lambda>s j. s - SCE_term C (P ! i ! j) (T ! i ! j)) s [0..<c]) 0 [0..<n])"
    by (rule for_acc_pure) (rule inner)
  with assms show ?thesis by (simp add: SCE_calculateLoss_m_def)
qed

lemma SCE_derivative_m_eq:
  "mat_wf n c P \<Longrightarrow> mat_wf n c T \<Longrightarrow> 0 < n \<Longrightarrow>
   SCE_derivative_m C P T = Inr (mat_of n c (\<lambda>i j. SCE_derivative C (P ! i ! j) (T ! i ! j)))"
  by (simp add: SCE_derivative_m_def SCE_derivative_def for_mat_pure)

interpretation losses:
  loss_function "calculateLoss_m C L" "lossDerivative_m C L" "targets_fit C L" for C L
proof
  fix n c and P T :: "'a mat"
  assume "mat_wf n c P" "targets_fit C L n c T" "0 < n"
  then show "\<exists>v. calculateLoss_m C L P T = Inr v"
    and "\<exists>D. lossDerivative_m C L P T = Inr D \<and> mat_wf n c D"
    by (cases L; auto simp: SCE_calculateLoss_m_eq CCE_calculateLoss_m_eq
        SCE_derivative_m_eq CCE_derivative_m_eq)+
qed

end
