(* ===== verification/LossFacts.thy ===== *)
theory LossFacts
  imports Losses ActivationFacts
begin

text \<open>
  The losses over the reals: the derivative each class hands to back-propagation against
  the derivative of the loss it computes.
\<close>

section \<open>The softmax of one column as a function of one argument\<close>

lemma exp_sum_update:
  assumes "k < length xs"
  shows "exp_sum (xs[k := x]) = exp_sum xs - exp (xs ! k) + exp x"
proof -
  let ?I = "{..<length xs} - {k}"
  have split: "(\<Sum>i<length xs. f i) = f k + sum f ?I" for f :: "nat \<Rightarrow> real"
    using assms by (simp add: sum.remove)
  have "exp_sum (xs[k := x]) = exp x + (\<Sum>i\<in>?I. exp (xs[k := x] ! i))"
    using assms by (simp add: exp_sum_def split)
  also have "(\<Sum>i\<in>?I. exp (xs[k := x] ! i)) = (\<Sum>i\<in>?I. exp (xs ! i))"
    by (rule sum.cong) auto
  also have "\<dots> = exp_sum xs - exp (xs ! k)"
    by (simp add: exp_sum_def split)
  finally show ?thesis by simp
qed

lemma softmax_deriv:
  assumes k: "k < length xs" and t: "t < length xs"
  defines "p \<equiv> \<lambda>i. softmax_spec real_cxx xs ! i"
  shows "((\<lambda>x. softmax_spec real_cxx (xs[k := x]) ! t) has_real_derivative
    p t * (num_of_bool (k = t) - p k)) (at (xs ! k))"
proof -
  define E where "E = exp_sum xs"
  have E: "E > 0" unfolding E_def using k by (intro exp_sum_pos) auto
  define num where "num x = (if k = t then exp x else exp (xs ! t))" for x :: real
  have f: "softmax_spec real_cxx (xs[k := x]) ! t = num x / (E - exp (xs ! k) + exp x)" for x
    using k t by (simp add: softmax_real exp_sum_update num_def E_def nth_list_update)
  have dnum: "(num has_real_derivative num_of_bool (k = t) * exp (xs ! k)) (at (xs ! k))"
    unfolding num_def by (cases "k = t") (auto intro!: derivative_eq_intros)
  have "((\<lambda>x. num x / (E - exp (xs ! k) + exp x)) has_real_derivative
      (num_of_bool (k = t) * exp (xs ! k) * E - num (xs ! k) * exp (xs ! k)) / (E * E)) (at (xs ! k))"
    using E by (auto intro!: derivative_eq_intros dnum)
  also have "(num_of_bool (k = t) * exp (xs ! k) * E - num (xs ! k) * exp (xs ! k)) / (E * E) =
      p t * (num_of_bool (k = t) - p k)"
    using E k t by (cases "k = t") (simp_all add: p_def softmax_real num_def field_simps flip: E_def)
  finally show ?thesis unfolding f .
qed

lemma neg_log_softmax_deriv:
  assumes "k < length xs" "t < length xs" "0 \<le> e"
  defines "p \<equiv> \<lambda>i. softmax_spec real_cxx xs ! i"
  shows "((\<lambda>x. - ln (softmax_spec real_cxx (xs[k := x]) ! t + e)) has_real_derivative
    p t / (p t + e) * (p k - num_of_bool (k = t))) (at (xs ! k))"
proof -
  have pos: "0 < p t + e"
    using softmax_pos [of t xs] assms by (simp add: p_def add_pos_nonneg)
  have self: "xs[k := xs ! k] = xs" by simp
  have "((\<lambda>x. - ln (softmax_spec real_cxx (xs[k := x]) ! t + e)) has_real_derivative
      - (p t * (num_of_bool (k = t) - p k) / (p t + e))) (at (xs ! k))"
    using softmax_deriv [OF assms(1,2)] pos
    by (auto intro!: derivative_eq_intros simp: self p_def)
  then show ?thesis
    by (simp add: algebra_simps flip: p_def minus_divide_left)
      (simp add: diff_divide_distrib)
qed

section \<open>The batch loss behind a softmax layer\<close>

definition softmax_loss :: "real mat \<Rightarrow> real mat \<Rightarrow> real res" where
  "softmax_loss Z T =
     bind_res (Softmax_activate_m real_cxx Z) (\<lambda>P. CCE_calculateLoss_m real_cxx P T)"

lemma epsilon_real [simp]: "epsilon real_cxx = 1 / 10 ^ 10"
  by (simp add: epsilon_def of_rat_divide)

lemma softmax_loss_eq:
  assumes "mat_wf n c Z" "class_labels real_cxx n c T ls" "0 < n"
  shows "softmax_loss Z T =
    Inr ((\<Sum>j<c. - ln (softmax_spec real_cxx (column Z j) ! (ls ! j) + epsilon real_cxx)) / real c)"
proof -
  have "ls ! j < n" if "j < c" for j
    using that assms(2) by (simp add: class_labels_def)
  with assms show ?thesis
    by (simp add: softmax_loss_def Softmax_activate_m_eq CCE_calculateLoss_m_eq [where n = n and c = c and ls = ls]
        loop_sum_eq_sum)
qed

lemma column_set_cell:
  assumes "mat_wf n c Z" "k < n" "j < c" "q < c"
  shows "column (Z[k := (Z ! k)[j := x]]) q =
    (if q = j then (column Z j)[k := x] else column Z q)"
  using assms by (intro nth_equalityI) (auto simp: nth_list_update)

text \<open>C23: Back-propagation through a softmax layer with the categorical loss starts from the
  gradient of the batch loss: for every class \<open>k\<close> and sample \<open>j\<close>, the derivative of the
  loss the code computes, with respect to the layer's weighted input \<open>z[k][j]\<close>, is the
  entry the loss class returns, divided by the batch size and scaled by \<open>p / (p + epsilon)\<close>
  for the predicted probability \<open>p\<close> of the sample's class. The factor comes from the
  \<open>epsilon\<close> inside the logarithm, which the returned entry leaves out.\<close>

theorem softmax_loss_gradient:
  assumes wf: "mat_wf n c Z" and labels: "class_labels real_cxx n c T ls" and k: "k < n" and j: "j < c"
  shows "\<exists>P D. Softmax_activate_m real_cxx Z = Inr P \<and> CCE_derivative_m real_cxx P T = Inr D \<and>
    ((\<lambda>x. projr (softmax_loss (Z[k := (Z ! k)[j := x]]) T)) has_real_derivative
      P ! (ls ! j) ! j / (P ! (ls ! j) ! j + epsilon real_cxx) * D ! k ! j / real c) (at (Z ! k ! j))"
proof -
  define P where "P = mat_of n c (\<lambda>i j. softmax_spec real_cxx (column Z j) ! i)"
  define D where "D = mat_of n c (\<lambda>i j. if i = ls ! j then P ! i ! j - 1 else P ! i ! j)"
  define term_of where "term_of xs q = - ln (softmax_spec real_cxx xs ! (ls ! q) + epsilon real_cxx)"
    for xs and q :: nat
  have n: "0 < n" using k by simp
  have lt: "ls ! q < n" if "q < c" for q
    using that labels by (simp add: class_labels_def)
  have wf': "mat_wf n c (Z[k := (Z ! k)[j := x]])" for x
    using wf k by (intro mat_wf_update) simp_all
  have loss: "projr (softmax_loss (Z[k := (Z ! k)[j := x]]) T) =
      (term_of ((column Z j)[k := x]) j + (\<Sum>q\<in>{..<c} - {j}. term_of (column Z q) q)) / real c" for x
    using j k wf
    by (simp add: softmax_loss_eq [OF wf' labels n] sum.remove [of "{..<c}" j] term_of_def
        column_set_cell [of n c])
  have "((\<lambda>x. term_of ((column Z j)[k := x]) j) has_real_derivative
      P ! (ls ! j) ! j / (P ! (ls ! j) ! j + epsilon real_cxx) * D ! k ! j) (at (Z ! k ! j))"
    using neg_log_softmax_deriv [of k "column Z j" "ls ! j" "epsilon real_cxx"] wf k j lt [OF j]
    by (auto simp: term_of_def P_def D_def num_of_bool_def)
  then have "((\<lambda>x. projr (softmax_loss (Z[k := (Z ! k)[j := x]]) T)) has_real_derivative
      P ! (ls ! j) ! j / (P ! (ls ! j) ! j + epsilon real_cxx) * D ! k ! j / real c) (at (Z ! k ! j))"
    unfolding loss using j by (auto intro!: derivative_eq_intros)
  moreover have "Softmax_activate_m real_cxx Z = Inr P"
    using wf n by (simp add: P_def Softmax_activate_m_eq)
  moreover have "CCE_derivative_m real_cxx P T = Inr D"
    unfolding D_def by (rule CCE_derivative_m_eq) (simp_all add: P_def labels n)
  ultimately show ?thesis by blast
qed

lemma class_labels_example: "class_labels real_cxx 2 1 [[1]] [1]"
  by (simp add: class_labels_def real_to_int_def INT_MIN_def INT_MAX_def)

theorem softmax_loss_gradient_witness:
  "\<exists>P D. Softmax_activate_m real_cxx [[0], [0]] = Inr P \<and> CCE_derivative_m real_cxx P [[1]] = Inr D \<and>
    ((\<lambda>x. projr (softmax_loss [[x], [0]] [[1]])) has_real_derivative
      P ! 1 ! 0 / (P ! 1 ! 0 + epsilon real_cxx) * D ! 0 ! 0) (at 0)"
  using softmax_loss_gradient [OF _ class_labels_example, of "[[0], [0]]" 0 0] by simp

section \<open>The binary loss\<close>

text \<open>For a prediction strictly between 0 and 1, the number overload of the binary loss
  has the derivative \<open>(p - t) / (p (1 - p))\<close>; what the class returns is that derivative
  times \<open>q / (q + epsilon)\<close> with \<open>q = p (1 - p)\<close>, so it has the same sign and is never
  larger in size.\<close>

theorem binary_loss_derivative:
  assumes "0 < p" "p < 1"
  defines "q \<equiv> p * (1 - p)"
  shows "\<exists>d. ((\<lambda>x. SCE_calculateLoss real_cxx x t) has_real_derivative d) (at p) \<and>
    SCE_derivative real_cxx p t = d * (q / (q + epsilon real_cxx)) \<and>
    sgn (SCE_derivative real_cxx p t) = sgn d \<and> \<bar>SCE_derivative real_cxx p t\<bar> \<le> \<bar>d\<bar>"
proof -
  define d where "d = (p - t) / q"
  define r where "r = q / (q + epsilon real_cxx)"
  have q: "0 < q" using assms by (simp add: q_def)
  then have r: "0 < r" "r \<le> 1" by (simp_all add: r_def add_pos_pos)
  have "((\<lambda>x. SCE_calculateLoss real_cxx x t) has_real_derivative - (t / p - (1 - t) / (1 - p))) (at p)"
    unfolding SCE_calculateLoss_def using assms(1,2)
    by (auto intro!: derivative_eq_intros)
  also have "- (t / p - (1 - t) / (1 - p)) = d"
    using assms(1,2) by (simp add: d_def q_def field_simps)
  finally have deriv: "((\<lambda>x. SCE_calculateLoss real_cxx x t) has_real_derivative d) (at p)" .
  have "d * r = (p - t) / (q + epsilon real_cxx)"
    using q by (simp add: d_def r_def)
  then have code: "SCE_derivative real_cxx p t = d * r"
    by (simp add: SCE_derivative_def q_def)
  have "sgn (d * r) = sgn d" using r by (simp add: sgn_mult)
  moreover have "\<bar>d * r\<bar> \<le> \<bar>d\<bar>"
    using r mult_left_mono [of r 1 "\<bar>d\<bar>"] by (simp add: abs_mult)
  ultimately show ?thesis
    using deriv code unfolding r_def by (intro exI [of _ d]) auto
qed

theorem binary_loss_derivative_witness:
  "\<exists>d. ((\<lambda>x. SCE_calculateLoss real_cxx x 1) has_real_derivative d) (at (1 / 2)) \<and>
    \<bar>SCE_derivative real_cxx (1 / 2) 1\<bar> \<le> \<bar>d\<bar>"
  using binary_loss_derivative [of "1 / 2" 1] by auto

text \<open>The number overload of the categorical loss does not match its own derivative
  overload: with target 0 the loss is constant in the prediction, so its derivative is 0,
  while the class returns a positive number for every prediction between 0 and 1.\<close>

theorem categorical_number_overloads_disagree:
  assumes "0 < p" "p < 1"
  shows "((\<lambda>x. CCE_calculateLoss real_cxx x 0) has_real_derivative 0) (at p) \<and>
    0 < CCE_derivative real_cxx p 0"
  using assms by (simp add: CCE_calculateLoss_def CCE_derivative_def add_pos_pos)

theorem categorical_number_overloads_disagree_witness:
  "((\<lambda>x. CCE_calculateLoss real_cxx x 0) has_real_derivative 0) (at (1 / 2)) \<and>
    0 < CCE_derivative real_cxx (1 / 2) 0"
  by (rule categorical_number_overloads_disagree) simp_all

end
