(* ===== verification/Regularization.thy ===== *)
theory Regularization
  imports Cxx
begin

text \<open>
  \<open>Src/Essential Functions/Regularization.cpp\<close>: the L2 regulariser and dropout, both
  updating their matrix argument in place (here: returning it updated). Dropout draws one
  \<open>rand()\<close> value per cell, in row order.
\<close>

section \<open>\<open>L2Regularizer\<close>\<close>

definition L2_apply :: "'a cxx \<Rightarrow> 'a::{minus,times,inverse} mat \<Rightarrow> 'a \<Rightarrow> int \<Rightarrow> 'a mat" where
  "L2_apply C weights lambda m =
     (let coefficient = lambda / c_int C m
      in map (map (\<lambda>weight. weight - coefficient * weight)) weights)"

definition weightSquareSum :: "'a::{zero,plus,times} mat \<Rightarrow> 'a" where
  "weightSquareSum weights =
     foldl (\<lambda>sumSquare row. foldl (\<lambda>sumSquare weight. sumSquare + weight * weight) sumSquare row) 0 weights"

definition calculateLayerPenalty ::
  "'a cxx \<Rightarrow> 'a::{zero,plus,times,inverse} mat \<Rightarrow> 'a \<Rightarrow> int \<Rightarrow> 'a res" where
  "calculateLayerPenalty C weights lambda m =
     bind_res (mul_int 2 m) (\<lambda>m2. Inr (weightSquareSum weights * lambda / c_int C m2))"

section \<open>\<open>Dropout\<close>\<close>

definition dropout_gate :: "'a cxx \<Rightarrow> 'a::{zero,one,inverse,ord} \<Rightarrow> int \<Rightarrow> 'a" where
  "dropout_gate C keepProb r = num_of_bool (c_int C r / c_int C (c_rand_max C) < keepProb)"

text \<open>Returns the mask and the new \<open>A\<close>.\<close>

definition Dropout_applyForward ::
  "'a cxx \<Rightarrow> int source \<Rightarrow> 'a::{zero,one,times,inverse,ord} mat \<Rightarrow> 'a
   \<Rightarrow> ('a mat \<times> 'a mat \<times> int source) res" where
  "Dropout_applyForward C rnd A keepProb =
     bind_res (at_v A 0) (\<lambda>row0.
       let row = length A; col = length row0 in
       for_acc row (replicate row (replicate col 0), A, rnd) (\<lambda>s i.
         for_acc col s (\<lambda>(dropout, A, rnd) j.
           let gate = dropout_gate C keepProb (next_draw rnd) in
           bind_res (set_m dropout i j gate) (\<lambda>dropout'.
           bind_res (at_m A i j) (\<lambda>x.
           bind_res (set_m A i j (x * gate / keepProb)) (\<lambda>A'.
             Inr (dropout', A', skip_draws 1 rnd)))))))"

definition Dropout_applyBackward ::
  "'a::{times,inverse} mat \<Rightarrow> 'a mat \<Rightarrow> 'a \<Rightarrow> 'a mat res" where
  "Dropout_applyBackward dA dropout keepProb =
     bind_res (at_v dA 0) (\<lambda>row0.
       for_acc (length dA) dA (\<lambda>dA i.
         for_acc (length row0) dA (\<lambda>dA j.
           bind_res (at_m dA i j) (\<lambda>x. bind_res (at_m dropout i j) (\<lambda>g.
             set_m dA i j (x * g / keepProb))))))"

section \<open>Evaluation\<close>

lemma mat_wf_map: "mat_wf r c A \<Longrightarrow> mat_wf r c (map (map f) A)"
  by (rule mat_wfI) simp_all

lemma L2_apply_wf [wf_intros]: "mat_wf r c W \<Longrightarrow> mat_wf r c (L2_apply C W lambda m)"
  by (simp add: L2_apply_def Let_def mat_wf_map)

lemma L2_apply_nth:
  "mat_wf r c W \<Longrightarrow> i < r \<Longrightarrow> j < c \<Longrightarrow>
   L2_apply C W lambda m ! i ! j = W ! i ! j - lambda / c_int C m * W ! i ! j"
  by (simp add: L2_apply_def Let_def)

text \<open>The mask that the \<open>i * col + j\<close>-th draw gives cell \<open>(i, j)\<close>.\<close>

definition dropout_mask :: "'a cxx \<Rightarrow> int source \<Rightarrow> 'a::{zero,one,inverse,ord} \<Rightarrow> nat \<Rightarrow> nat \<Rightarrow> nat \<Rightarrow> 'a" where
  "dropout_mask C rnd keepProb col i j = dropout_gate C keepProb (rnd (i * col + j))"

lemma mat_wf_replicate: "mat_wf r c (replicate r (replicate c x))"
  by (rule mat_wfI) simp_all

lemma Dropout_applyForward_eq:
  assumes "mat_wf r c A" "0 < r"
  shows "Dropout_applyForward C rnd A keepProb =
    Inr (mat_of r c (dropout_mask C rnd keepProb c),
         mat_of r c (\<lambda>i j. A ! i ! j * dropout_mask C rnd keepProb c i j / keepProb),
         skip_draws (r * c) rnd)"
proof -
  let ?g = "dropout_mask C rnd keepProb c" and ?Z = "replicate r (replicate c 0)"
  let ?st = "\<lambda>i j. (partly r c ?g ?Z i j,
    partly r c (\<lambda>i j. A ! i ! j * ?g i j / keepProb) A i j, skip_draws (i * c + j) rnd)"
  have draw: "dropout_gate C keepProb (rnd (i * c + j)) = ?g i j" for i j
    by (simp add: dropout_mask_def)
  have next_row: "c + i * c = i * c + c" for i
    by simp
  have "for_acc r (?st 0 0) (\<lambda>s i. for_acc c s (\<lambda>s j. (\<lambda>(dropout, A, rnd).
           let gate = dropout_gate C keepProb (next_draw rnd) in
           bind_res (set_m dropout i j gate) (\<lambda>dropout'.
           bind_res (at_m A i j) (\<lambda>x.
           bind_res (set_m A i j (x * gate / keepProb)) (\<lambda>A'.
             Inr (dropout', A', skip_draws 1 rnd))))) s)) = Inr (?st r 0)"
    by (rule for_cells) (simp_all add: Let_def draw next_row partly_set partly_at partly_row)
  moreover from assms(1) have "?st 0 0 = (?Z, A, rnd)"
    by (simp add: partly_start mat_wf_replicate)
  ultimately show ?thesis
    using assms by (simp add: Dropout_applyForward_def partly_end split_def)
qed

lemma Dropout_applyBackward_eq:
  assumes "mat_wf r c A" "mat_wf r c M" "0 < r"
  shows "Dropout_applyBackward A M keepProb =
    Inr (mat_of r c (\<lambda>i j. A ! i ! j * M ! i ! j / keepProb))"
proof -
  let ?f = "\<lambda>i j. A ! i ! j * M ! i ! j / keepProb"
  have "for_acc r (partly r c ?f A 0 0) (\<lambda>s i. for_acc c s (\<lambda>s j.
      bind_res (at_m s i j) (\<lambda>x. bind_res (at_m M i j) (\<lambda>g. set_m s i j (x * g / keepProb))))) =
    Inr (partly r c ?f A r 0)"
    using assms(2) by (intro for_cells) (simp_all add: partly_at partly_row partly_set)
  with assms show ?thesis
    by (simp add: Dropout_applyBackward_def partly_start partly_end)
qed

end
