(* ===== verification/Initializer.thy ===== *)
theory Initializer
  imports Cxx
begin

text \<open>
  \<open>Src/Essential Functions/Initializer.cpp\<close>: a fresh \<open>outputSize\<close> by \<open>inputSize\<close> matrix
  whose weights are drawn row by row from a distribution with a scale that depends on the
  sizes. The generator is seeded from \<open>std::random_device\<close> at each call; the model hands
  every call the next draws of one source.
\<close>

definition fill_weights ::
  "('d \<Rightarrow> 'a) \<Rightarrow> int \<Rightarrow> int \<Rightarrow> 'd source \<Rightarrow> 'a::zero \<Rightarrow> ('a mat \<times> 'd source) res" where
  "fill_weights dis outputSize inputSize draws z =
     bind_res (new_vec inputSize z) (\<lambda>row.
     bind_res (new_vec outputSize row) (\<lambda>weights.
       Inr (mat_of (length weights) (length row) (\<lambda>i j. dis (draws (i * length row + j))),
            skip_draws (length weights * length row) draws)))"

definition Initializer_he ::
  "'a cxx \<Rightarrow> 'a dist \<Rightarrow> nat source \<Rightarrow> int \<Rightarrow> int \<Rightarrow> ('a::{zero,inverse} mat \<times> nat source) res" where
  "Initializer_he C D draws inputSize outputSize =
     (let stddev = c_sqrt C (c_lit C 2 / c_int C inputSize)
      in fill_weights (normal_draw D 0 stddev) outputSize inputSize draws 0)"

definition Initializer_xavier ::
  "'a cxx \<Rightarrow> 'a dist \<Rightarrow> nat source \<Rightarrow> int \<Rightarrow> int
   \<Rightarrow> ('a::{zero,uminus,inverse} mat \<times> nat source) res" where
  "Initializer_xavier C D draws inputSize outputSize =
     bind_res (add_int inputSize outputSize) (\<lambda>total.
       let limit = c_sqrt C (c_lit C 6 / c_int C total)
       in fill_weights (uniform_draw D (- limit) limit) outputSize inputSize draws 0)"

definition Initializer_xavierUniform ::
  "'a cxx \<Rightarrow> 'a dist \<Rightarrow> nat source \<Rightarrow> int \<Rightarrow> int
   \<Rightarrow> ('a::{zero,uminus,inverse} mat \<times> nat source) res" where
  "Initializer_xavierUniform C D draws inputSize outputSize =
     (let limit = c_sqrt C (c_lit C 3 / c_int C inputSize)
      in fill_weights (uniform_draw D (- limit) limit) outputSize inputSize draws 0)"

definition Initializer_initialize ::
  "'a cxx \<Rightarrow> 'a dist \<Rightarrow> nat source \<Rightarrow> string \<Rightarrow> int \<Rightarrow> int
   \<Rightarrow> ('a::{zero,uminus,inverse} mat \<times> nat source) res" where
  "Initializer_initialize C D draws methodName inputSize outputSize =
     (if methodName = ''he'' then Initializer_he C D draws inputSize outputSize
      else if methodName = ''xavier'' then Initializer_xavier C D draws inputSize outputSize
      else if methodName = ''xavier uniform''
      then Initializer_xavierUniform C D draws inputSize outputSize
      else Inl (Invalid_argument (''Unknown initialization method: '' @ methodName)))"

lemma fill_weights_eq:
  "0 \<le> r \<Longrightarrow> 0 \<le> c \<Longrightarrow> fill_weights dis r c draws z =
   Inr (mat_of (nat r) (nat c) (\<lambda>i j. dis (draws (i * nat c + j))), skip_draws (nat r * nat c) draws)"
  by (simp add: fill_weights_def)

lemma initialize_shape:
  assumes "methodName = ''he'' \<or> methodName = ''xavier''"
    and "0 \<le> r" "0 \<le> c" "c + r \<le> INT_MAX"
  shows "\<exists>W draws'. Initializer_initialize C D draws methodName c r = Inr (W, draws') \<and>
    mat_wf (nat r) (nat c) W"
  using assms
  by (auto simp: Initializer_initialize_def Initializer_he_def Initializer_xavier_def
      add_int_def INT_MIN_def fill_weights_eq Let_def)

lemma initialize_result_shape:
  "Initializer_initialize C D draws methodName c r = Inr (W, draws') \<Longrightarrow> mat_wf (nat r) (nat c) W"
  by (auto simp: Initializer_initialize_def Initializer_he_def Initializer_xavier_def
      Initializer_xavierUniform_def fill_weights_def new_vec_def bind_res_eq_Inr Let_def
      split: if_splits)

text \<open>
  With a uniform distribution that keeps its contract, every Xavier weight lies within
  the limit.
\<close>

context uniform_source
begin

lemma xavier_bounded:
  assumes "Initializer_xavier real_cxx D draws c r = Inr (W, draws')"
    and "uniform_draw D = draw" "0 \<le> c" "0 \<le> r" "i < nat r" "j < nat c"
  shows "\<bar>W ! i ! j\<bar> \<le> sqrt (6 / real_of_int (c + r))"
proof -
  have "0 < sqrt (6 / real_of_int (c + r))"
    using assms(3-6) by simp
  then show ?thesis
    using assms draw_abs
    by (auto simp: Initializer_xavier_def bind_res_eq_Inr Let_def fill_weights_eq add_int_def split: if_splits)
qed

end

end
