(* ===== verification/DenseLayer.thy ===== *)
theory DenseLayer
  imports ActivationFacts Regularization Initializer
begin

text \<open>
  \<open>Src/Layer Types/DenseLayer.cpp\<close>: the layer's state as a record with one field per
  member, its constructor, the forward and backward passes (which return the layer
  updated), the two optimised passes \<open>forwardOpt\<close> and \<open>predict\<close>, and the accessors. The
  forward pass consumes \<open>rand()\<close> values when dropout is on.
\<close>

record 'a dense =
  dl_input_size :: int
  dl_output_size :: int
  dl_learningRate :: 'a
  dl_lambda :: 'a
  dl_keepProb :: 'a
  dl_dropoutMask :: "'a mat"
  dl_w :: "'a mat"
  dl_b :: "'a vec"
  dl_dw :: "'a mat"
  dl_db :: "'a vec"
  dl_z :: "'a mat"
  dl_a :: "'a mat"
  dl_aPrev :: "'a mat"
  dl_activationFunction :: activation
  dl_activationFunc :: string

section \<open>Construction\<close>

definition initParameters ::
  "'a cxx \<Rightarrow> 'a dist \<Rightarrow> nat source \<Rightarrow> string \<Rightarrow> 'a dense
   \<Rightarrow> ('a::{zero,uminus,inverse} dense \<times> nat source) res" where
  "initParameters C D draws initType L =
     bind_res (Initializer_initialize C D draws initType (dl_input_size L) (dl_output_size L))
       (\<lambda>(w, draws').
     bind_res (resize_vec (dl_output_size L) 0 (dl_b L)) (\<lambda>b.
       Inr (L\<lparr>dl_w := w, dl_b := b\<rparr>, draws')))"

text \<open>
  The override without an argument, which no constructor calls: the weights become
  \<open>rand() / RAND_MAX\<close>, drawn in row order.
\<close>

definition initParameters_rand ::
  "'a cxx \<Rightarrow> int source \<Rightarrow> 'a::{zero,inverse} dense \<Rightarrow> ('a dense \<times> int source) res" where
  "initParameters_rand C rnd L =
     bind_res (new_vec (dl_input_size L) 0) (\<lambda>row.
     bind_res (resize_vec (dl_output_size L) row (dl_w L)) (\<lambda>w.
     bind_res (for_acc (nat (dl_output_size L)) (w, rnd) (\<lambda>s i.
         for_acc (nat (dl_input_size L)) s (\<lambda>(w, rnd) j.
           bind_res (set_m w i j (c_int C (next_draw rnd) / c_int C (c_rand_max C))) (\<lambda>w'.
             Inr (w', skip_draws 1 rnd)))))
       (\<lambda>(w, rnd).
     bind_res (resize_vec (dl_output_size L) 0 (dl_b L)) (\<lambda>b.
       Inr (L\<lparr>dl_w := w, dl_b := b\<rparr>, rnd)))))"

definition initDerivatives :: "'a::zero dense \<Rightarrow> 'a dense res" where
  "initDerivatives L =
     bind_res (new_vec (dl_input_size L) 0) (\<lambda>row.
     bind_res (resize_vec (dl_output_size L) row (dl_dw L)) (\<lambda>dw.
     bind_res (resize_vec (dl_output_size L) 0 (dl_db L)) (\<lambda>db.
       Inr (L\<lparr>dl_dw := dw, dl_db := db\<rparr>))))"

definition new_DenseLayer ::
  "'a cxx \<Rightarrow> 'a dist \<Rightarrow> nat source \<Rightarrow> int \<Rightarrow> int \<Rightarrow> 'a \<Rightarrow> string \<Rightarrow> 'a \<Rightarrow> 'a \<Rightarrow> string
   \<Rightarrow> ('a::{zero,uminus,inverse} dense \<times> nat source) res" where
  "new_DenseLayer C D draws input_size output_size learningRate activationFunc keepProb lambda
     weightInitializeType =
     (let L = \<lparr> dl_input_size = input_size, dl_output_size = output_size,
          dl_learningRate = learningRate, dl_lambda = lambda, dl_keepProb = keepProb,
          dl_dropoutMask = [], dl_w = [], dl_b = [], dl_dw = [], dl_db = [],
          dl_z = [], dl_a = [], dl_aPrev = [],
          dl_activationFunction = Sigmoid, dl_activationFunc = '''' \<rparr>;
        initType = (if weightInitializeType = ''''
          then (if activationFunc = ''relu'' then ''he'' else ''xavier'')
          else weightInitializeType)
      in bind_res (initParameters C D draws initType L) (\<lambda>(L, draws').
         bind_res (initDerivatives L) (\<lambda>L.
         bind_res (getActivationClass activationFunc) (\<lambda>act.
           Inr (L\<lparr>dl_activationFunc := activationFunc, dl_activationFunction := act\<rparr>, draws')))))"

section \<open>The passes\<close>

definition dense_forward ::
  "'a cxx \<Rightarrow> int source \<Rightarrow> 'a::{zero,one,plus,minus,uminus,times,inverse,ord} dense \<Rightarrow> 'a mat
   \<Rightarrow> ('a dense \<times> 'a mat \<times> int source) res" where
  "dense_forward C rnd L input =
     bind_res (at_v input 0) (\<lambda>row0.
     bind_res (dotProduct_mm (dl_w L) input) (\<lambda>wx.
     bind_res (elementWiseSum_mv wx (dl_b L)) (\<lambda>z.
     bind_res (activate_m C (dl_activationFunction L) z) (\<lambda>a.
     bind_res (if dl_keepProb L < 1 then Dropout_applyForward C rnd a (dl_keepProb L)
               else Inr (dl_dropoutMask L, a, rnd)) (\<lambda>(mask, a, rnd').
       Inr (L\<lparr>dl_z := z, dl_a := a, dl_dropoutMask := mask, dl_aPrev := input\<rparr>, a, rnd'))))))"

definition dense_forwardOpt ::
  "'a cxx \<Rightarrow> 'a::{zero,one,plus,minus,uminus,times,inverse,ord} dense \<Rightarrow> 'a mat
   \<Rightarrow> ('a dense \<times> 'a mat) res" where
  "dense_forwardOpt C L input =
     bind_res (at_v input 0) (\<lambda>row0.
     bind_res (new_vec (dl_output_size L) (replicate (length row0) (0::'a))) (\<lambda>_.
     bind_res (for_mat (nat (dl_output_size L)) (length row0) (\<lambda>i j.
         bind_res (for_acc (nat (dl_input_size L)) 0 (\<lambda>val k.
             bind_res (at_m (dl_w L) i k) (\<lambda>x. bind_res (at_m input k j) (\<lambda>y. Inr (val + x * y)))))
           (\<lambda>val. bind_res (at_v (dl_b L) i) (\<lambda>bi.
             Inr (val + bi, activate C (dl_activationFunction L) (val + bi))))))
       (\<lambda>za. let z = map (map fst) za; a = map (map snd) za
             in Inr (L\<lparr>dl_z := z, dl_a := a, dl_aPrev := input\<rparr>, a))))"

definition dense_predict ::
  "'a cxx \<Rightarrow> 'a::{zero,one,plus,minus,uminus,times,inverse,ord} dense \<Rightarrow> 'a mat \<Rightarrow> 'a mat res" where
  "dense_predict C L input =
     bind_res (at_v input 0) (\<lambda>row0.
     bind_res (new_vec (dl_output_size L) (replicate (length row0) (0::'a))) (\<lambda>_.
       for_mat (nat (dl_output_size L)) (length row0) (\<lambda>i j.
         bind_res (for_acc (nat (dl_input_size L)) 0 (\<lambda>result k.
             bind_res (at_m (dl_w L) i k) (\<lambda>x. bind_res (at_m input k j) (\<lambda>y. Inr (result + x * y)))))
           (\<lambda>result. bind_res (at_v (dl_b L) i) (\<lambda>bi.
             Inr (activate C (dl_activationFunction L) (result + bi)))))))"

text \<open>
  \<open>dw\<close> is computed before the L2 step and \<open>daPrev\<close> after it, from the weights the L2 step
  leaves; the update subtracts from the same weights. The final \<open>initDerivatives\<close> resizes
  \<open>dw\<close> and \<open>db\<close> to the size they have.
\<close>

definition dense_backward ::
  "'a cxx \<Rightarrow> 'a::{zero,one,plus,minus,uminus,times,inverse,ord} dense \<Rightarrow> 'a mat
   \<Rightarrow> ('a dense \<times> 'a mat) res" where
  "dense_backward C L da =
     bind_res (at_v da 0) (\<lambda>row0.
     let m = int (length row0) in
     bind_res (if dl_keepProb L < 1 then Dropout_applyBackward da (dl_dropoutMask L) (dl_keepProb L)
               else Inr da) (\<lambda>da.
     bind_res (if dl_activationFunc L = ''softmax'' then Inr da
               else bind_res (derivative_m C (dl_activationFunction L) (dl_a L)) (\<lambda>daz.
                 elementWiseProduct_mm daz da)) (\<lambda>dz.
     bind_res (transpose_m (dl_aPrev L)) (\<lambda>aPrevT.
     bind_res (dotProduct_mm dz aPrevT) (\<lambda>dz_aPrevT.
     bind_res (elementWiseDivide_mn dz_aPrevT (c_int C m)) (\<lambda>dw.
     let w = (if num_true (dl_lambda L) then L2_apply C (dl_w L) (dl_lambda L) m else dl_w L) in
     bind_res (dotProduct_mv dz (replicate (nat m) 1)) (\<lambda>dz_sum.
     bind_res (elementWiseDivide_vn dz_sum (c_int C m)) (\<lambda>db.
     bind_res (transpose_m w) (\<lambda>wT.
     bind_res (dotProduct_mm wT dz) (\<lambda>daPrev.
     bind_res (elementWiseProduct_mn dw (dl_learningRate L)) (\<lambda>dw_lr.
     bind_res (elementWiseSubtract_mm w dw_lr) (\<lambda>w'.
     bind_res (elementWiseProduct_vn db (dl_learningRate L)) (\<lambda>db_lr.
     bind_res (elementWiseSubtract_vv (dl_b L) db_lr) (\<lambda>b'.
     bind_res (initDerivatives (L\<lparr>dl_dw := dw, dl_db := db, dl_w := w', dl_b := b'\<rparr>)) (\<lambda>L'.
       Inr (L', daPrev))))))))))))))))"

section \<open>Accessors\<close>

definition getWeights :: "'a dense \<Rightarrow> 'a mat" where
  "getWeights L = dl_w L"

definition getBiases :: "'a dense \<Rightarrow> 'a vec" where
  "getBiases L = dl_b L"

definition setWeights :: "'a mat \<Rightarrow> 'a dense \<Rightarrow> 'a dense" where
  "setWeights weights L = L\<lparr>dl_w := weights\<rparr>"

definition getLambda :: "'a dense \<Rightarrow> 'a" where
  "getLambda L = dl_lambda L"

end
