(* ===== verification/DenseFacts.thy ===== *)
theory DenseFacts
  imports DenseLayer
begin

text \<open>
  Evaluation of the passes of a well-formed layer, the contract they keep (the interface
  \<open>layer_contract\<close>, which the network relies on), and the equivalence of the optimised
  passes with the plain one. Everything here holds for any number type, so the
  equivalences are equalities of floating-point results.
\<close>

section \<open>Well-formed layers\<close>

definition layer_ok :: "nat \<Rightarrow> nat \<Rightarrow> 'a dense \<Rightarrow> bool" where
  "layer_ok n r L \<longleftrightarrow> 0 < n \<and> 0 < r \<and> dl_input_size L = int n \<and> dl_output_size L = int r \<and>
     mat_wf r n (dl_w L) \<and> length (dl_b L) = r \<and> mat_wf r n (dl_dw L) \<and> length (dl_db L) = r \<and>
     (dl_activationFunc L = ''softmax'' \<longleftrightarrow> dl_activationFunction L = Softmax)"

text \<open>What a forward pass on a batch of \<open>c\<close> samples leaves for the backward pass.\<close>

definition layer_ready :: "nat \<Rightarrow> nat \<Rightarrow> nat \<Rightarrow> 'a::{one,ord} dense \<Rightarrow> bool" where
  "layer_ready n r c L \<longleftrightarrow> mat_wf r c (dl_a L) \<and> mat_wf n c (dl_aPrev L) \<and>
     (dl_keepProb L < 1 \<longrightarrow> mat_wf r c (dl_dropoutMask L))"

text \<open>The weighted input \<open>w x + b\<close>, with the additions in the order of the loops.\<close>

definition weighted :: "'a::{zero,plus,times} dense \<Rightarrow> 'a mat \<Rightarrow> nat \<Rightarrow> nat \<Rightarrow> 'a" where
  "weighted L X i j = loop_sum (length X) (\<lambda>k. dl_w L ! i ! k * X ! k ! j) + dl_b L ! i"

section \<open>Evaluation of the passes\<close>

lemma dense_forward_eq:
  assumes "layer_ok n r L" "mat_wf n c X"
  shows "dense_forward C rnd L X =
    bind_res (activate_m C (dl_activationFunction L) (mat_of r c (weighted L X))) (\<lambda>a.
    bind_res (if dl_keepProb L < 1 then Dropout_applyForward C rnd a (dl_keepProb L)
              else Inr (dl_dropoutMask L, a, rnd)) (\<lambda>(mask, a, rnd').
      Inr (L\<lparr>dl_z := mat_of r c (weighted L X), dl_a := a, dl_dropoutMask := mask, dl_aPrev := X\<rparr>,
           a, rnd')))"
proof -
  have pos: "0 < n" "0 < r" and w: "mat_wf r n (dl_w L)" and b: "length (dl_b L) = r"
    using assms(1) by (simp_all add: layer_ok_def)
  have wx: "dotProduct_mm (dl_w L) X =
      Inr (mat_of r c (\<lambda>i j. loop_sum n (\<lambda>k. dl_w L ! i ! k * X ! k ! j)))"
    by (rule dotProduct_mm_eq [OF w assms(2) pos(2) pos(1)])
  have z: "elementWiseSum_mv (mat_of r c (\<lambda>i j. loop_sum n (\<lambda>k. dl_w L ! i ! k * X ! k ! j))) (dl_b L) =
      Inr (mat_of r c (weighted L X))"
    using b pos assms(2) by (subst sum.mv_eq [of r c]) (simp_all add: weighted_def cong: mat_of_cong)
  have "at_v X 0 = Inr (X ! 0)" using assms(2) pos by simp
  then show ?thesis by (simp add: dense_forward_def wx z)
qed

lemma dense_forward_plain:
  assumes "layer_ok n r L" "mat_wf n c X" "\<not> dl_keepProb L < 1"
    and "activate_m C (dl_activationFunction L) (mat_of r c (weighted L X)) = Inr Y"
  shows "dense_forward C rnd L X =
    Inr (L\<lparr>dl_z := mat_of r c (weighted L X), dl_a := Y, dl_aPrev := X\<rparr>, Y, rnd)"
  using assms(3,4) by (simp add: dense_forward_eq [OF assms(1,2)])

lemma dense_forward_defined:
  assumes "layer_ok n r L" "mat_wf n c X"
  shows "\<exists>L' Y rnd'. dense_forward C rnd L X = Inr (L', Y, rnd') \<and>
    mat_wf r c Y \<and> layer_ok n r L' \<and> layer_ready n r c L'"
proof -
  have r: "0 < r" using assms(1) by (simp add: layer_ok_def)
  obtain Y where Y: "activate_m C (dl_activationFunction L) (mat_of r c (weighted L X)) = Inr Y"
    "mat_wf r c Y"
    using act_shape.shape [OF mat_of_wf r] by blast
  show ?thesis
  proof (cases "dl_keepProb L < 1")
    case True
    with Y r assms(2) show ?thesis
      using assms(1) by (simp add: dense_forward_eq [OF assms] Dropout_applyForward_eq [of r c Y])
        (simp add: layer_ok_def layer_ready_def)
  next
    case False
    with Y assms(2) show ?thesis
      using assms(1) by (simp add: dense_forward_plain [OF assms]) (simp add: layer_ok_def layer_ready_def)
  qed
qed

lemma dense_cells_eq:
  assumes "layer_ok n r L" "mat_wf n c X" "i < r" "j < c"
  shows "for_acc n 0 (\<lambda>acc k. bind_res (at_m (dl_w L) i k) (\<lambda>x. bind_res (at_m X k j) (\<lambda>y.
      Inr (acc + x * y)))) = Inr (loop_sum n (\<lambda>k. dl_w L ! i ! k * X ! k ! j))"
    and "at_v (dl_b L) i = Inr (dl_b L ! i)"
    and "loop_sum n (\<lambda>k. dl_w L ! i ! k * X ! k ! j) + dl_b L ! i = weighted L X i j"
proof -
  have "mat_wf r n (dl_w L)" "length (dl_b L) = r"
    using assms(1) by (simp_all add: layer_ok_def)
  with assms show "for_acc n 0 (\<lambda>acc k. bind_res (at_m (dl_w L) i k) (\<lambda>x. bind_res (at_m X k j) (\<lambda>y.
      Inr (acc + x * y)))) = Inr (loop_sum n (\<lambda>k. dl_w L ! i ! k * X ! k ! j))"
    and "at_v (dl_b L) i = Inr (dl_b L ! i)"
    and "loop_sum n (\<lambda>k. dl_w L ! i ! k * X ! k ! j) + dl_b L ! i = weighted L X i j"
    by (simp_all add: for_acc_sum weighted_def)
qed

lemma dense_predict_eq:
  assumes "layer_ok n r L" "mat_wf n c X"
  shows "dense_predict C L X =
    Inr (mat_of r c (\<lambda>i j. activate C (dl_activationFunction L) (weighted L X i j)))"
proof -
  have sz: "dl_input_size L = int n" "dl_output_size L = int r" and n: "0 < n"
    using assms(1) by (simp_all add: layer_ok_def)
  have "for_mat r c (\<lambda>i j. bind_res (for_acc n 0 (\<lambda>acc k.
      bind_res (at_m (dl_w L) i k) (\<lambda>x. bind_res (at_m X k j) (\<lambda>y. Inr (acc + x * y)))))
      (\<lambda>v. bind_res (at_v (dl_b L) i) (\<lambda>bi. Inr (activate C (dl_activationFunction L) (v + bi))))) =
    Inr (mat_of r c (\<lambda>i j. activate C (dl_activationFunction L) (weighted L X i j)))"
    by (rule for_mat_pure) (simp add: dense_cells_eq [OF assms])
  with n assms(2) show ?thesis by (simp add: dense_predict_def sz)
qed

lemma dense_forwardOpt_eq:
  assumes "layer_ok n r L" "mat_wf n c X"
  shows "dense_forwardOpt C L X =
    (let Y = mat_of r c (\<lambda>i j. activate C (dl_activationFunction L) (weighted L X i j))
     in Inr (L\<lparr>dl_z := mat_of r c (weighted L X), dl_a := Y, dl_aPrev := X\<rparr>, Y))"
proof -
  have sz: "dl_input_size L = int n" "dl_output_size L = int r" and n: "0 < n"
    using assms(1) by (simp_all add: layer_ok_def)
  have "for_mat r c (\<lambda>i j. bind_res (for_acc n 0 (\<lambda>acc k.
      bind_res (at_m (dl_w L) i k) (\<lambda>x. bind_res (at_m X k j) (\<lambda>y. Inr (acc + x * y)))))
      (\<lambda>v. bind_res (at_v (dl_b L) i) (\<lambda>bi.
        Inr (v + bi, activate C (dl_activationFunction L) (v + bi))))) =
    Inr (mat_of r c (\<lambda>i j. (weighted L X i j, activate C (dl_activationFunction L) (weighted L X i j))))"
    by (rule for_mat_pure) (simp add: dense_cells_eq [OF assms])
  with n assms(2) show ?thesis
    by (simp add: dense_forwardOpt_def sz Let_def) (simp add: mat_of_def comp_def)
qed

subsection \<open>The backward pass\<close>

definition back_da :: "'a::{one,times,inverse,ord} dense \<Rightarrow> 'a mat \<Rightarrow> nat \<Rightarrow> nat \<Rightarrow> 'a" where
  "back_da L da i j =
     (if dl_keepProb L < 1 then da ! i ! j * dl_dropoutMask L ! i ! j / dl_keepProb L else da ! i ! j)"

definition back_dz ::
  "'a cxx \<Rightarrow> 'a::{zero,one,plus,minus,uminus,times,inverse,ord} dense \<Rightarrow> 'a mat \<Rightarrow> nat \<Rightarrow> nat \<Rightarrow> 'a" where
  "back_dz C L da i j =
     (if dl_activationFunction L = Softmax then back_da L da i j
      else derivative C (dl_activationFunction L) (dl_a L ! i ! j) * back_da L da i j)"

definition back_w :: "'a cxx \<Rightarrow> 'a::{zero,minus,times,inverse,ord} dense \<Rightarrow> nat \<Rightarrow> nat \<Rightarrow> nat \<Rightarrow> 'a" where
  "back_w C L c i k =
     (if num_true (dl_lambda L)
      then dl_w L ! i ! k - dl_lambda L / c_int C (int c) * dl_w L ! i ! k
      else dl_w L ! i ! k)"

definition back_dw ::
  "'a cxx \<Rightarrow> 'a::{zero,one,plus,minus,uminus,times,inverse,ord} dense \<Rightarrow> nat \<Rightarrow> 'a mat \<Rightarrow> nat \<Rightarrow> nat \<Rightarrow> 'a" where
  "back_dw C L c da i k =
     loop_sum c (\<lambda>j. back_dz C L da i j * dl_aPrev L ! k ! j) / c_int C (int c)"

definition back_db ::
  "'a cxx \<Rightarrow> 'a::{zero,one,plus,minus,uminus,times,inverse,ord} dense \<Rightarrow> nat \<Rightarrow> 'a mat \<Rightarrow> nat \<Rightarrow> 'a" where
  "back_db C L c da i = loop_sum c (\<lambda>j. back_dz C L da i j * 1) / c_int C (int c)"

definition back_daPrev ::
  "'a cxx \<Rightarrow> 'a::{zero,one,plus,minus,uminus,times,inverse,ord} dense \<Rightarrow> nat \<Rightarrow> nat \<Rightarrow> 'a mat \<Rightarrow> nat \<Rightarrow> nat \<Rightarrow> 'a" where
  "back_daPrev C L r c da k j = loop_sum r (\<lambda>i. back_w C L c i k * back_dz C L da i j)"

lemma initDerivatives_same:
  assumes "layer_ok n r L"
  shows "initDerivatives L = Inr L"
proof -
  have "mat_wf r n (dl_dw L)" using assms by (simp add: layer_ok_def)
  then have "length (dl_dw L) = r" by simp
  with assms show ?thesis by (simp add: layer_ok_def initDerivatives_def)
qed

lemma dense_backward_eq:
  fixes L :: "'a::{zero,one,plus,minus,uminus,times,inverse,ord} dense"
  assumes ok: "layer_ok n r L" and ready: "layer_ready n r c L" and da: "mat_wf r c da" and c: "0 < c"
  defines "lr \<equiv> dl_learningRate L"
  shows "dense_backward C L da =
    Inr (L\<lparr>dl_dw := mat_of r n (back_dw C L c da),
           dl_db := map (back_db C L c da) [0..<r],
           dl_w := mat_of r n (\<lambda>i k. back_w C L c i k - back_dw C L c da i k * lr),
           dl_b := map (\<lambda>i. dl_b L ! i - back_db C L c da i * lr) [0..<r]\<rparr>,
         mat_of n c (back_daPrev C L r c da))"
proof -
  let ?da = "mat_of r c (back_da L da)" and ?dz = "mat_of r c (back_dz C L da)"
  let ?w = "mat_of r n (back_w C L c)" and ?dw = "mat_of r n (back_dw C L c da)"
  have n: "0 < n" and r: "0 < r" and w: "mat_wf r n (dl_w L)" and b: "length (dl_b L) = r"
    and soft: "dl_activationFunc L = ''softmax'' \<longleftrightarrow> dl_activationFunction L = Softmax"
    using ok by (simp_all add: layer_ok_def)
  have a: "mat_wf r c (dl_a L)" and aPrev: "mat_wf n c (dl_aPrev L)"
    and mask: "dl_keepProb L < 1 \<Longrightarrow> mat_wf r c (dl_dropoutMask L)"
    using ready by (simp_all add: layer_ready_def)
  have row0: "at_v da 0 = Inr (da ! 0)" "length (da ! 0) = c"
    using da r by simp_all
  have s_da: "(if dl_keepProb L < 1 then Dropout_applyBackward da (dl_dropoutMask L) (dl_keepProb L)
      else Inr da) = Inr ?da"
    using da mask r
    by (auto simp: Dropout_applyBackward_eq back_da_def mat_of_self cong: mat_of_cong)
  have s_dz: "(if dl_activationFunc L = ''softmax'' then Inr ?da
      else bind_res (derivative_m C (dl_activationFunction L) (dl_a L)) (\<lambda>daz.
        elementWiseProduct_mm daz ?da)) = Inr ?dz"
  proof (cases "dl_activationFunction L = Softmax")
    case True
    with soft show ?thesis by (simp add: back_dz_def cong: mat_of_cong)
  next
    case False
    with soft a r show ?thesis
      by (simp add: derivative_m_pointwise product.mm_eq [of r c] back_dz_def cong: mat_of_cong)
  qed
  have s_aT: "transpose_m (dl_aPrev L) = Inr (mat_of c n (\<lambda>j k. dl_aPrev L ! k ! j))"
    using aPrev n by (rule transpose_m_eq)
  have s_dot: "dotProduct_mm ?dz (mat_of c n (\<lambda>j k. dl_aPrev L ! k ! j)) =
      Inr (mat_of r n (\<lambda>i k. loop_sum c (\<lambda>j. back_dz C L da i j * dl_aPrev L ! k ! j)))"
    using r c by (subst dotProduct_mm_eq [of r c _ n]) (simp_all cong: mat_of_cong loop_sum_cong)
  have s_dw: "elementWiseDivide_mn (mat_of r n (\<lambda>i k. loop_sum c (\<lambda>j. back_dz C L da i j *
      dl_aPrev L ! k ! j))) (c_int C (int c)) = Inr ?dw"
    using r by (subst divide.mn_eq [of r n]) (simp_all add: back_dw_def cong: mat_of_cong)
  have s_w: "(if num_true (dl_lambda L) then L2_apply C (dl_w L) (dl_lambda L) (int (length (da ! 0)))
      else dl_w L) = ?w"
    using w row0(2) by (intro mat_eqI [of r n]) (simp_all add: L2_apply_wf L2_apply_nth back_w_def)
  have s_sum: "dotProduct_mv ?dz (replicate c 1) = Inr (map (\<lambda>i. loop_sum c (\<lambda>j. back_dz C L da i j * 1)) [0..<r])"
    using r by (subst dotProduct_mv_eq [of r c]) (simp_all cong: loop_sum_cong)
  have s_db: "elementWiseDivide_vn (map (\<lambda>i. loop_sum c (\<lambda>j. back_dz C L da i j * 1)) [0..<r])
      (c_int C (int c)) = Inr (map (back_db C L c da) [0..<r])"
    by (simp add: divide.vn_eq back_db_def)
  have s_wT: "transpose_m ?w = Inr (mat_of n r (\<lambda>k i. back_w C L c i k))"
    using r by (subst transpose_m_eq [of r n]) (simp_all cong: mat_of_cong)
  have s_prev: "dotProduct_mm (mat_of n r (\<lambda>k i. back_w C L c i k)) ?dz =
      Inr (mat_of n c (back_daPrev C L r c da))"
    using n r by (subst dotProduct_mm_eq [of n r _ c])
      (simp_all add: back_daPrev_def cong: mat_of_cong loop_sum_cong)
  have s_wl: "elementWiseProduct_mn ?dw lr = Inr (mat_of r n (\<lambda>i k. back_dw C L c da i k * lr))"
    using r by (subst product.mn_eq [of r n]) (simp_all cong: mat_of_cong)
  have s_w': "elementWiseSubtract_mm ?w (mat_of r n (\<lambda>i k. back_dw C L c da i k * lr)) =
      Inr (mat_of r n (\<lambda>i k. back_w C L c i k - back_dw C L c da i k * lr))"
    using r by (subst subtract.mm_eq [of r n]) (simp_all cong: mat_of_cong)
  have s_bl: "elementWiseProduct_vn (map (back_db C L c da) [0..<r]) lr =
      Inr (map (\<lambda>i. back_db C L c da i * lr) [0..<r])"
    by (simp add: product.vn_eq)
  have s_b': "elementWiseSubtract_vv (dl_b L) (map (\<lambda>i. back_db C L c da i * lr) [0..<r]) =
      Inr (map (\<lambda>i. dl_b L ! i - back_db C L c da i * lr) [0..<r])"
    using b by (subst subtract.vv_eq [of _ r]) simp_all
  let ?L = "L\<lparr>dl_dw := ?dw, dl_db := map (back_db C L c da) [0..<r],
    dl_w := mat_of r n (\<lambda>i k. back_w C L c i k - back_dw C L c da i k * lr),
    dl_b := map (\<lambda>i. dl_b L ! i - back_db C L c da i * lr) [0..<r]\<rparr>"
  have "layer_ok n r ?L" using ok by (simp add: layer_ok_def)
  then have s_init: "initDerivatives ?L = Inr ?L" by (rule initDerivatives_same)
  show ?thesis
    unfolding dense_backward_def lr_def [symmetric]
    by (simp add: Let_def row0 s_da s_dz s_aT s_dot s_dw s_w s_sum s_db s_wT s_prev s_wl s_w' s_bl s_b'
        s_init split del: if_split)
qed

end
