(* ===== verification/LayerFacts.thy ===== *)
theory LayerFacts
  imports DenseFacts
begin

text \<open>
  The interface between a layer and the network (\<open>layer_contract\<close>), its interpretation on
  the dense layer, and the layer's properties: the optimised passes against the plain
  pass, the shape of the state the backward pass leaves, and the L2 step.
\<close>

section \<open>The contract of \<open>Layer\<close>\<close>

text \<open>
  \<open>ok n r l\<close>: the layer takes \<open>n\<close> rows and gives \<open>r\<close>; \<open>ready n r c l\<close>: its last forward
  pass had \<open>c\<close> samples. The network calls the passes through \<open>Layer*\<close> and relies on
  nothing else.
\<close>

locale layer_contract =
  fixes ok :: "nat \<Rightarrow> nat \<Rightarrow> 'l \<Rightarrow> bool"
    and ready :: "nat \<Rightarrow> nat \<Rightarrow> nat \<Rightarrow> 'l \<Rightarrow> bool"
    and fwd :: "'s \<Rightarrow> 'l \<Rightarrow> 'a mat \<Rightarrow> ('l \<times> 'a mat \<times> 's) res"
    and bwd :: "'l \<Rightarrow> 'a mat \<Rightarrow> ('l \<times> 'a mat) res"
    and prd :: "'l \<Rightarrow> 'a mat \<Rightarrow> 'a mat res"
  assumes dims: "ok n r l \<Longrightarrow> 0 < n \<and> 0 < r"
    and fwd_ok: "ok n r l \<Longrightarrow> mat_wf n c X \<Longrightarrow>
      \<exists>l' Y s'. fwd s l X = Inr (l', Y, s') \<and> mat_wf r c Y \<and> ok n r l' \<and> ready n r c l'"
    and bwd_ok: "ok n r l \<Longrightarrow> ready n r c l \<Longrightarrow> mat_wf r c D \<Longrightarrow> 0 < c \<Longrightarrow>
      \<exists>l' E. bwd l D = Inr (l', E) \<and> mat_wf n c E \<and> ok n r l'"
    and prd_ok: "ok n r l \<Longrightarrow> mat_wf n c X \<Longrightarrow> \<exists>Y. prd l X = Inr Y \<and> mat_wf r c Y"

lemma dense_backward_defined:
  assumes "layer_ok n r L" "layer_ready n r c L" "mat_wf r c D" "0 < c"
  shows "\<exists>L' E. dense_backward C L D = Inr (L', E) \<and> mat_wf n c E \<and> layer_ok n r L'"
  using assms(1) by (simp add: dense_backward_eq [OF assms]) (simp add: layer_ok_def)

interpretation dense: layer_contract layer_ok layer_ready "dense_forward C" "dense_backward C" "dense_predict C" for C
proof
  fix n r c :: nat and L :: "'a dense" and X D :: "'a mat" and s
  assume ok: "layer_ok n r L"
  then show "0 < n \<and> 0 < r" by (simp add: layer_ok_def)
  show "\<exists>L' Y s'. dense_forward C s L X = Inr (L', Y, s') \<and> mat_wf r c Y \<and> layer_ok n r L' \<and> layer_ready n r c L'"
    if "mat_wf n c X" using ok that by (rule dense_forward_defined)
  show "\<exists>L' E. dense_backward C L D = Inr (L', E) \<and> mat_wf n c E \<and> layer_ok n r L'"
    if "layer_ready n r c L" "mat_wf r c D" "0 < c" using ok that by (rule dense_backward_defined)
  show "\<exists>Y. dense_predict C L X = Inr Y \<and> mat_wf r c Y" if "mat_wf n c X"
    using ok that by (simp add: dense_predict_eq)
qed

section \<open>Construction\<close>

lemma new_DenseLayer_ok:
  assumes "new_DenseLayer C D draws n r lr act kp lam init = Inr (L, draws')" "0 < n" "0 < r"
  shows "layer_ok (nat n) (nat r) L"
proof -
  from assms(1) obtain W k where
    W: "Initializer_initialize C D draws (if init = '''' then (if act = ''relu'' then ''he'' else ''xavier'')
      else init) n r = Inr (W, draws')" and k: "getActivationClass act = Inr k"
    and L: "L = \<lparr> dl_input_size = n, dl_output_size = r, dl_learningRate = lr, dl_lambda = lam,
          dl_keepProb = kp, dl_dropoutMask = [], dl_w = W, dl_b = replicate (nat r) 0,
          dl_dw = replicate (nat r) (replicate (nat n) 0), dl_db = replicate (nat r) 0,
          dl_z = [], dl_a = [], dl_aPrev = [],
          dl_activationFunction = k, dl_activationFunc = act \<rparr>"
    using assms(2,3) by (auto simp: new_DenseLayer_def Let_def initParameters_def initDerivatives_def bind_res_eq_Inr)
  from W have "mat_wf (nat r) (nat n) W" by (rule initialize_result_shape)
  moreover have "act = ''softmax'' \<longleftrightarrow> k = Softmax"
    using k by (auto simp: getActivationClass_def split: if_splits)
  ultimately show ?thesis using assms(2,3) by (simp add: L layer_ok_def mat_wf_replicate)
qed

lemma new_DenseLayer_defined:
  assumes "0 < n" "0 < r" "n + r \<le> INT_MAX" "getActivationClass act = Inr k"
  shows "\<exists>L draws'. new_DenseLayer C D draws n r lr act kp lam '''' = Inr (L, draws') \<and>
    layer_ok (nat n) (nat r) L \<and> dl_learningRate L = lr \<and> dl_keepProb L = kp \<and> dl_lambda L = lam \<and>
    dl_activationFunction L = k"
proof -
  have "\<exists>W draws'. Initializer_initialize C D draws (if act = ''relu'' then ''he'' else ''xavier'') n r =
      Inr (W, draws') \<and> mat_wf (nat r) (nat n) W"
    using assms by (intro initialize_shape) simp_all
  then obtain W draws' where
    "Initializer_initialize C D draws (if act = ''relu'' then ''he'' else ''xavier'') n r = Inr (W, draws')"
    by blast
  then have "\<exists>L. new_DenseLayer C D draws n r lr act kp lam '''' = Inr (L, draws') \<and>
      dl_learningRate L = lr \<and> dl_keepProb L = kp \<and> dl_lambda L = lam \<and> dl_activationFunction L = k"
    using assms by (simp add: new_DenseLayer_def Let_def initParameters_def initDerivatives_def)
  then show ?thesis using assms(1,2) new_DenseLayer_ok by blast
qed

text \<open>A layer with one input and two outputs, at which the properties are applied.\<close>

definition example_layer :: "activation \<Rightarrow> real dense" where
  "example_layer k = \<lparr> dl_input_size = 1, dl_output_size = 2, dl_learningRate = 1 / 10, dl_lambda = 0,
     dl_keepProb = 1, dl_dropoutMask = [], dl_w = [[1], [2]], dl_b = [0, 1],
     dl_dw = [[0], [0]], dl_db = [0, 0], dl_z = [], dl_a = [], dl_aPrev = [],
     dl_activationFunction = k, dl_activationFunc = (if k = Softmax then ''softmax'' else ''tanh'') \<rparr>"

lemma example_layer_ok: "layer_ok (Suc 0) 2 (example_layer k)"
  by (simp add: layer_ok_def example_layer_def)

lemma example_layer_simps [simp]:
  "dl_keepProb (example_layer k) = 1" "dl_lambda (example_layer k) = 0" "dl_activationFunction (example_layer k) = k"
  "dl_output_size (example_layer k) = 2" "dl_input_size (example_layer k) = 1"
  "dl_w (example_layer k) = [[1], [2]]" "dl_b (example_layer k) = [0, 1]" "dl_learningRate (example_layer k) = 1 / 10"
  by (simp_all add: example_layer_def)

section \<open>The optimised passes\<close>

lemma activate_m_mat_of:
  assumes "k \<noteq> Softmax" "0 < r"
  shows "activate_m C k (mat_of r c f) = Inr (mat_of r c (\<lambda>i j. activate C k (f i j)))"
  by (subst activate_m_pointwise [OF assms(1) mat_of_wf assms(2)]) (simp cong: mat_of_cong)

lemma Softmax_activate_m_mat_of:
  "0 < r \<Longrightarrow> Softmax_activate_m C (mat_of r c f) =
   Inr (mat_of r c (\<lambda>i j. softmax_spec C (column (mat_of r c f) j) ! i))"
  by (rule Softmax_activate_m_eq [OF mat_of_wf])

text \<open>The optimised forward pass, with no dropout and an activation other than softmax, is the
  plain one: the same output, and the same weighted inputs, activations and saved input in
  the layer, equal as floating-point values because the additions happen in one order. The
  plain pass consumes no random number then.\<close>

theorem forwardOpt_is_forward:
  assumes "layer_ok n r L" "mat_wf n c X" "\<not> dl_keepProb L < 1" "dl_activationFunction L \<noteq> Softmax"
  shows "dense_forward C rnd L X = bind_res (dense_forwardOpt C L X) (\<lambda>(L', Y). Inr (L', Y, rnd)) \<and>
    (\<exists>p. dense_forwardOpt C L X = Inr p)"
proof -
  have "0 < r" using assms(1) by (simp add: layer_ok_def)
  with assms(4) have "activate_m C (dl_activationFunction L) (mat_of r c (weighted L X)) =
      Inr (mat_of r c (\<lambda>i j. activate C (dl_activationFunction L) (weighted L X i j)))"
    by (simp add: activate_m_mat_of)
  then show ?thesis
    by (simp add: dense_forward_plain [OF assms(1-3)] dense_forwardOpt_eq [OF assms(1,2)] Let_def)
qed

theorem forwardOpt_is_forward_witness:
  "\<exists>L' Y. dense_forwardOpt real_cxx (example_layer Tanh) [[5, 6]] = Inr (L', Y) \<and>
    dense_forward real_cxx (\<lambda>_. 7) (example_layer Tanh) [[5, 6]] = Inr (L', Y, \<lambda>_. 7)"
  using forwardOpt_is_forward [OF example_layer_ok, of 2 "[[5, 6]]" Tanh real_cxx "\<lambda>_. 7"]
  by auto

text \<open>Prediction returns the matrix a plain forward pass returns, whatever the keep
  probability of the layer: with an activation other than softmax, a forward pass of the
  same layer with dropout switched off gives the same output.\<close>

theorem predict_is_forward:
  assumes "layer_ok n r L" "mat_wf n c X" "\<not> kp < 1" "dl_activationFunction L \<noteq> Softmax"
  shows "\<exists>Y L'. dense_predict C L X = Inr Y \<and> dense_forward C rnd (L\<lparr>dl_keepProb := kp\<rparr>) X = Inr (L', Y, rnd)"
proof -
  let ?L = "L\<lparr>dl_keepProb := kp\<rparr>"
  have ok: "layer_ok n r ?L" using assms(1) by (simp add: layer_ok_def)
  have w: "weighted ?L X = weighted L X" by (simp add: weighted_def fun_eq_iff)
  have "0 < r" using assms(1) by (simp add: layer_ok_def)
  with assms(3,4) w show ?thesis
    by (simp add: dense_predict_eq [OF assms(1,2)] dense_forward_eq [OF ok assms(2)] activate_m_mat_of)
qed

theorem predict_is_forward_witness:
  "\<exists>Y L'. dense_predict real_cxx (example_layer Relu) [[5, 6]] = Inr Y \<and>
    dense_forward real_cxx (\<lambda>_. 7) (example_layer Relu\<lparr>dl_keepProb := 1\<rparr>) [[5, 6]] = Inr (L', Y, \<lambda>_. 7)"
  by (rule predict_is_forward [OF example_layer_ok, of 2]) simp_all

text \<open>Prediction through a softmax layer returns the weighted inputs: the number overload
  of softmax, which the prediction loop calls per entry, is the identity, so the result is
  not a distribution, while the forward pass applies the softmax of the whole column.\<close>

theorem softmax_predict_returns_weighted_inputs:
  assumes "layer_ok n r L" "mat_wf n c X" "dl_activationFunction L = Softmax" "\<not> dl_keepProb L < 1"
  shows "dense_predict C L X = Inr (mat_of r c (weighted L X)) \<and>
    (\<exists>L'. dense_forward C rnd L X =
      Inr (L', mat_of r c (\<lambda>i j. softmax_spec C (column (mat_of r c (weighted L X)) j) ! i), rnd))"
proof
  show "dense_predict C L X = Inr (mat_of r c (weighted L X))"
    using assms(3) by (simp add: dense_predict_eq [OF assms(1,2)] Softmax_activate_def)
  have "0 < r" using assms(1) by (simp add: layer_ok_def)
  then show "\<exists>L'. dense_forward C rnd L X =
      Inr (L', mat_of r c (\<lambda>i j. softmax_spec C (column (mat_of r c (weighted L X)) j) ! i), rnd)"
    using assms(3) by (simp add: dense_forward_eq [OF assms(1,2)] Softmax_activate_m_mat_of assms(4))
qed

theorem softmax_predict_returns_weighted_inputs_witness:
  "dense_predict real_cxx (example_layer Softmax) [[5]] = Inr [[5], [11]]"
  using softmax_predict_returns_weighted_inputs [OF example_layer_ok, of 1 "[[5]]" Softmax real_cxx]
  by (simp add: mat_of_def weighted_def loop_sum_def numeral_2_eq_2)

end
