(* ===== verification/Evaluator.thy ===== *)
theory Evaluator
  imports Losses
begin

text \<open>
  \<open>Src/Essential Functions/ModelEvaluator.cpp\<close>: the accuracy of a batch of predictions.
  The dynamic casts on the loss object are a case split on \<open>loss\<close>.
\<close>

text \<open>The loop over the classes of one sample: the first maximal entry of the column.\<close>

definition predInd :: "'a::ord mat \<Rightarrow> nat \<Rightarrow> nat \<Rightarrow> nat res" where
  "predInd predictions numOfClasses j =
     bind_res (at_m predictions 0 j) (\<lambda>max0.
     bind_res (fold_res (\<lambda>(max, ind) i. bind_res (at_m predictions i j) (\<lambda>x.
         Inr (if max < x then (x, i) else (max, ind)))) (max0, 0) [1..<numOfClasses])
       (\<lambda>(max, ind). Inr ind))"

fun accuracy ::
  "'a cxx \<Rightarrow> 'a::{zero,one,plus,inverse,ord} mat \<Rightarrow> 'a mat \<Rightarrow> loss \<Rightarrow> 'a res" where
  "accuracy C predictions targets CategoricalCrossEntropy =
     bind_res (at_v predictions 0) (\<lambda>row0.
     bind_res (for_acc (length row0) 0 (\<lambda>accuracyRate j.
         bind_res (predInd predictions (length predictions) j) (\<lambda>ind.
         bind_res (at_m targets 0 j) (\<lambda>t.
           Inr (accuracyRate + num_of_bool (num_eq (c_int C (int ind)) t))))))
       (\<lambda>accuracyRate. Inr (accuracyRate / c_int C (int (length row0)))))"
| "accuracy C predictions targets SigmoidCrossEntropy =
     bind_res (at_v predictions 0) (\<lambda>row0.
     bind_res (for_acc (length row0) 0 (\<lambda>accuracyRate i.
         bind_res (at_m predictions 0 i) (\<lambda>p. bind_res (at_m targets 0 i) (\<lambda>t.
           Inr (accuracyRate + num_of_bool (num_eq (num_of_bool (c_lit C (1 / 2) \<le> p)) t))))))
       (\<lambda>accuracyRate. Inr (accuracyRate / c_int C (int (length row0)))))"

section \<open>Evaluation\<close>

text \<open>The first index of the largest entry, as a function of the column.\<close>

definition first_max :: "(nat \<Rightarrow> 'a::ord) \<Rightarrow> nat \<Rightarrow> nat" where
  "first_max f n = snd (foldl (\<lambda>(m, k) i. if m < f i then (f i, i) else (m, k)) (f 0, 0) [1..<n])"

lemma predInd_eq:
  assumes "mat_wf n c P" "0 < n" "j < c"
  shows "predInd P n j = Inr (first_max (\<lambda>i. P ! i ! j) n)"
proof -
  have "fold_res (\<lambda>(max, ind) i. bind_res (at_m P i j) (\<lambda>x.
      Inr (if max < x then (x, i) else (max, ind)))) (P ! 0 ! j, 0) [1..<n] =
    Inr (foldl (\<lambda>(m, k) i. if m < P ! i ! j then (P ! i ! j, i) else (m, k)) (P ! 0 ! j, 0) [1..<n])"
    by (rule fold_res_pure) (use assms in \<open>auto split: prod.splits\<close>)
  with assms show ?thesis by (simp add: predInd_def first_max_def split_def)
qed

lemma first_max_spec:
  fixes f :: "nat \<Rightarrow> 'a::linorder"
  assumes "0 < n"
  shows "first_max f n < n" and "k < n \<Longrightarrow> f k \<le> f (first_max f n)"
    and "k < first_max f n \<Longrightarrow> f k < f (first_max f n)"
proof -
  let ?step = "\<lambda>(m, k) i. if m < f i then (f i, i) else (m, k)"
  have inv: "\<exists>k. foldl ?step (f 0, 0) [1..<Suc m] = (f k, k) \<and> k \<le> m \<and> (\<forall>i\<le>m. f i \<le> f k) \<and>
      (\<forall>i<k. f i < f k)" for m
  proof (induction m)
    case 0
    show ?case by simp
  next
    case (Suc m)
    then obtain k where k: "foldl ?step (f 0, 0) [1..<Suc m] = (f k, k)" "k \<le> m" "\<forall>i\<le>m. f i \<le> f k"
      "\<forall>i<k. f i < f k" by auto
    have "foldl ?step (f 0, 0) [1..<Suc (Suc m)] = ?step (f k, k) (Suc m)"
      using k(1) by simp
    with k show ?case
      by (cases "f k < f (Suc m)") (auto simp: le_Suc_eq less_Suc_eq_le intro: order.strict_trans1)
  qed
  from assms obtain m where n: "n = Suc m" by (cases n) auto
  from inv [of m] obtain k' where k': "first_max f n = k'" "k' \<le> m" "\<forall>i\<le>m. f i \<le> f k'" "\<forall>i<k'. f i < f k'"
    unfolding first_max_def n by fastforce
  then show "first_max f n < n" and "k < n \<Longrightarrow> f k \<le> f (first_max f n)"
    and "k < first_max f n \<Longrightarrow> f k < f (first_max f n)"
    by (auto simp: n)
qed

lemma accuracy_categorical_eq:
  assumes "mat_wf n c P" "0 < n" "T \<noteq> []" "length (T ! 0) = c"
  shows "accuracy C P T CategoricalCrossEntropy =
    Inr (loop_sum c (\<lambda>j. num_of_bool (num_eq (c_int C (int (first_max (\<lambda>i. P ! i ! j) n))) (T ! 0 ! j)))
         / c_int C (int c))"
proof -
  have loop: "for_acc c 0 (\<lambda>accuracyRate j. bind_res (predInd P n j) (\<lambda>ind. bind_res (at_m T 0 j) (\<lambda>t.
      Inr (accuracyRate + num_of_bool (num_eq (c_int C (int ind)) t))))) =
    Inr (loop_sum c (\<lambda>j. num_of_bool (num_eq (c_int C (int (first_max (\<lambda>i. P ! i ! j) n))) (T ! 0 ! j))))"
    using assms by (intro for_acc_sum) (simp add: predInd_eq at_m_def)
  have "at_v P 0 = Inr (P ! 0)" "length (P ! 0) = c" "length P = n"
    using assms by simp_all
  then show ?thesis by (simp only: accuracy.simps bind_res_Inr loop)
qed

lemma accuracy_binary_eq:
  assumes "mat_wf n c P" "0 < n" "mat_wf n c T"
  shows "accuracy C P T SigmoidCrossEntropy =
    Inr (loop_sum c (\<lambda>j. num_of_bool (num_eq (num_of_bool (c_lit C (1 / 2) \<le> P ! 0 ! j)) (T ! 0 ! j)))
         / c_int C (int c))"
proof -
  have loop: "for_acc c 0 (\<lambda>accuracyRate i. bind_res (at_m P 0 i) (\<lambda>p. bind_res (at_m T 0 i) (\<lambda>t.
      Inr (accuracyRate + num_of_bool (num_eq (num_of_bool (c_lit C (1 / 2) \<le> p)) t))))) =
    Inr (loop_sum c (\<lambda>j. num_of_bool (num_eq (num_of_bool (c_lit C (1 / 2) \<le> P ! 0 ! j)) (T ! 0 ! j))))"
    using assms by (intro for_acc_sum) simp
  have "at_v P 0 = Inr (P ! 0)" "length (P ! 0) = c"
    using assms by simp_all
  then show ?thesis by (simp only: accuracy.simps bind_res_Inr loop)
qed

lemma accuracy_defined:
  assumes "mat_wf n c P" "0 < n" "targets_fit C L n c T"
  shows "\<exists>v. accuracy C P T L = Inr v"
proof (cases L)
  case SigmoidCrossEntropy
  with assms show ?thesis using accuracy_binary_eq [OF assms(1,2)] by auto
next
  case CategoricalCrossEntropy
  with assms show ?thesis
    using accuracy_categorical_eq [OF assms(1,2)] by (auto simp: class_labels_def)
qed

section \<open>Accuracy over the reals\<close>

lemma sum_num_of_bool: "(\<Sum>j<(c::nat). num_of_bool (Q j) :: real) = real (card {j. j < c \<and> Q j})"
proof -
  have "(\<Sum>j<c. num_of_bool (Q j) :: real) = real (card ({..<c} \<inter> {j. Q j}))"
    by (induction c) (simp_all add: lessThan_Suc Int_insert_left num_of_bool_def)
  also have "{..<c} \<inter> {j. Q j} = {j. j < c \<and> Q j}" by auto
  finally show ?thesis .
qed

text \<open>C33: The accuracy of a categorical batch is the fraction of samples whose target is the
  index of the largest prediction of the column, the first one where several are equal;
  it lies between 0 and 1.\<close>

theorem categorical_accuracy_is_hit_rate:
  assumes "mat_wf n c P" "0 < n" "0 < c" "class_labels real_cxx n c T ls" "\<forall>j<c. T ! 0 ! j = real (ls ! j)"
  shows "\<exists>v. accuracy real_cxx P T CategoricalCrossEntropy = Inr v \<and>
    v = real (card {j. j < c \<and> (\<forall>i<n. P ! i ! j \<le> P ! (ls ! j) ! j) \<and>
                           (\<forall>i<ls ! j. P ! i ! j < P ! (ls ! j) ! j)}) / real c \<and> 0 \<le> v \<and> v \<le> 1"
proof -
  let ?hit = "\<lambda>j. (\<forall>i<n. P ! i ! j \<le> P ! (ls ! j) ! j) \<and> (\<forall>i<ls ! j. P ! i ! j < P ! (ls ! j) ! j)"
  have iff: "first_max (\<lambda>i. P ! i ! j) n = ls ! j \<longleftrightarrow> ?hit j" if "j < c" for j
  proof
    show "?hit j" if "first_max (\<lambda>i. P ! i ! j) n = ls ! j"
      using first_max_spec(2) [OF assms(2), where f = "\<lambda>i. P ! i ! j"]
        first_max_spec(3) [OF assms(2), where f = "\<lambda>i. P ! i ! j"] that by simp
    assume hit: "?hit j"
    have "ls ! j < n" using assms(4) that by (simp add: class_labels_def)
    with hit show "first_max (\<lambda>i. P ! i ! j) n = ls ! j"
      using first_max_spec(1) [OF assms(2), where f = "\<lambda>i. P ! i ! j"]
        first_max_spec(2) [OF assms(2), where f = "\<lambda>i. P ! i ! j"]
        first_max_spec(3) [OF assms(2), where f = "\<lambda>i. P ! i ! j"]
      by (metis leD linorder_neqE_nat)
  qed
  let ?v = "real (card {j. j < c \<and> ?hit j}) / real c"
  have "accuracy real_cxx P T CategoricalCrossEntropy =
      Inr ((\<Sum>j<c. num_of_bool (?hit j)) / real c)"
    using assms iff by (subst accuracy_categorical_eq [OF assms(1,2)])
      (auto simp: class_labels_def loop_sum_eq_sum intro!: sum.cong)
  moreover have "card {j. j < c \<and> ?hit j} \<le> card {..<c}" by (rule card_mono) auto
  then have "?v \<le> 1" using assms(3) by simp
  ultimately show ?thesis by (simp add: sum_num_of_bool)
qed

theorem categorical_accuracy_is_hit_rate_witness:
  "\<exists>v. accuracy real_cxx [[1, 3], [2, 3]] [[1, 1]] CategoricalCrossEntropy = Inr v \<and> 0 \<le> v \<and> v \<le> 1"
proof -
  have "class_labels real_cxx 2 2 [[1, 1]] [1, 1]"
    by (auto simp: class_labels_def real_to_int_def INT_MIN_def INT_MAX_def less_2_cases_iff)
  moreover have "\<forall>j<2. [[1, 1]] ! 0 ! j = real ([1, 1] ! j)"
    by (auto simp: less_2_cases_iff)
  ultimately show ?thesis
    using categorical_accuracy_is_hit_rate [of 2 2 "[[1, 3], [2, 3]]" "[[1, 1]]" "[1, 1]"] by auto
qed

end
