(* ===== verification/NeuralNetwork.thy ===== *)
theory NeuralNetwork
  imports LayerFacts Evaluator
begin

text \<open>
  \<open>Src/NeuralNetwork.cpp\<close>: the network object as a record with one field per member, its
  construction and reconfiguration, the passes over the layers, the batch generator, the
  input normalisation and the two training loops. A method that updates the object returns
  it. The layers are called through the functions of the dense layer, the only class that
  implements \<open>Layer\<close>.

  Where a loop of the code may run forever the result is an \<open>option\<close>, \<open>None\<close> for a call
  that does not return.
\<close>

record 'a nn =
  nn_lossFunction :: loss
  nn_lossValues :: "'a vec"
  nn_layers :: "'a dense list"
  nn_means :: "'a vec"
  nn_stdevs :: "'a vec"

section \<open>Construction\<close>

text \<open>
  The body of the loop that builds the layers, at index \<open>i\<close>: the vectors are indexed without
  a check, the two regularisation vectors only when they are not empty.
\<close>

definition new_layer_at ::
  "'a cxx \<Rightarrow> 'a dist \<Rightarrow> string list \<Rightarrow> 'a list \<Rightarrow> 'a list \<Rightarrow> 'a list \<Rightarrow> nat \<Rightarrow> int \<Rightarrow> int \<Rightarrow> nat source
   \<Rightarrow> ('a::{zero,one,uminus,inverse} dense \<times> nat source) res" where
  "new_layer_at C D layerActivations learningRates keyProbValues lambdaValues i inputSize numOfNeurons draws =
     bind_res (at_v layerActivations i) (\<lambda>activation.
     bind_res (at_v learningRates i) (\<lambda>lr.
     bind_res (if keyProbValues \<noteq> [] then at_v keyProbValues i else Inr 1) (\<lambda>keepProb.
     bind_res (if lambdaValues \<noteq> [] then at_v lambdaValues i else Inr 0) (\<lambda>lambda.
       new_DenseLayer C D draws inputSize numOfNeurons lr activation keepProb lambda ''''))))"

text \<open>
  The loop. It returns the layers built so far together with the error that stopped it, or
  the generator's state: what was pushed before an exception stays in the vector.
\<close>

fun build_layers ::
  "(nat \<Rightarrow> int \<Rightarrow> int \<Rightarrow> 'g \<Rightarrow> ('l \<times> 'g) res) \<Rightarrow> int list \<Rightarrow> nat \<Rightarrow> int \<Rightarrow> 'g \<Rightarrow> 'l list
   \<Rightarrow> 'l list \<times> 'g res" where
  "build_layers mk [] i inputSize draws layers = (layers, Inr draws)"
| "build_layers mk (numOfNeurons # layerSizes) i inputSize draws layers =
     (case mk i inputSize numOfNeurons draws of
        Inl e \<Rightarrow> (layers, Inl e)
      | Inr (L, draws') \<Rightarrow> build_layers mk layerSizes (Suc i) numOfNeurons draws' (layers @ [L]))"

definition new_NeuralNetwork ::
  "'a cxx \<Rightarrow> 'a dist \<Rightarrow> nat source \<Rightarrow> int list \<Rightarrow> string list \<Rightarrow> string \<Rightarrow> 'a list \<Rightarrow> 'a list \<Rightarrow> 'a list \<Rightarrow> int
   \<Rightarrow> ('a::{zero,one,uminus,inverse} nn \<times> nat source) res" where
  "new_NeuralNetwork C D draws layerSizes layerActivations lossFunc learningRates keyProbValues
     lambdaValues inputSize =
     (let (layers, r) = build_layers
            (new_layer_at C D layerActivations learningRates keyProbValues lambdaValues)
            layerSizes 0 inputSize draws []
      in bind_res r (\<lambda>draws'. bind_res (getLossClass lossFunc) (\<lambda>l.
           Inr (\<lparr> nn_lossFunction = l, nn_lossValues = [], nn_layers = layers,
                  nn_means = [], nn_stdevs = [] \<rparr>, draws'))))"

text \<open>
  The object after the call, and how the call ended: an exception leaves the object with
  the layers built before it and the old loss. The means and deviations are not touched.
\<close>

definition setModelHyperParameters ::
  "'a cxx \<Rightarrow> 'a dist \<Rightarrow> nat source \<Rightarrow> int list \<Rightarrow> string list \<Rightarrow> string \<Rightarrow> 'a list \<Rightarrow> 'a list \<Rightarrow> 'a list \<Rightarrow> int
   \<Rightarrow> 'a::{zero,one,uminus,inverse} nn \<Rightarrow> 'a nn \<times> nat source res" where
  "setModelHyperParameters C D draws layerSizes layerActivations lossFunc learningRates keyProbValues
     lambdaValues inputSize N =
     (let (layers, r) = build_layers
            (new_layer_at C D layerActivations learningRates keyProbValues lambdaValues)
            layerSizes 0 inputSize draws [];
          N' = N\<lparr>nn_layers := layers\<rparr>
      in case r of Inl e \<Rightarrow> (N', Inl e)
         | Inr draws' \<Rightarrow>
             (case getLossClass lossFunc of
                Inl e \<Rightarrow> (N', Inl e)
              | Inr l \<Rightarrow> (N'\<lparr>nn_lossFunction := l\<rparr>, Inr draws')))"

section \<open>The passes over the layers\<close>

text \<open>\<open>for (Layer* layer : layers) predictions = layer->forward(predictions);\<close>\<close>

fun forward_layers ::
  "('s \<Rightarrow> 'l \<Rightarrow> 'a mat \<Rightarrow> ('l \<times> 'a mat \<times> 's) res) \<Rightarrow> 's \<Rightarrow> 'l list \<Rightarrow> 'a mat
   \<Rightarrow> ('l list \<times> 'a mat \<times> 's) res" where
  "forward_layers fwd s [] predictions = Inr ([], predictions, s)"
| "forward_layers fwd s (layer # layers) predictions =
     bind_res (fwd s layer predictions) (\<lambda>(layer', predictions', s').
     bind_res (forward_layers fwd s' layers predictions') (\<lambda>(layers', predictions'', s'').
       Inr (layer' # layers', predictions'', s'')))"

text \<open>\<open>for (int i = numOfLayers - 1; i >= 0; i--) da = layers[i]->backward(da);\<close>\<close>

fun backward_layers ::
  "('l \<Rightarrow> 'a mat \<Rightarrow> ('l \<times> 'a mat) res) \<Rightarrow> 'l list \<Rightarrow> 'a mat \<Rightarrow> ('l list \<times> 'a mat) res" where
  "backward_layers bwd [] da = Inr ([], da)"
| "backward_layers bwd (layer # layers) da =
     bind_res (backward_layers bwd layers da) (\<lambda>(layers', da').
     bind_res (bwd layer da') (\<lambda>(layer', da'').
       Inr (layer' # layers', da'')))"

fun predict_layers :: "('l \<Rightarrow> 'a mat \<Rightarrow> 'a mat res) \<Rightarrow> 'l list \<Rightarrow> 'a mat \<Rightarrow> 'a mat res" where
  "predict_layers prd [] predictions = Inr predictions"
| "predict_layers prd (layer # layers) predictions =
     bind_res (prd layer predictions) (predict_layers prd layers)"

definition forwardPropagation ::
  "'a cxx \<Rightarrow> int source \<Rightarrow> 'a::{zero,one,plus,minus,uminus,times,inverse,ord} nn \<Rightarrow> 'a mat
   \<Rightarrow> ('a nn \<times> 'a mat \<times> int source) res" where
  "forwardPropagation C rnd N input =
     bind_res (forward_layers (dense_forward C) rnd (nn_layers N) input) (\<lambda>(layers, predictions, rnd').
       Inr (N\<lparr>nn_layers := layers\<rparr>, predictions, rnd'))"

definition backwardPropagation ::
  "'a cxx \<Rightarrow> 'a::{zero,one,plus,minus,uminus,times,inverse,ord} nn \<Rightarrow> 'a mat \<Rightarrow> ('a nn \<times> 'a mat) res" where
  "backwardPropagation C N da =
     bind_res (backward_layers (dense_backward C) (nn_layers N) da) (\<lambda>(layers, da').
       Inr (N\<lparr>nn_layers := layers\<rparr>, da'))"

definition predict ::
  "'a cxx \<Rightarrow> 'a::{zero,one,plus,minus,uminus,times,inverse,ord} nn \<Rightarrow> 'a mat \<Rightarrow> 'a mat res" where
  "predict C N input = predict_layers (dense_predict C) (nn_layers N) input"

section \<open>Batches\<close>

text \<open>
  \<open>std::vector<double>(row.begin() + startCol, row.begin() + endCol)\<close>; iterators outside
  the row or in the wrong order are undefined.
\<close>

definition rowSlice :: "int \<Rightarrow> int \<Rightarrow> 'a vec \<Rightarrow> 'a vec res" where
  "rowSlice startCol endCol row =
     (if 0 \<le> startCol \<and> startCol \<le> endCol \<and> endCol \<le> int (length row)
      then Inr (take (nat endCol - nat startCol) (drop (nat startCol) row))
      else Inl (Undefined Out_of_bounds))"

definition miniBatch :: "int \<Rightarrow> int \<Rightarrow> 'a mat \<Rightarrow> 'a mat \<Rightarrow> ('a mat \<times> 'a mat) res" where
  "miniBatch startCol endCol targets inputLayer =
     bind_res (map_res (rowSlice startCol endCol) inputLayer) (\<lambda>miniBatchPrediction.
     bind_res (map_res (rowSlice startCol endCol) targets) (\<lambda>miniBatchTarget.
       Inr (miniBatchPrediction, miniBatchTarget)))"

text \<open>
  The loop \<open>while (endCol < m)\<close>, then the remaining columns. With a batch size of 0 both
  bounds stay where they are and the loop pushes empty batches forever.
\<close>

partial_function (option) batch_loop ::
  "int \<Rightarrow> int \<Rightarrow> 'a mat \<Rightarrow> 'a mat \<Rightarrow> int \<Rightarrow> int \<Rightarrow> ('a mat \<times> 'a mat) list
   \<Rightarrow> ('a mat \<times> 'a mat) list res option" where
  "batch_loop m miniBatchSize targets inputLayer startCol endCol batches =
     (if endCol < m
      then (case miniBatch startCol endCol targets inputLayer of
              Inl e \<Rightarrow> Some (Inl e)
            | Inr b \<Rightarrow>
                (case add_int endCol miniBatchSize of
                   Inl e \<Rightarrow> Some (Inl e)
                 | Inr endCol' \<Rightarrow>
                     batch_loop m miniBatchSize targets inputLayer endCol endCol' (batches @ [b])))
      else Some (bind_res (miniBatch startCol m targets inputLayer) (\<lambda>b. Inr (batches @ [b]))))"

definition miniBatchGenerator ::
  "'a mat \<Rightarrow> 'a mat \<Rightarrow> int \<Rightarrow> ('a mat \<times> 'a mat) list res option" where
  "miniBatchGenerator targets inputLayer miniBatchSize =
     (case at_v inputLayer 0 of
        Inl e \<Rightarrow> Some (Inl e)
      | Inr row0 \<Rightarrow>
          batch_loop (int (length row0)) miniBatchSize targets inputLayer 0 miniBatchSize [])"

section \<open>Normalisation\<close>

text \<open>One feature: the new values, the mean and the deviation.\<close>

definition normalize_feature ::
  "'a cxx \<Rightarrow> int \<Rightarrow> 'a::{zero,plus,minus,times,inverse,ord} vec \<Rightarrow> 'a vec \<times> 'a \<times> 'a" where
  "normalize_feature C m feature =
     (let sum = foldl (\<lambda>sum val. sum + val) 0 feature;
          mean = sum / c_int C m;
          (centred, squares) = foldl (\<lambda>(centred, squares) val.
             let val' = val - mean in (centred @ [val'], squares + val' * val')) ([], 0) feature;
          stdev = c_sqrt C (squares / c_int C m)
      in (if num_true stdev then map (\<lambda>val. val / stdev) centred else centred, mean, stdev))"

text \<open>
  With \<open>training\<close> the statistics of the features are appended to those the object holds;
  without, the statistics at the front of the two vectors are applied.
\<close>

definition normalize ::
  "'a cxx \<Rightarrow> 'a::{zero,plus,minus,times,inverse,ord} nn \<Rightarrow> 'a mat \<Rightarrow> bool \<Rightarrow> ('a nn \<times> 'a mat) res" where
  "normalize C N input training =
     (if training
      then bind_res (at_v input 0) (\<lambda>row0.
        let fs = map (normalize_feature C (int (length row0))) input
        in Inr (N\<lparr>nn_means := nn_means N @ map (\<lambda>(_, mean, _). mean) fs,
                  nn_stdevs := nn_stdevs N @ map (\<lambda>(_, _, stdev). stdev) fs\<rparr>, map fst fs))
      else bind_res (for_vec (length input) (\<lambda>i. bind_res (at_v input i) (\<lambda>row.
          map_res (\<lambda>val. bind_res (at_v (nn_stdevs N) i) (\<lambda>stdev. bind_res (at_v (nn_means N) i) (\<lambda>mean.
            Inr (if num_true stdev then (val - mean) / stdev else val - mean)))) row)))
        (\<lambda>inputCopy. Inr (N, inputCopy)))"

end
