(* ===== verification/Training.thy ===== *)
theory Training
  imports NeuralNetwork
begin

text \<open>
  The training loops of \<open>Src/NeuralNetwork.cpp\<close> and the network penalty of
  \<open>Src/Essential Functions/Regularization.cpp\<close>. The text sent over the websocket is part of
  the result; the lines \<open>trainVal\<close> prints on the console are not.
\<close>

section \<open>Sequencing calls that may not return\<close>

definition bind_opt :: "'a res option \<Rightarrow> ('a \<Rightarrow> 'b res) \<Rightarrow> 'b res option" where
  "bind_opt r f = (case r of None \<Rightarrow> None | Some x \<Rightarrow> Some (bind_res x f))"

lemma bind_opt_simps [simp]:
  "bind_opt None f = None" "bind_opt (Some x) f = Some (bind_res x f)"
  by (simp_all add: bind_opt_def)

section \<open>\<open>train\<close>\<close>

text \<open>One batch: forward pass, accuracy and loss added to the sums, backward pass.\<close>

definition train_batch ::
  "'a cxx \<Rightarrow> ('a::{zero,one,plus,minus,uminus,times,inverse,ord} nn \<times> int source \<times> 'a \<times> 'a) \<Rightarrow> ('a mat \<times> 'a mat)
   \<Rightarrow> ('a nn \<times> int source \<times> 'a \<times> 'a) res" where
  "train_batch C = (\<lambda>(N, rnd, accuracyRate, costValue) (input, target).
     bind_res (at_v target 0) (\<lambda>_.
     bind_res (forwardPropagation C rnd N input) (\<lambda>(N, predictions, rnd).
     bind_res (accuracy C predictions target (nn_lossFunction N)) (\<lambda>acc.
     bind_res (calculateLoss_m C (nn_lossFunction N) predictions target) (\<lambda>cost.
     bind_res (lossDerivative_m C (nn_lossFunction N) predictions target) (\<lambda>da.
     bind_res (backwardPropagation C N da) (\<lambda>(N, _).
       Inr (N, rnd, accuracyRate + acc, costValue + cost))))))))"

definition epoch_message :: "'a cxx \<Rightarrow> int \<Rightarrow> 'a \<Rightarrow> 'a \<Rightarrow> string" where
  "epoch_message C epoch costValue accuracyRate =
     ''For epoch '' @ show_int epoch @ '' cost: '' @ c_to_string C costValue @
     '', accuracy: '' @ c_to_string C accuracyRate"

text \<open>One epoch over all batches; \<open>ws\<close> says whether there is a connection to report to.\<close>

definition train_epoch ::
  "'a cxx \<Rightarrow> ('a mat \<times> 'a mat) list \<Rightarrow> bool
   \<Rightarrow> ('a::{zero,one,plus,minus,uminus,times,inverse,ord} nn \<times> int source \<times> 'a \<times> string list) \<Rightarrow> nat
   \<Rightarrow> ('a nn \<times> int source \<times> 'a \<times> string list) res" where
  "train_epoch C batches ws = (\<lambda>(N, rnd, _, messages) e.
     bind_res (fold_res (train_batch C) (N, rnd, 0, 0) batches) (\<lambda>(N, rnd, accuracyRate, costValue).
       let accuracyRate = accuracyRate / c_int C (int (length batches));
           costValue = costValue / c_int C (int (length batches));
           messages = (if ws then messages @ [epoch_message C (int (Suc e)) costValue accuracyRate]
                       else messages)
       in Inr (N, rnd, accuracyRate, messages)))"

text \<open>
  The last test of \<open>epoch++ < epochNum\<close> increments \<open>epoch\<close> once more. The result is the
  trained object, the random source, the accuracy of the last epoch and the messages sent.
\<close>

definition train ::
  "'a cxx \<Rightarrow> int source \<Rightarrow> 'a::{zero,one,plus,minus,uminus,times,inverse,ord} nn \<Rightarrow> 'a mat \<Rightarrow> 'a mat
   \<Rightarrow> int \<Rightarrow> int \<Rightarrow> bool \<Rightarrow> ('a nn \<times> int source \<times> 'a \<times> string list) res option" where
  "train C rnd N inputLayer targets epochNum miniBatchSize ws =
     (case normalize C N inputLayer True of
        Inl e \<Rightarrow> Some (Inl e)
      | Inr (N, inputNormalized) \<Rightarrow>
          bind_opt (miniBatchGenerator targets inputNormalized miniBatchSize) (\<lambda>batches.
          bind_res (for_acc (nat epochNum) (N, rnd, 0, []) (train_epoch C batches ws)) (\<lambda>result.
          bind_res (add_int (max 0 epochNum) 1) (\<lambda>_. Inr result))))"

section \<open>\<open>trainVal\<close>\<close>

text \<open>
  One batch. The state holds \<open>costVal\<close>, which no code path sets before the first batch.
\<close>

definition trainVal_batch ::
  "'a cxx \<Rightarrow> 'a mat \<Rightarrow> 'a mat
   \<Rightarrow> ('a::{zero,one,plus,minus,uminus,times,inverse,ord} nn \<times> int source \<times> 'a option) \<Rightarrow> ('a mat \<times> 'a mat)
   \<Rightarrow> ('a nn \<times> int source \<times> 'a option) res" where
  "trainVal_batch C predictionsVal targetsVal = (\<lambda>(N, rnd, costVal) (input, target).
     bind_res (forwardPropagation C rnd N input) (\<lambda>(N, predictionsTrain, rnd).
     bind_res (accuracy C predictionsTrain target (nn_lossFunction N)) (\<lambda>_.
     bind_res (accuracy C predictionsVal targetsVal (nn_lossFunction N)) (\<lambda>_.
     bind_res (calculateLoss_m C (nn_lossFunction N) predictionsTrain target) (\<lambda>_.
     bind_res (calculateLoss_m C (nn_lossFunction N) predictionsVal targetsVal) (\<lambda>costVal.
     bind_res (lossDerivative_m C (nn_lossFunction N) predictionsTrain target) (\<lambda>da.
     bind_res (backwardPropagation C N da) (\<lambda>(N, _).
       Inr (N, rnd, Some costVal)))))))))"

definition trainVal_epoch ::
  "'a cxx \<Rightarrow> ('a mat \<times> 'a mat) list \<Rightarrow> 'a mat \<Rightarrow> 'a mat
   \<Rightarrow> ('a::{zero,one,plus,minus,uminus,times,inverse,ord} nn \<times> int source \<times> 'a option) \<Rightarrow> nat
   \<Rightarrow> ('a nn \<times> int source \<times> 'a option) res" where
  "trainVal_epoch C batches inputValCopy targetsVal = (\<lambda>(N, rnd, costVal) e.
     bind_res (predict C N inputValCopy) (\<lambda>predictionsVal.
       fold_res (trainVal_batch C predictionsVal targetsVal) (N, rnd, costVal) batches))"

definition trainVal ::
  "'a cxx \<Rightarrow> int source \<Rightarrow> 'a::{zero,one,plus,minus,uminus,times,inverse,ord} nn \<Rightarrow> 'a mat \<Rightarrow> 'a mat
   \<Rightarrow> 'a mat \<Rightarrow> 'a mat \<Rightarrow> int \<Rightarrow> int \<Rightarrow> ('a nn \<times> int source \<times> 'a) res option" where
  "trainVal C rnd N inputLayer targets inputsVal targetsVal epochNum miniBatchSize =
     (case bind_res (normalize C N inputLayer True) (\<lambda>(N, inputTrainCopy).
           bind_res (normalize C N inputsVal False) (\<lambda>(N, inputValCopy).
             Inr (N, inputTrainCopy, inputValCopy))) of
        Inl e \<Rightarrow> Some (Inl e)
      | Inr (N, inputTrainCopy, inputValCopy) \<Rightarrow>
          bind_opt (miniBatchGenerator targets inputTrainCopy miniBatchSize) (\<lambda>batches.
          bind_res (if nn_layers N = [] then Inl (Undefined Out_of_bounds) else Inr (last (nn_layers N))) (\<lambda>_.
          bind_res (at_v targetsVal 0) (\<lambda>_.
          bind_res (for_acc (nat epochNum) (N, rnd, None) (trainVal_epoch C batches inputValCopy targetsVal))
            (\<lambda>(N, rnd, costVal).
          bind_res (add_int (max 0 epochNum) 1) (\<lambda>_.
            case costVal of None \<Rightarrow> Inl (Undefined Indeterminate) | Some v \<Rightarrow> Inr (N, rnd, v)))))))"

section \<open>The L2 penalty of a network\<close>

definition calculateNeuralNetworkPenalty ::
  "'a cxx \<Rightarrow> 'a::{zero,plus,times,inverse,ord} dense list \<Rightarrow> int \<Rightarrow> 'a res" where
  "calculateNeuralNetworkPenalty C layers m =
     fold_res (\<lambda>totalL2Penalty layer.
       if num_true (getLambda layer)
       then bind_res (calculateLayerPenalty C (getWeights layer) (getLambda layer) m) (\<lambda>p.
              Inr (totalL2Penalty + p))
       else Inr totalL2Penalty) 0 layers"

end
