(* ===== verification/Batches.thy ===== *)
theory Batches
  imports NeuralNetwork
begin

text \<open>
  What \<open>miniBatchGenerator\<close> returns: the column ranges of the batches, that they cut the
  data without loss, and the batch sizes for which the loop does not return or leaves the
  rows.
\<close>

section \<open>Columns of a matrix\<close>

definition cols :: "nat \<Rightarrow> nat \<Rightarrow> 'a mat \<Rightarrow> 'a mat" where
  "cols s e A = map (\<lambda>row. take (e - s) (drop s row)) A"

lemma cols_wf: "mat_wf r c A \<Longrightarrow> e \<le> c \<Longrightarrow> mat_wf r (e - s) (cols s e A)"
  by (rule mat_wfI) (auto simp: cols_def)

lemma map_rowSlice:
  "mat_wf r c A \<Longrightarrow> s \<le> e \<Longrightarrow> e \<le> c \<Longrightarrow> map_res (rowSlice (int s) (int e)) A = Inr (cols s e A)"
  unfolding cols_def by (rule map_res_pure) (auto simp: rowSlice_def in_set_conv_nth)

lemma miniBatch_eq:
  "mat_wf n m X \<Longrightarrow> mat_wf k m T \<Longrightarrow> s \<le> e \<Longrightarrow> e \<le> m \<Longrightarrow>
   miniBatch (int s) (int e) T X = Inr (cols s e X, cols s e T)"
  by (simp add: miniBatch_def map_rowSlice)

section \<open>The ranges\<close>

text \<open>The bounds of the batches from column \<open>s\<close> on.\<close>

function ranges :: "nat \<Rightarrow> nat \<Rightarrow> nat \<Rightarrow> (nat \<times> nat) list" where
  "ranges m mb s = (if 0 < mb \<and> s + mb < m then (s, s + mb) # ranges m mb (s + mb) else [(s, m)])"
  by pat_completeness auto
termination by (relation "measure (\<lambda>(m, mb, s). m - s)") auto

declare ranges.simps [simp del]

definition batches_of :: "nat \<Rightarrow> nat \<Rightarrow> 'a mat \<Rightarrow> 'a mat \<Rightarrow> ('a mat \<times> 'a mat) list" where
  "batches_of m mb X T = map (\<lambda>(s, e). (cols s e X, cols s e T)) (ranges m mb 0)"

lemma ranges_bounds:
  "s \<le> m \<Longrightarrow> 0 < mb \<Longrightarrow> (a, b) \<in> set (ranges m mb s) \<Longrightarrow> s \<le> a \<and> a \<le> b \<and> b \<le> m \<and> (s < m \<longrightarrow> a < b)"
proof (induction m mb s rule: ranges.induct)
  case (1 m mb s)
  show ?case
  proof (cases "s + mb < m")
    case True
    with 1(3) have "ranges m mb s = (s, s + mb) # ranges m mb (s + mb)"
      by (subst ranges.simps) simp
    with True 1 show ?thesis by auto
  next
    case False
    then have "ranges m mb s = [(s, m)]" by (subst ranges.simps) simp
    with 1 show ?thesis by auto
  qed
qed

lemma ranges_sizes:
  "s \<le> m \<Longrightarrow> 0 < mb \<Longrightarrow> i < length (ranges m mb s) \<Longrightarrow>
   snd (ranges m mb s ! i) - fst (ranges m mb s ! i) \<le> mb \<and>
   (Suc i < length (ranges m mb s) \<longrightarrow> snd (ranges m mb s ! i) - fst (ranges m mb s ! i) = mb)"
proof (induction m mb s arbitrary: i rule: ranges.induct)
  case (1 m mb s)
  show ?case
  proof (cases "s + mb < m")
    case True
    with 1 have "ranges m mb s = (s, s + mb) # ranges m mb (s + mb)"
      by (subst ranges.simps) simp
    with True 1 show ?thesis by (cases i) auto
  next
    case False
    with 1 have "ranges m mb s = [(s, m)]" by (subst ranges.simps) simp
    with False 1 show ?thesis by simp
  qed
qed

lemma ranges_concat:
  "s \<le> m \<Longrightarrow> length row = m \<Longrightarrow>
   concat (map (\<lambda>(a, b). take (b - a) (drop a row)) (ranges m mb s)) = drop s row"
proof (induction m mb s rule: ranges.induct)
  case (1 m mb s)
  show ?case
  proof (cases "0 < mb \<and> s + mb < m")
    case True
    with 1 have "ranges m mb s = (s, s + mb) # ranges m mb (s + mb)"
      by (subst ranges.simps) simp
    with True 1 have "concat (map (\<lambda>(a, b). take (b - a) (drop a row)) (ranges m mb s)) =
        take mb (drop s row) @ drop (s + mb) row" by simp
    also have "drop (s + mb) row = drop mb (drop s row)" by (simp add: add.commute)
    finally show ?thesis by (simp only: append_take_drop_id)
  next
    case False
    then have "ranges m mb s = [(s, m)]" by (subst ranges.simps) auto
    with 1 show ?thesis by simp
  qed
qed

lemma ranges_not_Nil: "ranges m mb s \<noteq> []"
  by (subst ranges.simps) simp

section \<open>The loop\<close>

lemma batch_loop_eq:
  assumes "mat_wf n m X" "mat_wf k m T" "0 < mb" "int m + int mb \<le> INT_MAX" "s \<le> m"
  shows "batch_loop (int m) (int mb) T X (int s) (int (s + mb)) acc =
    Some (Inr (acc @ map (\<lambda>(a, b). (cols a b X, cols a b T)) (ranges m mb s)))"
  using assms
proof (induction m mb s arbitrary: acc rule: ranges.induct)
  case (1 m mb s)
  show ?case
  proof (cases "s + mb < m")
    case True
    with 1 have r: "ranges m mb s = (s, s + mb) # ranges m mb (s + mb)"
      by (subst ranges.simps) simp
    have "add_int (int (s + mb)) (int mb) = Inr (int (s + mb + mb))"
      using 1 True by (simp add: add_int_def INT_MIN_def)
    moreover have "miniBatch (int s) (int (s + mb)) T X = Inr (cols s (s + mb) X, cols s (s + mb) T)"
      using 1 True by (intro miniBatch_eq) auto
    ultimately show ?thesis
      using 1 True by (subst batch_loop.simps) (simp add: r)
  next
    case False
    with 1 have r: "ranges m mb s = [(s, m)]" by (subst ranges.simps) simp
    have "miniBatch (int s) (int m) T X = Inr (cols s m X, cols s m T)"
      using 1 by (intro miniBatch_eq) auto
    with False show ?thesis by (subst batch_loop.simps) (simp add: r)
  qed
qed

lemma miniBatchGenerator_eq:
  assumes "mat_wf n m X" "0 < n" "mat_wf k m T" "0 < mb" "int m + int mb \<le> INT_MAX"
  shows "miniBatchGenerator T X (int mb) = Some (Inr (batches_of m mb X T))"
proof -
  have "at_v X 0 = Inr (X ! 0)" "length (X ! 0) = m" using assms by simp_all
  with batch_loop_eq [OF assms(1,3,4,5), of 0 "[]"] show ?thesis
    by (simp add: miniBatchGenerator_def batches_of_def)
qed

lemma batches_of_shape:
  assumes "mat_wf n m X" "mat_wf k m T" "0 < mb" "0 < m" "(x, t) \<in> set (batches_of m mb X T)"
  shows "\<exists>s e. s < e \<and> e \<le> m \<and> x = cols s e X \<and> t = cols s e T"
  using assms ranges_bounds [of 0 m mb] by (fastforce simp: batches_of_def)

text \<open>C4: The batch generator cuts the data into batches without loss: joining the batches'
  columns, in the order in which they are returned, gives back every row of the inputs and
  of the targets; every batch but the last has \<open>miniBatchSize\<close> columns, and no batch is
  empty or longer.\<close>

theorem batches_partition_the_data:
  assumes "mat_wf n m X" "0 < n" "mat_wf k m T" "0 < mb" "0 < m" "int m + int mb \<le> INT_MAX"
  shows "\<exists>bs. miniBatchGenerator T X (int mb) = Some (Inr bs) \<and>
    (\<forall>i<n. concat (map (\<lambda>(x, t). x ! i) bs) = X ! i) \<and>
    (\<forall>i<k. concat (map (\<lambda>(x, t). t ! i) bs) = T ! i) \<and>
    (\<forall>b<length bs. \<exists>w. mat_wf n w (fst (bs ! b)) \<and> mat_wf k w (snd (bs ! b)) \<and> 0 < w \<and> w \<le> mb \<and>
       (Suc b < length bs \<longrightarrow> w = mb))"
proof -
  let ?bs = "batches_of m mb X T"
  have "concat (map (\<lambda>(x, t). x ! i) ?bs) = X ! i" if "i < n" for i
    using ranges_concat [of 0 m "X ! i" mb] assms that
    by (simp add: batches_of_def split_def cols_def comp_def)
  moreover have "concat (map (\<lambda>(x, t). t ! i) ?bs) = T ! i" if "i < k" for i
    using ranges_concat [of 0 m "T ! i" mb] assms that
    by (simp add: batches_of_def split_def cols_def comp_def)
  moreover have "\<exists>w. mat_wf n w (fst (?bs ! b)) \<and> mat_wf k w (snd (?bs ! b)) \<and> 0 < w \<and> w \<le> mb \<and>
      (Suc b < length ?bs \<longrightarrow> w = mb)" if b: "b < length ?bs" for b
  proof -
    obtain s e where se: "ranges m mb 0 ! b = (s, e)" by (cases "ranges m mb 0 ! b")
    have len: "length ?bs = length (ranges m mb 0)" by (simp add: batches_of_def)
    have "(s, e) \<in> set (ranges m mb 0)" using b se len by (metis nth_mem)
    then have "s < e" "e \<le> m" using ranges_bounds [of 0 m mb s e] assms by auto
    moreover have "e - s \<le> mb" "Suc b < length ?bs \<longrightarrow> e - s = mb"
      using ranges_sizes [of 0 m mb b] b se len assms(4) by auto
    moreover have "?bs ! b = (cols s e X, cols s e T)"
      using b se len by (simp add: batches_of_def)
    ultimately show ?thesis
      using assms(1,3) by (intro exI [of _ "e - s"]) (auto simp: cols_wf)
  qed
  ultimately show ?thesis
    using miniBatchGenerator_eq [OF assms(1,2,3,4,6)] by blast
qed

theorem batches_partition_the_data_witness:
  "\<exists>bs. miniBatchGenerator [[0, 1, 0]] [[1, 2, 3], [4, 5, 6 :: int]] 2 = Some (Inr bs) \<and>
    concat (map (\<lambda>(x, t). x ! 1) bs) = [4, 5, 6]"
  using batches_partition_the_data [of 2 3 "[[1, 2, 3], [4, 5, 6 :: int]]" 1 "[[0, 1, 0]]" 2]
  by (auto simp: INT_MAX_def)

section \<open>Batch sizes that are not positive\<close>

text \<open>
  With a batch size of 0 the call does not return: the loop's arguments other than the
  accumulator never change, so if some call of the loop returned, none would be the last.
\<close>

lemma batch_loop_zero:
  assumes "0 < m" "mat_wf n m X" "mat_wf k m T"
  shows "batch_loop (int m) 0 T X 0 0 acc = None"
proof -
  have empty: "miniBatch 0 0 T X = Inr (cols 0 0 X, cols 0 0 T)"
    using miniBatch_eq [OF assms(2,3), of 0 0] by simp
  have "\<not> (m' = int m \<and> mb = 0 \<and> T' = T \<and> X' = X \<and> s = 0 \<and> e = 0)"
    if call: "batch_loop m' mb T' X' s e acc = Some y" for m' mb T' X' s e acc y
  proof (rule batch_loop.raw_induct [OF _ call,
      where P = "\<lambda>m' mb T' X' s e acc y. \<not> (m' = int m \<and> mb = 0 \<and> T' = T \<and> X' = X \<and> s = 0 \<and> e = 0)"], rule notI)
    fix loop m' mb T' X' s e acc y
    assume IH: "\<And>m' mb T' X' s e acc y. loop m' mb T' X' s e acc = Some y \<Longrightarrow>
        \<not> (m' = int m \<and> mb = 0 \<and> T' = T \<and> X' = X \<and> s = 0 \<and> e = 0)"
      and body: "(if e < m' then case miniBatch s e T' X' of Inl err \<Rightarrow> Some (Inl err)
          | Inr b \<Rightarrow> (case add_int e mb of Inl err \<Rightarrow> Some (Inl err)
              | Inr e' \<Rightarrow> loop m' mb T' X' e e' (acc @ [b]))
        else Some (bind_res (miniBatch s m' T' X') (\<lambda>b. Inr (acc @ [b])))) = Some y"
      and "m' = int m \<and> mb = 0 \<and> T' = T \<and> X' = X \<and> s = 0 \<and> e = 0"
    then have "loop (int m) 0 T X 0 0 (acc @ [(cols 0 0 X, cols 0 0 T)]) = Some y"
      using assms(1) by (simp add: empty add_int_def INT_MIN_def INT_MAX_def)
    with IH show False by blast
  qed
  then show ?thesis by (metis option.exhaust)
qed

text \<open>For data with at least one sample, a batch size of 0 makes the generator loop without
  end (it keeps pushing empty batches), and a negative batch size makes it build a row from
  iterators that lie outside the row.\<close>

theorem batch_size_must_be_positive:
  assumes "mat_wf n m X" "0 < n" "mat_wf k m T" "0 < m"
  shows "miniBatchGenerator T X 0 = None \<and>
    (\<forall>mb<0. miniBatchGenerator T X mb = Some (Inl (Undefined Out_of_bounds)))"
proof -
  have row: "at_v X 0 = Inr (X ! 0)" "length (X ! 0) = m" using assms by simp_all
  have "miniBatchGenerator T X 0 = None"
    using row batch_loop_zero [OF assms(4,1,3)] by (simp add: miniBatchGenerator_def)
  moreover have "miniBatchGenerator T X mb = Some (Inl (Undefined Out_of_bounds))" if "mb < 0" for mb
  proof -
    have "miniBatch 0 mb T X = Inl (Undefined Out_of_bounds)"
      using assms(1,2) that by (cases X) (auto simp: miniBatch_def rowSlice_def)
    then show ?thesis
      using row that by (simp add: miniBatchGenerator_def batch_loop.simps)
  qed
  ultimately show ?thesis by blast
qed

theorem batch_size_must_be_positive_witness:
  "miniBatchGenerator [[1]] [[5 :: int]] 0 = None \<and>
   miniBatchGenerator [[1]] [[5 :: int]] (- 3) = Some (Inl (Undefined Out_of_bounds))"
  using batch_size_must_be_positive [of 1 1 "[[5 :: int]]" 1 "[[1]]"] by simp

end
