(* ===== verification/NetworkFacts.thy ===== *)
theory NetworkFacts
  imports Training Batches
begin

text \<open>
  Well-formed networks, proved from the layers' contract alone and then instantiated with
  the dense layer: every pass is defined and keeps the shape of the network, construction
  gives such a network, and training on conforming data returns.
\<close>

section \<open>Stacks of layers\<close>

text \<open>A list of layers in which each takes what the one before it gives.\<close>

fun stack :: "(nat \<Rightarrow> nat \<Rightarrow> 'l \<Rightarrow> bool) \<Rightarrow> nat \<Rightarrow> 'l list \<Rightarrow> nat \<Rightarrow> bool" where
  "stack ok n [] r \<longleftrightarrow> n = r \<and> 0 < r"
| "stack ok n (l # ls) r \<longleftrightarrow> (\<exists>k. ok n k l \<and> stack ok k ls r)"

context layer_contract
begin

lemma forward_stack:
  assumes "stack ok n ls r" "mat_wf n c X"
  shows "\<exists>ls' Y s'. forward_layers fwd s ls X = Inr (ls', Y, s') \<and> mat_wf r c Y \<and>
    stack (\<lambda>n r l. ok n r l \<and> ready n r c l) n ls' r"
  using assms
proof (induction ls arbitrary: n X s)
  case Nil
  then show ?case by simp
next
  case (Cons l ls)
  from Cons.prems obtain k where k: "ok n k l" "stack ok k ls r" by auto
  obtain l' Y s' where 1: "fwd s l X = Inr (l', Y, s')" "mat_wf k c Y" "ok n k l'" "ready n k c l'"
    using fwd_ok [OF k(1) Cons.prems(2)] by blast
  then show ?case using Cons.IH [OF k(2) 1(2), of s'] by auto
qed

lemma backward_stack:
  assumes "stack (\<lambda>n r l. ok n r l \<and> ready n r c l) n ls r" "mat_wf r c D" "0 < c"
  shows "\<exists>ls' E. backward_layers bwd ls D = Inr (ls', E) \<and> mat_wf n c E \<and> stack ok n ls' r"
  using assms
proof (induction ls arbitrary: n)
  case Nil
  then show ?case by simp
next
  case (Cons l ls)
  from Cons.prems obtain k where k: "ok n k l" "ready n k c l"
    "stack (\<lambda>n r l. ok n r l \<and> ready n r c l) k ls r" by auto
  then obtain ls' E where "backward_layers bwd ls D = Inr (ls', E)" "mat_wf k c E" "stack ok k ls' r"
    using Cons by blast
  with bwd_ok [OF k(1,2) _ Cons.prems(3), of E] show ?case by auto
qed

lemma predict_stack:
  assumes "stack ok n ls r" "mat_wf n c X"
  shows "\<exists>Y. predict_layers prd ls X = Inr Y \<and> mat_wf r c Y"
  using assms
proof (induction ls arbitrary: n X)
  case Nil
  then show ?case by simp
next
  case (Cons l ls)
  from Cons.prems obtain k where k: "ok n k l" "stack ok k ls r" by auto
  with prd_ok [OF k(1) Cons.prems(2)] Cons.IH [OF k(2)] show ?case by fastforce
qed

end

section \<open>Well-formed networks\<close>

definition nn_ok :: "nat \<Rightarrow> nat \<Rightarrow> 'a nn \<Rightarrow> bool" where
  "nn_ok n r N \<longleftrightarrow> stack layer_ok n (nn_layers N) r"

text \<open>A network with one input, two hidden neurons and two classes.\<close>

definition example_net :: "real nn" where
  "example_net = \<lparr> nn_lossFunction = CategoricalCrossEntropy, nn_lossValues = [],
     nn_layers = [example_layer Tanh,
       example_layer Softmax\<lparr>dl_input_size := 2, dl_w := [[1, 0], [0, 1]], dl_dw := [[0, 0], [0, 0]]\<rparr>],
     nn_means = [], nn_stdevs = [] \<rparr>"

lemma example_net_ok: "nn_ok (Suc 0) 2 example_net"
proof -
  have "layer_ok 2 2 (example_layer Softmax\<lparr>dl_input_size := 2, dl_w := [[1, 0], [0, 1]], dl_dw := [[0, 0], [0, 0]]\<rparr>)"
    by (simp add: layer_ok_def example_layer_def)
  then show ?thesis
    using example_layer_ok [of Tanh] by (auto simp: nn_ok_def example_net_def)
qed

text \<open>A source of distributions.\<close>

definition example_dist :: "real dist" where
  "example_dist = \<lparr> normal_draw = \<lambda>mean dev k. mean + dev * (real k - 3), uniform_draw = scaled_uniform \<rparr>"

lemma stack_pos: "stack ok n ls r \<Longrightarrow> 0 < r"
  by (induction ls arbitrary: n) auto

lemma nn_ok_pos: "nn_ok n r N \<Longrightarrow> 0 < r"
  unfolding nn_ok_def by (rule stack_pos)

subsection \<open>Construction\<close>

text \<open>Vectors that cover the layers from index \<open>i\<close> on, with known activations.\<close>

definition hyper_ok :: "nat \<Rightarrow> int \<Rightarrow> int list \<Rightarrow> string list \<Rightarrow> 'a list \<Rightarrow> 'a list \<Rightarrow> 'a list \<Rightarrow> bool" where
  "hyper_ok i n sizes acts lrs kps lams \<longleftrightarrow>
     (\<forall>k\<in>set (n # sizes). 0 < k \<and> 2 * k \<le> INT_MAX) \<and>
     (let len = i + length sizes in len \<le> length acts \<and> len \<le> length lrs \<and>
        (kps = [] \<or> len \<le> length kps) \<and> (lams = [] \<or> len \<le> length lams) \<and>
        (\<forall>j. i \<le> j \<and> j < len \<longrightarrow> (\<exists>k. getActivationClass (acts ! j) = Inr k)))"

lemma hyper_ok_Cons:
  "hyper_ok i n (k # sizes) acts lrs kps lams \<Longrightarrow> hyper_ok (Suc i) k sizes acts lrs kps lams"
  by (auto simp: hyper_ok_def Let_def)

lemma new_layer_at_ok:
  assumes "hyper_ok i n (k # sizes) acts lrs kps lams"
  shows "\<exists>L draws'. new_layer_at C D acts lrs kps lams i n k draws = Inr (L, draws') \<and>
    layer_ok (nat n) (nat k) L \<and> dl_learningRate L = lrs ! i \<and>
    dl_keepProb L = (if kps = [] then 1 else kps ! i) \<and> dl_lambda L = (if lams = [] then 0 else lams ! i)"
proof -
  from assms obtain f where f: "getActivationClass (acts ! i) = Inr f"
    by (fastforce simp: hyper_ok_def Let_def)
  have size: "0 < n" "0 < k" "n + k \<le> INT_MAX"
    using assms by (auto simp: hyper_ok_def)
  have "i < length acts" "i < length lrs" "kps = [] \<or> i < length kps" "lams = [] \<or> i < length lams"
    using assms by (auto simp: hyper_ok_def Let_def)
  then have "new_layer_at C D acts lrs kps lams i n k draws =
      new_DenseLayer C D draws n k (lrs ! i) (acts ! i) (if kps = [] then 1 else kps ! i)
        (if lams = [] then 0 else lams ! i) ''''"
    by (cases "kps = []"; cases "lams = []"; simp add: new_layer_at_def)
  with new_DenseLayer_defined [OF size f, of C D draws "lrs ! i" "if kps = [] then 1 else kps ! i"
      "if lams = [] then 0 else lams ! i"]
  show ?thesis by auto
qed

lemma build_layers_ok:
  assumes "hyper_ok i n sizes acts lrs kps lams"
  shows "\<exists>ls draws'. build_layers (new_layer_at C D acts lrs kps lams) sizes i n draws acc =
      (acc @ ls, Inr draws') \<and> stack layer_ok (nat n) ls (nat (last (n # sizes))) \<and>
      length ls = length sizes"
  using assms
proof (induction sizes arbitrary: i n draws acc)
  case Nil
  then show ?case by (simp add: hyper_ok_def)
next
  case (Cons k sizes)
  obtain L draws' where L: "new_layer_at C D acts lrs kps lams i n k draws = Inr (L, draws')"
    "layer_ok (nat n) (nat k) L"
    using new_layer_at_ok [OF Cons.prems] by blast
  obtain ls draws'' where
    "build_layers (new_layer_at C D acts lrs kps lams) sizes (Suc i) k draws' (acc @ [L]) =
      ((acc @ [L]) @ ls, Inr draws'')" "stack layer_ok (nat k) ls (nat (last (k # sizes)))"
    "length ls = length sizes"
    using Cons.IH [OF hyper_ok_Cons [OF Cons.prems], of draws' "acc @ [L]"] by blast
  with L show ?case by (intro exI [of _ "L # ls"]) (auto intro: exI [of _ "nat k"])
qed

lemma build_layers_append:
  "build_layers mk (pre @ post) i n draws acc =
    (case build_layers mk pre i n draws acc of
       (ls, Inl e) \<Rightarrow> (ls, Inl e)
     | (ls, Inr draws') \<Rightarrow> build_layers mk post (i + length pre) (last (n # pre)) draws' ls)"
  by (induction pre arbitrary: i n draws acc) (auto split: sum.splits)

lemma new_NeuralNetwork_ok:
  assumes "hyper_ok 0 inputSize sizes acts lrs kps lams" "getLossClass lossFunc = Inr l"
  shows "\<exists>N draws'. new_NeuralNetwork C D draws sizes acts lossFunc lrs kps lams inputSize = Inr (N, draws') \<and>
    nn_ok (nat inputSize) (nat (last (inputSize # sizes))) N \<and> length (nn_layers N) = length sizes \<and>
    nn_lossFunction N = l \<and> nn_means N = [] \<and> nn_stdevs N = []"
  using build_layers_ok [OF assms(1), of C D draws "[]"] assms(2)
  by (auto simp: new_NeuralNetwork_def nn_ok_def)

text \<open>C20: On hyper-parameters that cover every layer, with sizes that are positive and not
  excessive, known activations and a known loss, construction gives a network that takes
  \<open>inputSize\<close> features, has one layer per size, starts without statistics and is
  well-formed: each layer's matrices fit the sizes next to it.\<close>

theorem constructor_builds_well_formed_network:
  assumes "hyper_ok 0 inputSize sizes acts lrs kps lams" "getLossClass lossFunc = Inr l"
  shows "\<exists>N draws'. new_NeuralNetwork C D draws sizes acts lossFunc lrs kps lams inputSize = Inr (N, draws') \<and>
    nn_ok (nat inputSize) (nat (last (inputSize # sizes))) N \<and> length (nn_layers N) = length sizes \<and>
    nn_lossFunction N = l \<and> nn_means N = [] \<and> nn_stdevs N = []"
  by (rule new_NeuralNetwork_ok [OF assms])

lemma hyper_ok_example: "hyper_ok 0 3 [4, 2] [''tanh'', ''softmax'', ''tanhh''] [1, 2, 3] [] []"
  by (auto simp: hyper_ok_def INT_MAX_def getActivationClass_def less_Suc_eq)

theorem constructor_builds_well_formed_network_witness:
  "\<exists>N draws'. new_NeuralNetwork real_cxx example_dist (\<lambda>k. k) [4, 2] [''tanh'', ''softmax'', ''tanhh'']
      ''categorical cross entropy'' [1, 2, 3] [] [] 3 = Inr (N, draws') \<and> nn_ok 3 2 N \<and> length (nn_layers N) = 2"
  using constructor_builds_well_formed_network [OF hyper_ok_example, of "''categorical cross entropy''"
      CategoricalCrossEntropy real_cxx example_dist "\<lambda>k. k"]
  by (auto simp: getLossClass_def)

text \<open>Reconfiguring a network with an unknown activation at layer \<open>k\<close> throws, and it is not
  atomic: the old layers are gone, the object is left with the \<open>k\<close> layers built before the
  error and still has its old loss and statistics.\<close>

theorem reconfiguration_error_truncates_network:
  assumes "hyper_ok 0 inputSize sizes acts lrs kps lams"
    and "k = length sizes" "k < length acts" "k < length lrs" "kps = [] \<or> k < length kps"
      "lams = [] \<or> k < length lams" "0 < newSize" "2 * newSize \<le> INT_MAX"
      "acts ! k \<notin> {''sigmoid'', ''tanh'', ''relu'', ''leaky relu'', ''softmax''}"
  shows "\<exists>N'. setModelHyperParameters C D draws (sizes @ newSize # rest) acts lossFunc lrs kps lams inputSize N =
      (N', Inl (Invalid_argument (''Unknown activation function: '' @ acts ! k))) \<and>
    length (nn_layers N') = k \<and> nn_ok (nat inputSize) (nat (last (inputSize # sizes))) N' \<and>
    nn_lossFunction N' = nn_lossFunction N \<and> nn_means N' = nn_means N \<and> nn_stdevs N' = nn_stdevs N"
proof -
  let ?mk = "new_layer_at C D acts lrs kps lams" and ?n = "last (inputSize # sizes)"
  obtain ls draws' where ls: "build_layers ?mk sizes 0 inputSize draws [] = (ls, Inr draws')"
    "stack layer_ok (nat inputSize) ls (nat ?n)" "length ls = length sizes"
    using build_layers_ok [OF assms(1), of C D draws "[]"] by auto
  have n: "0 < ?n" "2 * ?n \<le> INT_MAX"
    using assms(1) unfolding hyper_ok_def by (metis last_in_set list.discI)+
  have "getActivationClass (acts ! k) = Inl (Invalid_argument (''Unknown activation function: '' @ acts ! k))"
    using assms(9) by (simp add: getActivationClass_def)
  moreover have "\<exists>W draws''. Initializer_initialize C D draws' ''xavier'' ?n newSize = Inr (W, draws'')"
    using n assms(7,8) initialize_shape [of "''xavier''" newSize ?n C D draws'] by auto
  ultimately have "?mk k ?n newSize draws' =
      Inl (Invalid_argument (''Unknown activation function: '' @ acts ! k))"
    using assms(3-9) n
    by (auto simp: new_layer_at_def new_DenseLayer_def Let_def initParameters_def initDerivatives_def)
  with ls show ?thesis
    by (simp add: setModelHyperParameters_def build_layers_append assms(2) nn_ok_def)
qed

theorem reconfiguration_error_truncates_network_witness:
  "\<exists>N'. setModelHyperParameters real_cxx example_dist (\<lambda>k. k) [4, 2, 5] [''tanh'', ''softmax'', ''tanhh'']
      ''sigmoid cross entropy'' [1, 2, 3] [] [] 3 example_net =
      (N', Inl (Invalid_argument ''Unknown activation function: tanhh'')) \<and> length (nn_layers N') = 2"
  using reconfiguration_error_truncates_network [OF hyper_ok_example, of 2 5 real_cxx example_dist "\<lambda>k. k" "[]"]
  by (auto simp: INT_MAX_def)

end
