(* ===== verification/TrainFacts.thy ===== *)
theory TrainFacts
  imports NetworkFacts
begin

text \<open>
  Training on conforming data returns a value, with no undefined behaviour and no
  exception, and keeps the network well-formed; what it reports and what it leaves in the
  statistics.
\<close>

section \<open>Targets of a batch\<close>

lemma cols_nth: "i < length A \<Longrightarrow> cols s e A ! i = take (e - s) (drop s (A ! i))"
  by (simp add: cols_def)

lemma cols_cell:
  "mat_wf r c A \<Longrightarrow> e \<le> c \<Longrightarrow> i < r \<Longrightarrow> j < e - s \<Longrightarrow> cols s e A ! i ! j = A ! i ! (s + j)"
  by (simp add: cols_nth)

lemma class_labels_cols:
  assumes "class_labels C n m T ls" "mat_wf k m T" "e \<le> m"
  shows "class_labels C n (e - s) (cols s e T) (take (e - s) (drop s ls))"
proof -
  have k: "0 < k" "length ls = m" using assms by (cases T; auto simp: class_labels_def)+
  have "length (cols s e T ! 0) = e - s" using assms k by (simp add: cols_nth)
  moreover have "cols s e T \<noteq> []" using assms by (simp add: class_labels_def cols_def)
  moreover have "c_to_int C (cols s e T ! 0 ! j) = Some (int (take (e - s) (drop s ls) ! j)) \<and>
      take (e - s) (drop s ls) ! j < n" if "j < e - s" for j
    using assms k that cols_cell [OF assms(2,3) k(1) that] by (simp add: class_labels_def)
  ultimately show ?thesis using assms(3) k by (simp add: class_labels_def)
qed

lemma targets_fit_cols:
  assumes "targets_fit C L n m T" "mat_wf k m T" "e \<le> m"
  shows "targets_fit C L n (e - s) (cols s e T)"
proof (cases L)
  case SigmoidCrossEntropy
  with assms show ?thesis by (simp add: cols_wf)
next
  case CategoricalCrossEntropy
  with assms(1) obtain ls where "class_labels C n m T ls" by auto
  from class_labels_cols [OF this assms(2,3)] CategoricalCrossEntropy show ?thesis by auto
qed

section \<open>One batch, one epoch, the whole training\<close>

text \<open>What a training step keeps of the object.\<close>

definition same_setup :: "'a nn \<Rightarrow> 'a nn \<Rightarrow> bool" where
  "same_setup N N' \<longleftrightarrow> nn_lossFunction N' = nn_lossFunction N \<and> nn_lossValues N' = nn_lossValues N \<and>
     nn_means N' = nn_means N \<and> nn_stdevs N' = nn_stdevs N \<and> length (nn_layers N') = length (nn_layers N)"

lemma same_setup_refl [simp]: "same_setup N N"
  by (simp add: same_setup_def)

lemma same_setup_trans: "same_setup N N' \<Longrightarrow> same_setup N' N'' \<Longrightarrow> same_setup N N''"
  by (simp add: same_setup_def)

lemma forward_layers_length:
  "forward_layers fwd s ls X = Inr (ls', Y, s') \<Longrightarrow> length ls' = length ls"
  by (induction ls arbitrary: s X ls') (auto simp: bind_res_eq_Inr)

lemma backward_layers_length:
  "backward_layers bwd ls D = Inr (ls', E) \<Longrightarrow> length ls' = length ls"
  by (induction ls arbitrary: ls' E) (auto simp: bind_res_eq_Inr)

lemma forwardPropagation_ok:
  assumes "nn_ok n r N" "mat_wf n c X"
  shows "\<exists>N' P rnd'. forwardPropagation C rnd N X = Inr (N', P, rnd') \<and> mat_wf r c P \<and> same_setup N N' \<and>
    stack (\<lambda>n r l. layer_ok n r l \<and> layer_ready n r c l) n (nn_layers N') r"
  using dense.forward_stack [OF assms(1)[unfolded nn_ok_def] assms(2), of C rnd]
  by (auto simp: forwardPropagation_def same_setup_def dest: forward_layers_length)

lemma backwardPropagation_ok:
  assumes "stack (\<lambda>n r l. layer_ok n r l \<and> layer_ready n r c l) n (nn_layers N) r" "mat_wf r c D" "0 < c"
  shows "\<exists>N' E. backwardPropagation C N D = Inr (N', E) \<and> nn_ok n r N' \<and> same_setup N N' \<and> mat_wf n c E"
  using dense.backward_stack [OF assms, of C]
  by (auto simp: backwardPropagation_def nn_ok_def same_setup_def dest: backward_layers_length)

lemma train_batch_ok:
  assumes ok: "nn_ok n r N" and x: "mat_wf n c x" and c: "0 < c"
    and fit: "targets_fit C (nn_lossFunction N) r c t" and t: "t \<noteq> []"
  shows "\<exists>N' rnd' a' k'. train_batch C (N, rnd, a, k) (x, t) = Inr (N', rnd', a', k') \<and>
    nn_ok n r N' \<and> same_setup N N'"
proof -
  have r: "0 < r" using ok by (rule nn_ok_pos)
  obtain N1 P rnd1 where f: "forwardPropagation C rnd N x = Inr (N1, P, rnd1)" "mat_wf r c P"
    "same_setup N N1" "stack (\<lambda>n r l. layer_ok n r l \<and> layer_ready n r c l) n (nn_layers N1) r"
    using forwardPropagation_ok [OF ok x] by blast
  have L: "nn_lossFunction N1 = nn_lossFunction N" using f(3) by (simp add: same_setup_def)
  obtain acc where "accuracy C P t (nn_lossFunction N) = Inr acc"
    using accuracy_defined [OF f(2) r fit] by blast
  moreover obtain v where "calculateLoss_m C (nn_lossFunction N) P t = Inr v"
    using losses.loss_defined [OF f(2) fit r] by blast
  moreover obtain D where D: "lossDerivative_m C (nn_lossFunction N) P t = Inr D" "mat_wf r c D"
    using losses.deriv_shape [OF f(2) fit r] by blast
  moreover obtain N2 E where b: "backwardPropagation C N1 D = Inr (N2, E)" "nn_ok n r N2" "same_setup N1 N2"
    using backwardPropagation_ok [OF f(4) D(2) c] by blast
  moreover have "at_v t 0 = Inr (t ! 0)" using t by simp
  ultimately show ?thesis
    using f L same_setup_trans [OF f(3) b(3)] by (simp add: train_batch_def)
qed

lemma train_batches_ok:
  fixes C :: "'a::{zero,one,plus,minus,uminus,times,inverse,ord} cxx"
  assumes "nn_ok n r N"
    and "\<And>x t. (x, t) \<in> set bs \<Longrightarrow>
      \<exists>c. 0 < c \<and> mat_wf n c x \<and> targets_fit C (nn_lossFunction N) r c t \<and> t \<noteq> []"
  shows "\<exists>N' rnd' a' k'. fold_res (train_batch C) (N, rnd, a, k) bs = Inr (N', rnd', a', k') \<and>
    nn_ok n r N' \<and> same_setup N N'"
proof -
  let ?P = "\<lambda>(N', rnd' :: int source, a' :: 'a, k' :: 'a). nn_ok n r N' \<and> same_setup N N'"
  have "\<exists>t. fold_res (train_batch C) (N, rnd, a, k) bs = Inr t \<and> ?P t"
  proof (rule fold_res_total)
    show "?P (N, rnd, a, k)" using assms(1) by simp
    fix s b assume b: "b \<in> set bs" and s: "?P s"
    obtain x t where xt: "b = (x, t)" by (cases b)
    obtain N1 rnd1 a1 k1 where s': "s = (N1, rnd1, a1, k1)" by (cases s)
    have ok: "nn_ok n r N1" "same_setup N N1" using s s' by simp_all
    then have L: "nn_lossFunction N1 = nn_lossFunction N" by (simp add: same_setup_def)
    obtain c where "0 < c" "mat_wf n c x" "targets_fit C (nn_lossFunction N) r c t" "t \<noteq> []"
      using assms(2) b xt by blast
    with train_batch_ok [OF ok(1), of c x C t rnd1 a1 k1] L ok(2) same_setup_trans
    show "\<exists>s'. train_batch C s b = Inr s' \<and> ?P s'" unfolding xt s' by fastforce
  qed
  then show ?thesis by auto
qed

lemma train_epochs_ok:
  assumes "nn_ok n r N"
    and "\<And>x t. (x, t) \<in> set bs \<Longrightarrow>
      \<exists>c. 0 < c \<and> mat_wf n c x \<and> targets_fit C (nn_lossFunction N) r c t \<and> t \<noteq> []"
  shows "\<exists>N' rnd' a msgs. for_acc e (N, rnd, 0, []) (train_epoch C bs ws) = Inr (N', rnd', a, msgs) \<and>
    nn_ok n r N' \<and> same_setup N N' \<and> length msgs = (if ws then e else 0)"
proof (induction e)
  case 0
  show ?case using assms(1) by simp
next
  case (Suc e)
  then obtain N1 rnd1 a1 msgs where 1: "for_acc e (N, rnd, 0, []) (train_epoch C bs ws) = Inr (N1, rnd1, a1, msgs)"
    "nn_ok n r N1" "same_setup N N1" "length msgs = (if ws then e else 0)" by blast
  from 1(3) have L: "nn_lossFunction N1 = nn_lossFunction N" by (simp add: same_setup_def)
  obtain N2 rnd2 a2 k2 where 2: "fold_res (train_batch C) (N1, rnd1, 0, 0) bs = Inr (N2, rnd2, a2, k2)"
    "nn_ok n r N2" "same_setup N1 N2"
    using train_batches_ok [OF 1(2), of bs C rnd1 0 0] assms(2) L by auto
  show ?case
    using 1 2 same_setup_trans [OF 1(3) 2(3)] by (auto simp: for_acc_Suc train_epoch_def Let_def)
qed

section \<open>Normalisation\<close>

lemma centring_loop:
  "foldl (\<lambda>(centred, squares) val. (centred @ [val - mean], squares + (val - mean) * (val - mean))) (xs, s) f =
   (xs @ map (\<lambda>v. v - mean) f, foldl (\<lambda>s v. s + (v - mean) * (v - mean)) s f)"
  by (induction f arbitrary: xs s) simp_all

lemma normalize_feature_length: "length (fst (normalize_feature C m f)) = length f"
  by (simp add: normalize_feature_def Let_def centring_loop)

lemma normalize_training_eq:
  assumes "mat_wf n m X" "0 < n"
  shows "normalize C N X True =
    (let fs = map (normalize_feature C (int m)) X
     in Inr (N\<lparr>nn_means := nn_means N @ map (\<lambda>(_, mean, _). mean) fs,
               nn_stdevs := nn_stdevs N @ map (\<lambda>(_, _, stdev). stdev) fs\<rparr>, map fst fs))"
proof -
  have "at_v X 0 = Inr (X ! 0)" "length (X ! 0) = m" using assms by simp_all
  then show ?thesis by (simp add: normalize_def Let_def)
qed

lemma normalized_shape: "mat_wf n m X \<Longrightarrow> mat_wf n m (map fst (map (normalize_feature C k) X))"
  by (rule mat_wfI) (simp_all add: normalize_feature_length)

lemma normalize_training_ok:
  assumes "mat_wf n m X" "0 < n"
  shows "\<exists>N' X'. normalize C N X True = Inr (N', X') \<and> mat_wf n m X' \<and> nn_layers N' = nn_layers N \<and>
    nn_lossFunction N' = nn_lossFunction N \<and>
    (\<exists>ms sds. nn_means N' = nn_means N @ ms \<and> nn_stdevs N' = nn_stdevs N @ sds \<and>
      length ms = n \<and> length sds = n)"
  using normalized_shape [OF assms(1), of C "int m"] assms(1)
  by (simp add: normalize_training_eq [OF assms] Let_def)

section \<open>Training returns\<close>

lemma train_total:
  assumes ok: "nn_ok n r N" and X: "mat_wf n m X" "0 < n" "0 < m" and T: "mat_wf k m T" "T \<noteq> []"
    and fit: "targets_fit C (nn_lossFunction N) r m T"
    and mb: "0 < mb" "int m + int mb \<le> INT_MAX" and epochs: "epochNum < INT_MAX"
  shows "\<exists>N' rnd' acc msgs. train C rnd N X T epochNum (int mb) ws = Some (Inr (N', rnd', acc, msgs)) \<and>
    nn_ok n r N' \<and> nn_lossFunction N' = nn_lossFunction N \<and>
    length (nn_layers N') = length (nn_layers N) \<and>
    length msgs = (if ws then nat epochNum else 0) \<and>
    (\<exists>ms sds. nn_means N' = nn_means N @ ms \<and> nn_stdevs N' = nn_stdevs N @ sds \<and>
      length ms = n \<and> length sds = n)"
proof -
  obtain N0 X' where norm: "normalize C N X True = Inr (N0, X')" and X': "mat_wf n m X'"
    and N0: "nn_layers N0 = nn_layers N" "nn_lossFunction N0 = nn_lossFunction N"
      "\<exists>ms sds. nn_means N0 = nn_means N @ ms \<and> nn_stdevs N0 = nn_stdevs N @ sds \<and> length ms = n \<and> length sds = n"
    using normalize_training_ok [OF X(1,2), of C N] by blast
  let ?bs = "batches_of m mb X' T"
  have gen: "miniBatchGenerator T X' (int mb) = Some (Inr ?bs)"
    by (rule miniBatchGenerator_eq [OF X' X(2) T(1) mb])
  have ok': "nn_ok n r N0" using ok N0(1) by (simp add: nn_ok_def)
  have batch: "\<exists>c. 0 < c \<and> mat_wf n c x \<and> targets_fit C (nn_lossFunction N0) r c t \<and> t \<noteq> []"
    if mem: "(x, t) \<in> set ?bs" for x t
  proof -
    obtain s e where "s < e" "e \<le> m" "x = cols s e X'" "t = cols s e T"
      using batches_of_shape [OF X' T(1) mb(1) X(3) mem] by blast
    then show ?thesis
      using cols_wf [OF X', of e s] targets_fit_cols [OF fit T(1), of e s] T(2) N0(2)
      by (intro exI [of _ "e - s"]) (simp add: cols_def)
  qed
  obtain N' rnd' a msgs where run: "for_acc (nat epochNum) (N0, rnd, 0, []) (train_epoch C ?bs ws) = Inr (N', rnd', a, msgs)"
    and N': "nn_ok n r N'" "same_setup N0 N'" "length msgs = (if ws then nat epochNum else 0)"
    using train_epochs_ok [OF ok' batch, where e = "nat epochNum" and ws = ws and rnd = rnd] by blast
  have "add_int (max 0 epochNum) 1 = Inr (max 0 epochNum + 1)"
    using epochs by (simp add: add_int_def INT_MIN_def INT_MAX_def)
  with run have "train C rnd N X T epochNum (int mb) ws = Some (Inr (N', rnd', a, msgs))"
    by (simp add: train_def norm gen)
  with N' N0 show ?thesis by (auto simp: same_setup_def)
qed

text \<open>C3: Training a well-formed network on data that fits it (\<open>n\<close> rows of \<open>m > 0\<close> samples, targets
  that the loss can read) with a positive batch size returns a value: no exception, no
  access outside a vector, no infinite loop, whatever the floating-point values are. The
  network stays well-formed with the same layer count and loss, one message per epoch is
  sent when there is a connection, and the statistics of the \<open>n\<close> features are appended to
  those the object had.\<close>

theorem train_returns:
  assumes ok: "nn_ok n r N" and X: "mat_wf n m X" "0 < n" "0 < m" and T: "mat_wf k m T" "T \<noteq> []"
    and fit: "targets_fit C (nn_lossFunction N) r m T"
    and mb: "0 < mb" "int m + int mb \<le> INT_MAX" and epochs: "epochNum < INT_MAX"
  shows "\<exists>N' rnd' acc msgs. train C rnd N X T epochNum (int mb) ws = Some (Inr (N', rnd', acc, msgs)) \<and>
    nn_ok n r N' \<and> nn_lossFunction N' = nn_lossFunction N \<and>
    length (nn_layers N') = length (nn_layers N) \<and>
    length msgs = (if ws then nat epochNum else 0) \<and>
    (\<exists>ms sds. nn_means N' = nn_means N @ ms \<and> nn_stdevs N' = nn_stdevs N @ sds \<and>
      length ms = n \<and> length sds = n)"
  by (rule train_total [OF assms])

lemma example_labels: "class_labels real_cxx 2 3 [[0, 1, 0]] [0, 1, 0]"
  by (auto simp: class_labels_def real_to_int_def INT_MIN_def INT_MAX_def less_Suc_eq numeral_3_eq_3)

theorem train_returns_witness:
  "\<exists>N' rnd' acc msgs. train real_cxx (\<lambda>_. 0) example_net [[5, 6, 7]] [[0, 1, 0]] 4 2 True =
      Some (Inr (N', rnd', acc, msgs)) \<and> nn_ok (Suc 0) 2 N' \<and> length msgs = 4"
proof -
  have fit: "targets_fit real_cxx (nn_lossFunction example_net) 2 3 [[0, 1, 0]]"
    using example_labels by (auto simp: example_net_def)
  have "int 3 + int 2 \<le> INT_MAX" "(4::int) < INT_MAX" by (simp_all add: INT_MAX_def)
  with train_returns [OF example_net_ok _ _ _ _ _ fit, of "[[5, 6, 7]]" 1 2 4 "\<lambda>_. 0" True]
  show ?thesis by auto
qed

end
