(* ===== verification/Normalisation.thy ===== *)
theory Normalisation
  imports TrainFacts
begin

text \<open>
  \<open>NeuralNetwork::normalize\<close>: what the training call computes over the reals, and how the
  call without \<open>training\<close> relates to it, value for value.
\<close>

definition feature_mean :: "'a cxx \<Rightarrow> int \<Rightarrow> 'a::{zero,plus,inverse} vec \<Rightarrow> 'a" where
  "feature_mean C m f = foldl (\<lambda>sum val. sum + val) 0 f / c_int C m"

definition feature_stdev :: "'a cxx \<Rightarrow> int \<Rightarrow> 'a::{zero,plus,minus,times,inverse} vec \<Rightarrow> 'a" where
  "feature_stdev C m f =
     (let mean = feature_mean C m f
      in c_sqrt C (foldl (\<lambda>s v. s + (v - mean) * (v - mean)) 0 f / c_int C m))"

text \<open>What both calls do to one value.\<close>

definition standardise :: "'a \<Rightarrow> 'a \<Rightarrow> 'a::{zero,minus,inverse,ord} \<Rightarrow> 'a" where
  "standardise mean stdev val = (if num_true stdev then (val - mean) / stdev else val - mean)"

lemma normalize_feature_eq:
  "normalize_feature C m f =
    (map (standardise (feature_mean C m f) (feature_stdev C m f)) f, feature_mean C m f, feature_stdev C m f)"
  by (simp add: normalize_feature_def feature_mean_def feature_stdev_def Let_def centring_loop standardise_def)

lemma normalize_training:
  assumes "mat_wf n m X" "0 < n"
  shows "normalize C N X True =
    Inr (N\<lparr>nn_means := nn_means N @ map (feature_mean C (int m)) X,
           nn_stdevs := nn_stdevs N @ map (feature_stdev C (int m)) X\<rparr>,
         map (\<lambda>f. map (standardise (feature_mean C (int m) f) (feature_stdev C (int m) f)) f) X)"
  by (simp add: normalize_training_eq [OF assms] Let_def normalize_feature_eq comp_def)

lemma normalize_apply:
  assumes "length X \<le> length (nn_means N)" "length X \<le> length (nn_stdevs N)"
  shows "normalize C N X False =
    Inr (N, map (\<lambda>i. map (standardise (nn_means N ! i) (nn_stdevs N ! i)) (X ! i)) [0..<length X])"
proof -
  have "map_res (\<lambda>val. bind_res (at_v (nn_stdevs N) i) (\<lambda>stdev. bind_res (at_v (nn_means N) i) (\<lambda>mean.
      Inr (if num_true stdev then (val - mean) / stdev else val - mean)))) (X ! i) =
    Inr (map (standardise (nn_means N ! i) (nn_stdevs N ! i)) (X ! i))" if "i < length X" for i
    using assms that by (intro map_res_pure) (simp add: standardise_def)
  then show ?thesis by (simp add: normalize_def for_vec_pure)
qed

section \<open>Training statistics applied to new data\<close>

text \<open>On an object without statistics, the statistics that the training call leaves are those
  it used: applying them without \<open>training\<close> to the same data gives the same matrix, value
  for value in floating point, and changes nothing in the object.\<close>

theorem normalize_replays_training:
  assumes "mat_wf n m X" "0 < n" "nn_means N = []" "nn_stdevs N = []"
  shows "\<exists>N' Y. normalize C N X True = Inr (N', Y) \<and> normalize C N' X False = Inr (N', Y)"
proof -
  let ?f = "\<lambda>f. map (standardise (feature_mean C (int m) f) (feature_stdev C (int m) f)) f"
  let ?N = "N\<lparr>nn_means := map (feature_mean C (int m)) X, nn_stdevs := map (feature_stdev C (int m)) X\<rparr>"
  have "map (\<lambda>i. map (standardise (nn_means ?N ! i) (nn_stdevs ?N ! i)) (X ! i)) [0..<length X] = map ?f X"
    by (rule nth_equalityI) simp_all
  then have "normalize C ?N X False = Inr (?N, map ?f X)"
    by (subst normalize_apply) simp_all
  then show ?thesis
    using assms(3,4) by (simp add: normalize_training [OF assms(1,2)])
qed

theorem normalize_replays_training_witness:
  "\<exists>N' Y. normalize real_cxx example_net [[1, 3]] True = Inr (N', Y) \<and> normalize real_cxx N' [[1, 3]] False = Inr (N', Y)"
  by (rule normalize_replays_training [of 1 2]) (simp_all add: example_net_def)

text \<open>On an object that already has statistics for \<open>n\<close> features, a second training call does not
  replace them: the new ones go behind the old ones, and later data is normalised with the
  statistics of the first training data.\<close>

theorem second_training_keeps_old_statistics:
  assumes "mat_wf n m X" "0 < n" "n \<le> length (nn_means N)" "n \<le> length (nn_stdevs N)" "length Z = n"
  shows "\<exists>N' Y. normalize C N X True = Inr (N', Y) \<and>
    map_sum id snd (normalize C N' Z False) = map_sum id snd (normalize C N Z False) \<and>
    nn_means N' ! length (nn_means N) = feature_mean C (int m) (X ! 0)"
proof -
  let ?N = "N\<lparr>nn_means := nn_means N @ map (feature_mean C (int m)) X,
           nn_stdevs := nn_stdevs N @ map (feature_stdev C (int m)) X\<rparr>"
  have "nn_means ?N ! i = nn_means N ! i" "nn_stdevs ?N ! i = nn_stdevs N ! i" if "i < n" for i
    using assms(3,4) that by (simp_all add: nth_append)
  then have "map_sum id snd (normalize C ?N Z False) = map_sum id snd (normalize C N Z False)"
    using assms(3-5) by (simp add: normalize_apply)
  moreover have "nn_means ?N ! length (nn_means N) = feature_mean C (int m) (X ! 0)"
    using assms(1,2) by (cases X) (auto simp: nth_append)
  ultimately show ?thesis by (simp add: normalize_training [OF assms(1,2)])
qed

theorem second_training_keeps_old_statistics_witness:
  "\<exists>N' Y. normalize real_cxx (example_net\<lparr>nn_means := [7], nn_stdevs := [2]\<rparr>) [[1, 3]] True = Inr (N', Y) \<and>
    map_sum id snd (normalize real_cxx N' [[9]] False) =
    map_sum id snd (normalize real_cxx (example_net\<lparr>nn_means := [7], nn_stdevs := [2]\<rparr>) [[9]] False) \<and>
    nn_means N' ! 1 = feature_mean real_cxx 2 [1, 3]"
  using second_training_keeps_old_statistics [of 1 2 "[[1, 3]]" "example_net\<lparr>nn_means := [7], nn_stdevs := [2]\<rparr>" "[[9]]" real_cxx]
  by simp

section \<open>The training call over the reals\<close>

lemma foldl_sum_list: "foldl (\<lambda>s v. s + g v) a xs = a + sum_list (map g xs)"
  for a :: "'a::monoid_add"
  by (induction xs arbitrary: a) (simp_all add: add.assoc)

lemma feature_mean_real: "feature_mean real_cxx m f = sum_list f / of_int m"
  using foldl_sum_list [of "\<lambda>v. v" 0 f] by (simp add: feature_mean_def)

lemma feature_stdev_real:
  "feature_stdev real_cxx m f =
   sqrt (sum_list (map (\<lambda>v. (v - feature_mean real_cxx m f)\<^sup>2) f) / of_int m)"
  using foldl_sum_list [of "\<lambda>v. (v - feature_mean real_cxx m f) * (v - feature_mean real_cxx m f)" 0 f]
  by (simp add: feature_stdev_def Let_def power2_eq_square)

lemma sum_list_centred:
  fixes f :: "real list"
  assumes "f \<noteq> []"
  shows "sum_list (map (\<lambda>v. v - feature_mean real_cxx (int (length f)) f) f) = 0"
  using assms by (simp add: sum_list_subtractf feature_mean_real sum_list_triv)

text \<open>C8: Over the reals, the training call gives every feature mean 0, and variance 1 unless the
  feature is constant, in which case all its values become 0 (there is no division by a
  zero deviation).\<close>

theorem normalize_standardises:
  assumes "mat_wf n m X" "0 < n" "0 < m"
  shows "\<exists>N' Y. normalize real_cxx N X True = Inr (N', Y) \<and> mat_wf n m Y \<and>
    (\<forall>i<n. sum_list (Y ! i) = 0 \<and>
      (if \<exists>v. set (X ! i) = {v} then set (Y ! i) = {0} else sum_list (map (\<lambda>v. v\<^sup>2) (Y ! i)) = real m))"
proof -
  define Y where "Y = map (\<lambda>f. map (standardise (feature_mean real_cxx (int m) f)
    (feature_stdev real_cxx (int m) f)) f) X"
  have wf: "mat_wf n m Y" unfolding Y_def using assms(1) by (intro mat_wfI) simp_all
  have "sum_list (Y ! i) = 0 \<and> (if \<exists>v. set (X ! i) = {v} then set (Y ! i) = {0}
      else sum_list (map (\<lambda>v. v\<^sup>2) (Y ! i)) = real m)" if i: "i < n" for i
  proof -
    define f where "f = X ! i"
    define \<mu> where "\<mu> = feature_mean real_cxx (int m) f"
    define \<sigma> where "\<sigma> = feature_stdev real_cxx (int m) f"
    define S where "S = sum_list (map (\<lambda>v. (v - \<mu>)\<^sup>2) f)"
    have "length f = m" using assms(1) i by (simp add: f_def)
    with assms(3) have m: "length f = m" "f \<noteq> []" by auto
    have Yi: "Y ! i = map (standardise \<mu> \<sigma>) f"
      using assms(1) i by (simp add: Y_def f_def \<mu>_def \<sigma>_def)
    have sum0: "sum_list (map (\<lambda>v. v - \<mu>) f) = 0"
      using sum_list_centred [OF m(2)] by (simp add: m(1) \<mu>_def)
    have \<sigma>: "\<sigma> = sqrt (S / real m)" by (simp add: \<sigma>_def feature_stdev_real S_def \<mu>_def)
    have S0: "0 \<le> S" unfolding S_def by (rule sum_list_nonneg) auto
    have const: "S = 0 \<longleftrightarrow> (\<forall>v\<in>set f. v = \<mu>)"
      unfolding S_def by (subst sum_list_nonneg_eq_0_iff) auto
    have single: "(\<exists>v. set f = {v}) \<longleftrightarrow> S = 0"
    proof
      assume "\<exists>v. set f = {v}"
      then obtain v where v: "set f = {v}" by blast
      then have "f = replicate m v" by (metis m(1) replicate_length_same singletonD)
      then have "\<mu> = v" using assms(3) by (simp add: \<mu>_def feature_mean_real sum_list_replicate)
      with v const show "S = 0" by simp
    next
      assume "S = 0"
      with const m(2) have "set f = {\<mu>}" by (cases f) auto
      then show "\<exists>v. set f = {v}" by blast
    qed
    show ?thesis
    proof (cases "S = 0")
      case True
      then have "standardise \<mu> \<sigma> = (\<lambda>v. v - \<mu>)" by (simp add: standardise_def \<sigma> fun_eq_iff)
      moreover from True const m(2) have "set f = {\<mu>}" by (cases f) auto
      ultimately show ?thesis using True single sum0 by (simp add: Yi f_def [symmetric])
    next
      case False
      then have pos: "0 < \<sigma>" using S0 assms(3) by (simp add: \<sigma>)
      have st: "standardise \<mu> \<sigma> = (\<lambda>v. (v - \<mu>) / \<sigma>)"
        using pos by (simp add: standardise_def fun_eq_iff)
      have div: "sum_list (map (\<lambda>v. g v / a) xs) = sum_list (map g xs) / a" for g :: "real \<Rightarrow> real" and a xs
        by (induction xs) (simp_all add: add_divide_distrib)
      have "sum_list (Y ! i) = 0" using sum0 by (simp add: Yi st div)
      moreover have "sum_list (map (\<lambda>v. v\<^sup>2) (Y ! i)) = S / \<sigma>\<^sup>2"
        by (simp add: Yi comp_def st power_divide div S_def)
      moreover have "\<sigma>\<^sup>2 = S / real m" using S0 by (simp add: \<sigma>)
      ultimately show ?thesis using False single assms(3) by (simp add: f_def [symmetric])
    qed
  qed
  with wf show ?thesis
    by (simp add: normalize_training [OF assms(1,2)] Y_def [symmetric])
qed

theorem normalize_standardises_witness:
  "\<exists>N' Y. normalize real_cxx example_net [[1, 3], [4, 4]] True = Inr (N', Y) \<and>
    sum_list (map (\<lambda>v. v\<^sup>2) (Y ! 0)) = 2 \<and> set (Y ! 1) = {0}"
proof -
  have "\<not> (\<exists>v. {1, 3 :: real} = {v})" by (metis insertCI one_eq_numeral_iff semiring_norm(86) singletonD)
  moreover have "\<exists>v. {4 :: real, 4} = {v}" by simp
  ultimately show ?thesis
    using normalize_standardises [of 2 2 "[[1, 3], [4, 4]]" example_net]
    by (auto simp: less_2_cases_iff all_conj_distrib split: if_splits)
qed

end
