(* ===== verification/Gradient.thy ===== *)
theory Gradient
  imports LayerFacts
begin

text \<open>
  Back-propagation through one dense layer, over the reals. A gradient of a function of a
  matrix is stated along curves: a matrix \<open>D\<close> is the gradient of \<open>F\<close> at \<open>A\<close> if for every
  matrix-valued curve through \<open>A\<close> with entrywise derivatives \<open>M'\<close>, \<open>F\<close> along the curve has
  the derivative given by the sum of \<open>D\<close> times \<open>M'\<close>. This determines \<open>D\<close> (its entries are the
  partial derivatives) and composes by the chain rule.
\<close>

section \<open>Curves and gradients\<close>

definition curve :: "nat \<Rightarrow> nat \<Rightarrow> (real \<Rightarrow> real mat) \<Rightarrow> (nat \<Rightarrow> nat \<Rightarrow> real) \<Rightarrow> real \<Rightarrow> bool" where
  "curve r c M M' t \<longleftrightarrow> (\<forall>s. mat_wf r c (M s)) \<and>
     (\<forall>i<r. \<forall>j<c. ((\<lambda>s. M s ! i ! j) has_real_derivative M' i j) (at t))"

definition curve_v :: "nat \<Rightarrow> (real \<Rightarrow> real vec) \<Rightarrow> (nat \<Rightarrow> real) \<Rightarrow> real \<Rightarrow> bool" where
  "curve_v r b b' t \<longleftrightarrow> (\<forall>s. length (b s) = r) \<and>
     (\<forall>i<r. ((\<lambda>s. b s ! i) has_real_derivative b' i) (at t))"

definition inner :: "nat \<Rightarrow> nat \<Rightarrow> real mat \<Rightarrow> (nat \<Rightarrow> nat \<Rightarrow> real) \<Rightarrow> real" where
  "inner r c D M' = (\<Sum>i<r. \<Sum>j<c. D ! i ! j * M' i j)"

definition inner_v :: "nat \<Rightarrow> real vec \<Rightarrow> (nat \<Rightarrow> real) \<Rightarrow> real" where
  "inner_v r d b' = (\<Sum>i<r. d ! i * b' i)"

definition is_gradient :: "nat \<Rightarrow> nat \<Rightarrow> (real mat \<Rightarrow> real) \<Rightarrow> real mat \<Rightarrow> real mat \<Rightarrow> bool" where
  "is_gradient r c F A D \<longleftrightarrow>
     (\<forall>M M' t. curve r c M M' t \<and> M t = A \<longrightarrow>
       ((\<lambda>s. F (M s)) has_real_derivative inner r c D M') (at t))"

lemma is_gradientD:
  "is_gradient r c F (M t) D \<Longrightarrow> curve r c M M' t \<Longrightarrow>
   ((\<lambda>s. F (M s)) has_real_derivative inner r c D M') (at t)"
  by (simp add: is_gradient_def)

lemma curve_const: "mat_wf r c A \<Longrightarrow> curve r c (\<lambda>_. A) (\<lambda>_ _. 0) t"
  by (simp add: curve_def)

lemma curve_v_const: "length b = r \<Longrightarrow> curve_v r (\<lambda>_. b) (\<lambda>_. 0) t"
  by (simp add: curve_v_def)

lemma curve_wf: "curve r c M M' t \<Longrightarrow> mat_wf r c (M s)"
  by (simp add: curve_def)

lemma inner_zero [simp]: "inner r c D (\<lambda>_ _. 0) = 0"
  by (simp add: inner_def)

lemma inner_v_zero [simp]: "inner_v r d (\<lambda>_. 0) = 0"
  by (simp add: inner_v_def)

text \<open>The entries of a gradient are the partial derivatives.\<close>

lemma gradient_partial:
  assumes "is_gradient r c F A D" "mat_wf r c A" "i < r" "j < c"
  shows "((\<lambda>x. F (A[i := (A ! i)[j := x]])) has_real_derivative D ! i ! j) (at (A ! i ! j))"
proof -
  let ?M = "\<lambda>x. A[i := (A ! i)[j := x]]" and ?M' = "\<lambda>p q. num_of_bool (p = i \<and> q = j) :: real"
  have cell: "?M x ! p ! q = (if p = i \<and> q = j then x else A ! p ! q)" if "p < r" "q < c" for x p q
    using assms(2-4) that by (cases "p = i"; cases "q = j") simp_all
  have "curve r c ?M ?M' (A ! i ! j)"
    unfolding curve_def
  proof (intro conjI allI impI)
    show "mat_wf r c (?M s)" for s using assms(2-4) by (intro mat_wf_update) simp_all
    fix p q assume "p < r" "q < c"
    then show "((\<lambda>s. ?M s ! p ! q) has_real_derivative ?M' p q) (at (A ! i ! j))"
      by (cases "p = i"; cases "q = j") (simp_all add: cell)
  qed
  moreover have "?M (A ! i ! j) = A" by simp
  ultimately have "((\<lambda>s. F (?M s)) has_real_derivative inner r c D ?M') (at (A ! i ! j))"
    using assms(1) by (intro is_gradientD) simp_all
  moreover have "(\<Sum>q<c. D ! p ! q * ?M' p q) = (if p = i then D ! i ! j else 0)" for p
    using assms(4) by (cases "p = i") (simp_all add: num_of_bool_def if_distrib cong: if_cong)
  then have "inner r c D ?M' = D ! i ! j"
    using assms(3) by (simp add: inner_def)
  ultimately show ?thesis by simp
qed

section \<open>The layer as a function\<close>

text \<open>The output of the layer without dropout; for softmax, the weighted inputs.\<close>

definition layer_out :: "real dense \<Rightarrow> nat \<Rightarrow> nat \<Rightarrow> real mat \<Rightarrow> real mat" where
  "layer_out L r c X = mat_of r c (\<lambda>i j. activate real_cxx (dl_activationFunction L) (weighted L X i j))"

lemma predict_layer_out:
  "layer_ok n r L \<Longrightarrow> mat_wf n c X \<Longrightarrow> dense_predict real_cxx L X = Inr (layer_out L r c X)"
  by (simp add: dense_predict_eq layer_out_def)

text \<open>Where the activation is differentiable; softmax passes its argument through.\<close>

definition smooth_layer :: "real dense \<Rightarrow> nat \<Rightarrow> nat \<Rightarrow> real mat \<Rightarrow> bool" where
  "smooth_layer L r c X \<longleftrightarrow>
     (\<forall>i<r. \<forall>j<c. dl_activationFunction L = Softmax \<or> smooth_at (dl_activationFunction L) (weighted L X i j))"

definition slope :: "real dense \<Rightarrow> real mat \<Rightarrow> nat \<Rightarrow> nat \<Rightarrow> real" where
  "slope L X i j =
     (if dl_activationFunction L = Softmax then 1
      else derivative real_cxx (dl_activationFunction L)
        (activate real_cxx (dl_activationFunction L) (weighted L X i j)))"

lemma activate_has_deriv:
  assumes "dl_activationFunction L = Softmax \<or> smooth_at (dl_activationFunction L) (weighted L X i j)"
  shows "(activate real_cxx (dl_activationFunction L) has_real_derivative slope L X i j) (at (weighted L X i j))"
proof (cases "dl_activationFunction L = Softmax")
  case True
  then show ?thesis by (simp add: slope_def Softmax_activate_def [abs_def])
next
  case False
  with assms act_deriv.has_deriv show ?thesis by (simp add: slope_def)
qed

text \<open>The derivative of the weighted inputs when weights, biases and input move.\<close>

definition dweighted ::
  "real dense \<Rightarrow> nat \<Rightarrow> real mat \<Rightarrow> (nat \<Rightarrow> nat \<Rightarrow> real) \<Rightarrow> (nat \<Rightarrow> real) \<Rightarrow> (nat \<Rightarrow> nat \<Rightarrow> real) \<Rightarrow> nat \<Rightarrow> nat \<Rightarrow> real" where
  "dweighted L n X W' b' X' i j = (\<Sum>k<n. W' i k * X ! k ! j + dl_w L ! i ! k * X' k j) + b' i"

lemma layer_curve:
  assumes ok: "layer_ok n r L"
    and W: "curve r n W W' t" "W t = dl_w L" and b: "curve_v r b b' t" "b t = dl_b L"
    and X: "curve n c X X' t" and smooth: "smooth_layer L r c (X t)"
  shows "curve r c (\<lambda>s. layer_out (L\<lparr>dl_w := W s, dl_b := b s\<rparr>) r c (X s))
    (\<lambda>i j. slope L (X t) i j * dweighted L n (X t) W' b' X' i j) t"
  unfolding curve_def
proof (intro conjI allI impI)
  fix s show "mat_wf r c (layer_out (L\<lparr>dl_w := W s, dl_b := b s\<rparr>) r c (X s))"
    by (simp add: layer_out_def)
next
  fix i j assume ij: "i < r" "j < c"
  let ?L = "\<lambda>s. L\<lparr>dl_w := W s, dl_b := b s\<rparr>"
  have len: "length (X s) = n" for s using mat_wf_length [OF curve_wf [OF X]] .
  have w: "weighted (?L s) (X s) i j = (\<Sum>k<n. W s ! i ! k * X s ! k ! j) + b s ! i" for s
    by (simp add: weighted_def loop_sum_eq_sum len)
  have "((\<lambda>s. weighted (?L s) (X s) i j) has_real_derivative dweighted L n (X t) W' b' X' i j) (at t)"
    unfolding w dweighted_def
  proof (rule DERIV_add)
    have "((\<lambda>s. \<Sum>k<n. W s ! i ! k * X s ! k ! j) has_real_derivative
        (\<Sum>k<n. W' i k * X t ! k ! j + X' k j * W t ! i ! k)) (at t)"
    proof (rule DERIV_sum)
      fix k assume "k \<in> {..<n}"
      then have "((\<lambda>s. W s ! i ! k) has_real_derivative W' i k) (at t)"
        "((\<lambda>s. X s ! k ! j) has_real_derivative X' k j) (at t)"
        using W(1) X ij by (auto simp: curve_def)
      then show "((\<lambda>s. W s ! i ! k * X s ! k ! j) has_real_derivative
          W' i k * X t ! k ! j + X' k j * W t ! i ! k) (at t)"
        by (rule DERIV_mult)
    qed
    then show "((\<lambda>s. \<Sum>k<n. W s ! i ! k * X s ! k ! j) has_real_derivative
        (\<Sum>k<n. W' i k * X t ! k ! j + dl_w L ! i ! k * X' k j)) (at t)"
      by (simp add: W(2) mult.commute)
    show "((\<lambda>s. b s ! i) has_real_derivative b' i) (at t)"
      using b(1) ij by (simp add: curve_v_def)
  qed
  note dw = this
  have "weighted (?L t) (X t) i j = weighted L (X t) i j"
    by (simp add: W(2) b(2))
  then have "(activate real_cxx (dl_activationFunction L) has_real_derivative slope L (X t) i j)
      (at (weighted (?L t) (X t) i j))"
    using activate_has_deriv [of L "X t" i j] smooth ij by (simp add: smooth_layer_def)
  from DERIV_chain2 [OF this dw] ij
  show "((\<lambda>s. layer_out (?L s) r c (X s) ! i ! j) has_real_derivative
      slope L (X t) i j * dweighted L n (X t) W' b' X' i j) (at t)"
    by (simp add: layer_out_def)
qed

section \<open>The backward pass is the adjoint\<close>

text \<open>The state of the layer after a forward pass on \<open>X\<close> without dropout.\<close>

definition passed :: "nat \<Rightarrow> nat \<Rightarrow> real mat \<Rightarrow> real dense \<Rightarrow> bool" where
  "passed r c X L \<longleftrightarrow> \<not> dl_keepProb L < 1 \<and> dl_lambda L = 0 \<and> dl_aPrev L = X \<and>
     (dl_activationFunction L \<noteq> Softmax \<longrightarrow> dl_a L = layer_out L r c X)"

lemma back_dz_passed:
  assumes "passed r c X L" "i < r" "j < c"
  shows "back_dz real_cxx L D i j = slope L X i j * D ! i ! j"
  using assms by (simp add: back_dz_def back_da_def slope_def passed_def layer_out_def)

lemma back_w_passed: "passed r c X L \<Longrightarrow> back_w real_cxx L c i k = dl_w L ! i ! k"
  by (simp add: back_w_def passed_def)

text \<open>
  Moving weights, biases and input changes the output by the sum of \<open>dw\<close>, \<open>db\<close> and \<open>daPrev\<close>
  times the moves; \<open>dw\<close> and \<open>db\<close> are averages over the batch.
\<close>

lemma layer_adjoint:
  assumes passed: "passed r c X L" and c: "0 < c"
  shows "inner r c D (\<lambda>i j. slope L X i j * dweighted L n X W' b' X' i j) =
    inner n c (mat_of n c (back_daPrev real_cxx L r c D)) X' +
    real c * (inner r n (mat_of r n (back_dw real_cxx L c D)) W' +
              inner_v r (map (back_db real_cxx L c D) [0..<r]) b')"
proof -
  let ?z = "\<lambda>i j. slope L X i j * D ! i ! j"
  have aP: "dl_aPrev L = X" using passed by (simp add: passed_def)
  have dw: "real c * back_dw real_cxx L c D i k = (\<Sum>j<c. ?z i j * X ! k ! j)" if "i < r" for i k
    using c that by (simp add: back_dw_def loop_sum_eq_sum back_dz_passed [OF passed] aP)
  have db: "real c * back_db real_cxx L c D i = (\<Sum>j<c. ?z i j)" if "i < r" for i
    using c that by (simp add: back_db_def loop_sum_eq_sum back_dz_passed [OF passed])
  have dp: "back_daPrev real_cxx L r c D k j = (\<Sum>i<r. dl_w L ! i ! k * ?z i j)" if "j < c" for k j
    using that by (simp add: back_daPrev_def loop_sum_eq_sum back_dz_passed [OF passed] back_w_passed [OF passed])
  have W: "real c * inner r n (mat_of r n (back_dw real_cxx L c D)) W' =
      (\<Sum>i<r. \<Sum>k<n. (\<Sum>j<c. ?z i j * X ! k ! j) * W' i k)"
    by (simp add: inner_def sum_distrib_left dw flip: mult.assoc)
  have b: "real c * inner_v r (map (back_db real_cxx L c D) [0..<r]) b' = (\<Sum>i<r. (\<Sum>j<c. ?z i j) * b' i)"
    by (simp add: inner_v_def sum_distrib_left db flip: mult.assoc)
  have X: "inner n c (mat_of n c (back_daPrev real_cxx L r c D)) X' =
      (\<Sum>k<n. \<Sum>j<c. (\<Sum>i<r. dl_w L ! i ! k * ?z i j) * X' k j)"
    by (simp add: inner_def dp)
  have "inner r c D (\<lambda>i j. slope L X i j * dweighted L n X W' b' X' i j) =
      (\<Sum>i<r. \<Sum>j<c. ?z i j * dweighted L n X W' b' X' i j)"
    by (simp add: inner_def mult_ac)
  also have "\<dots> = (\<Sum>i<r. \<Sum>j<c. (\<Sum>k<n. ?z i j * (W' i k * X ! k ! j)) +
      (\<Sum>k<n. ?z i j * (dl_w L ! i ! k * X' k j)) + ?z i j * b' i)"
    by (simp add: dweighted_def sum.distrib distrib_left sum_distrib_left)
  also have "\<dots> = (\<Sum>i<r. \<Sum>j<c. \<Sum>k<n. ?z i j * (W' i k * X ! k ! j)) +
      (\<Sum>i<r. \<Sum>j<c. \<Sum>k<n. ?z i j * (dl_w L ! i ! k * X' k j)) + (\<Sum>i<r. \<Sum>j<c. ?z i j * b' i)"
    by (simp add: sum.distrib)
  also have "(\<Sum>i<r. \<Sum>j<c. \<Sum>k<n. ?z i j * (W' i k * X ! k ! j)) =
      (\<Sum>i<r. \<Sum>k<n. (\<Sum>j<c. ?z i j * X ! k ! j) * W' i k)"
  proof (rule sum.cong [OF refl])
    fix i
    have "(\<Sum>j<c. \<Sum>k<n. ?z i j * (W' i k * X ! k ! j)) = (\<Sum>k<n. \<Sum>j<c. ?z i j * (W' i k * X ! k ! j))"
      by (rule sum.swap)
    then show "(\<Sum>j<c. \<Sum>k<n. ?z i j * (W' i k * X ! k ! j)) = (\<Sum>k<n. (\<Sum>j<c. ?z i j * X ! k ! j) * W' i k)"
      by (simp add: sum_distrib_right sum_distrib_left mult_ac)
  qed
  also have "(\<Sum>i<r. \<Sum>j<c. \<Sum>k<n. ?z i j * (dl_w L ! i ! k * X' k j)) =
      (\<Sum>k<n. \<Sum>j<c. (\<Sum>i<r. dl_w L ! i ! k * ?z i j) * X' k j)"
  proof -
    have "(\<Sum>i<r. \<Sum>j<c. \<Sum>k<n. ?z i j * (dl_w L ! i ! k * X' k j)) =
        (\<Sum>j<c. \<Sum>i<r. \<Sum>k<n. ?z i j * (dl_w L ! i ! k * X' k j))" by (rule sum.swap)
    also have "\<dots> = (\<Sum>j<c. \<Sum>k<n. \<Sum>i<r. ?z i j * (dl_w L ! i ! k * X' k j))"
      by (intro sum.cong refl sum.swap)
    also have "\<dots> = (\<Sum>k<n. \<Sum>j<c. \<Sum>i<r. ?z i j * (dl_w L ! i ! k * X' k j))" by (rule sum.swap)
    finally show ?thesis by (simp add: sum_distrib_right sum_distrib_left mult_ac)
  qed
  also have "(\<Sum>i<r. \<Sum>j<c. ?z i j * b' i) = (\<Sum>i<r. (\<Sum>j<c. ?z i j) * b' i)"
    by (simp add: sum_distrib_right)
  finally show ?thesis by (simp add: W b X distrib_left)
qed

end
