(* ===== verification/Backprop.thy ===== *)
theory Backprop
  imports Gradient NetworkFacts
begin

text \<open>
  Back-propagation through the whole network, over the reals: the derivatives the layers
  hold after a forward and a backward pass are the gradients of the composed function.
\<close>

section \<open>The network as a function\<close>

definition net_out :: "real dense list \<Rightarrow> real mat \<Rightarrow> real mat" where
  "net_out Ls X = projr (predict_layers (dense_predict real_cxx) Ls X)"

abbreviation rows_of :: "'a dense \<Rightarrow> nat" where "rows_of L \<equiv> nat (dl_output_size L)"
abbreviation cols_of :: "'a dense \<Rightarrow> nat" where "cols_of L \<equiv> nat (dl_input_size L)"

lemma layer_ok_dims: "layer_ok n r L \<Longrightarrow> rows_of L = r \<and> cols_of L = n"
  by (simp add: layer_ok_def)

text \<open>
  Where the theorem below applies: no dropout and no L2 term, activations differentiable
  at the weighted inputs of \<open>X\<close>, and softmax in the last layer only.
\<close>

fun trainable :: "nat \<Rightarrow> real dense list \<Rightarrow> real mat \<Rightarrow> bool" where
  "trainable c [] X \<longleftrightarrow> True"
| "trainable c (L # Ls) X \<longleftrightarrow> \<not> dl_keepProb L < 1 \<and> dl_lambda L = 0 \<and> smooth_layer L (rows_of L) c X \<and>
     (dl_activationFunction L = Softmax \<longrightarrow> Ls = []) \<and> trainable c Ls (layer_out L (rows_of L) c X)"

lemma net_out_Cons:
  "layer_ok n r L \<Longrightarrow> mat_wf n c X \<Longrightarrow> net_out (L # Ls) X = net_out Ls (layer_out L r c X)"
  by (simp add: net_out_def predict_layer_out)

lemma net_out_Nil [simp]: "net_out [] X = X"
  by (simp add: net_out_def)

section \<open>One layer: forward, then backward\<close>

lemma forward_passed:
  assumes "layer_ok n r L" "mat_wf n c X" "\<not> dl_keepProb L < 1" "dl_lambda L = 0"
    and "dense_forward real_cxx rnd L X = Inr (L', Y, rnd')"
  shows "passed r c X L'" "dl_activationFunction L' = dl_activationFunction L" "dl_w L' = dl_w L" "dl_b L' = dl_b L"
    "dl_learningRate L' = dl_learningRate L"
    "layer_ok n r L'" "layer_ready n r c L'" "dl_activationFunction L \<noteq> Softmax \<Longrightarrow> Y = layer_out L r c X"
proof -
  have r: "0 < r" using assms(1) by (simp add: layer_ok_def)
  obtain A where A: "activate_m real_cxx (dl_activationFunction L) (mat_of r c (weighted L X)) = Inr A" "mat_wf r c A"
    using act_shape.shape [OF mat_of_wf r] by blast
  have *: "L' = L\<lparr>dl_z := mat_of r c (weighted L X), dl_a := A, dl_aPrev := X\<rparr> \<and> Y = A"
    using assms(5) by (auto simp: dense_forward_plain [OF assms(1-3) A(1)])
  have out: "A = layer_out L r c X" if "dl_activationFunction L \<noteq> Softmax"
    using A(1) activate_m_mat_of [OF that r, of real_cxx c "weighted L X"] by (simp add: layer_out_def)
  have same: "layer_out L' r c X = layer_out L r c X"
    using * by (simp add: layer_out_def weighted_def)
  show "passed r c X L'" using * assms(3,4) out same by (auto simp: passed_def)
  show "dl_activationFunction L' = dl_activationFunction L" "dl_w L' = dl_w L" "dl_b L' = dl_b L"
    "dl_learningRate L' = dl_learningRate L" using * by simp_all
  show "layer_ok n r L'" using * assms(1) by (simp add: layer_ok_def)
  show "layer_ready n r c L'" using * assms(2,3) A(2) by (simp add: layer_ready_def)
  show "dl_activationFunction L \<noteq> Softmax \<Longrightarrow> Y = layer_out L r c X" using * out by simp
qed

section \<open>All parameters moving at once\<close>

text \<open>A move of one layer's weights and biases: two curves with their derivatives.\<close>

type_synonym move = "(real \<Rightarrow> real mat) \<times> (nat \<Rightarrow> nat \<Rightarrow> real) \<times> (real \<Rightarrow> real vec) \<times> (nat \<Rightarrow> real)"

fun is_move :: "real \<Rightarrow> real dense \<Rightarrow> move \<Rightarrow> bool" where
  "is_move t L (W, W', b, b') \<longleftrightarrow> curve (rows_of L) (cols_of L) W W' t \<and> W t = dl_w L \<and>
     curve_v (rows_of L) b b' t \<and> b t = dl_b L"

fun moved :: "real \<Rightarrow> real dense \<Rightarrow> move \<Rightarrow> real dense" where
  "moved s L (W, W', b, b') = L\<lparr>dl_w := W s, dl_b := b s\<rparr>"

fun effect :: "real dense \<Rightarrow> move \<Rightarrow> real" where
  "effect L (W, W', b, b') = inner (rows_of L) (cols_of L) (dl_dw L) W' + inner_v (rows_of L) (dl_db L) b'"

lemma moved_ok: "layer_ok n r L \<Longrightarrow> is_move t L p \<Longrightarrow> layer_ok n r (moved s L p)"
  by (cases p) (auto simp: layer_ok_def curve_def curve_v_def)

lemma moved_at: "is_move t L p \<Longrightarrow> moved t L p = L"
  by (cases p) simp

text \<open>
  The derivative of a function of the network's output when every layer's parameters and
  the input move: the last matrix of the backward pass times the move of the input, and the
  batch size times the effect of \<open>dw\<close> and \<open>db\<close> of every layer.
\<close>

lemma backprop_moves:
  assumes "stack layer_ok n Ls r" "curve n c X X' t" "trainable c Ls (X t)" "list_all2 (is_move t) Ls ps"
    and "forward_layers (dense_forward real_cxx) rnd Ls (X t) = Inr (Ls', Y, rnd')"
    and "is_gradient r c F (net_out Ls (X t)) D" "mat_wf r c D" "0 < c"
    and "backward_layers (dense_backward real_cxx) Ls' D = Inr (Ls'', E)"
  shows "((\<lambda>s. F (net_out (map2 (moved s) Ls ps) (X s))) has_real_derivative
    inner n c E X' + real c * sum_list (map2 effect Ls'' ps)) (at t)"
  using assms(1-6,9)
proof (induction Ls arbitrary: n X X' ps rnd rnd' Ls' Y Ls'' E)
  case Nil
  then have "n = r" "E = D" "Ls'' = []" "ps = []" by (auto simp: bind_res_eq_Inr)
  with Nil is_gradientD [of r c F X t D X'] show ?case by simp
next
  case (Cons L Ls)
  from Cons.prems(1) obtain k where ok: "layer_ok n k L" "stack layer_ok k Ls r" by auto
  have dims: "rows_of L = k" "cols_of L = n" using layer_ok_dims [OF ok(1)] by auto
  from Cons.prems(4) obtain p qs where ps: "ps = p # qs" "is_move t L p" "list_all2 (is_move t) Ls qs"
    by (auto simp: list_all2_Cons1)
  obtain W W' b b' where p: "p = (W, W', b, b')" by (cases p)
  have wfX: "mat_wf n c (X s)" for s using Cons.prems(2) by (rule curve_wf)
  have tr: "\<not> dl_keepProb L < 1" "dl_lambda L = 0" "smooth_layer L k c (X t)"
    "dl_activationFunction L = Softmax \<Longrightarrow> Ls = []" "trainable c Ls (layer_out L k c (X t))"
    using Cons.prems(3) dims by auto
  from Cons.prems(5) obtain L1 Y1 rnd1 Ls1 where fwd: "dense_forward real_cxx rnd L (X t) = Inr (L1, Y1, rnd1)"
    "forward_layers (dense_forward real_cxx) rnd1 Ls Y1 = Inr (Ls1, Y, rnd')" "Ls' = L1 # Ls1"
    by (auto simp: bind_res_eq_Inr)
  note L1 = forward_passed [OF ok(1) wfX tr(1,2) fwd(1)]
  have "\<exists>Y'' rnd''. forward_layers (dense_forward real_cxx) rnd1 Ls (layer_out L k c (X t)) = Inr (Ls1, Y'', rnd'')"
    using fwd(2) L1(8) tr(4) by (cases "dl_activationFunction L = Softmax") auto
  then obtain Y'' rnd'' where fwd': "forward_layers (dense_forward real_cxx) rnd1 Ls (layer_out L k c (X t)) = Inr (Ls1, Y'', rnd'')"
    by blast
  from Cons.prems(7) fwd(3) obtain Ls2 D1 L2 where bwd: "backward_layers (dense_backward real_cxx) Ls1 D = Inr (Ls2, D1)"
    "dense_backward real_cxx L1 D1 = Inr (L2, E)" "Ls'' = L2 # Ls2"
    by (auto simp: bind_res_eq_Inr)
  let ?Y = "\<lambda>s. layer_out (L\<lparr>dl_w := W s, dl_b := b s\<rparr>) k c (X s)"
  let ?Y' = "\<lambda>i j. slope L (X t) i j * dweighted L n (X t) W' b' X' i j"
  have Yt: "?Y t = layer_out L k c (X t)" using ps(2) p by simp
  have "curve k c ?Y ?Y' t"
    using ps(2) p dims by (intro layer_curve [OF ok(1) _ _ _ _ Cons.prems(2) tr(3)]) simp_all
  moreover have "is_gradient r c F (net_out Ls (?Y t)) D"
    using Cons.prems(6) net_out_Cons [OF ok(1) wfX] Yt by simp
  ultimately have IH: "((\<lambda>s. F (net_out (map2 (moved s) Ls qs) (?Y s))) has_real_derivative
      inner k c D1 ?Y' + real c * sum_list (map2 effect Ls2 qs)) (at t)"
    using tr(5) ps(3) fwd' bwd(1) unfolding Yt [symmetric]
    by (intro Cons.IH [OF ok(2)]) auto
  have D1: "mat_wf k c D1"
  proof -
    have "mat_wf k c (layer_out L k c (X t))" by (simp add: layer_out_def)
    from dense.forward_stack [OF ok(2) this, of real_cxx rnd1] fwd'
    have "stack (\<lambda>n r l. layer_ok n r l \<and> layer_ready n r c l) k Ls1 r" by auto
    from dense.backward_stack [OF this assms(7,8), of real_cxx] bwd(1) show ?thesis by auto
  qed
  have L2: "E = mat_of n c (back_daPrev real_cxx L1 k c D1)" "dl_dw L2 = mat_of k n (back_dw real_cxx L1 c D1)"
    "dl_db L2 = map (back_db real_cxx L1 c D1) [0..<k]" "rows_of L2 = k" "cols_of L2 = n"
    using bwd(2) dense_backward_eq [OF L1(6,7) D1 assms(8), of real_cxx] layer_ok_dims [OF L1(6)] by auto
  have slope: "slope L1 (X t) = slope L (X t)" "dweighted L1 n (X t) W' b' X' = dweighted L n (X t) W' b' X'"
    using L1(2-4) by (auto simp: slope_def weighted_def dweighted_def fun_eq_iff)
  have "inner k c D1 ?Y' = inner n c E X' + real c * effect L2 p"
    using layer_adjoint [OF L1(1) assms(8), of D1 n W' b' X'] by (simp add: slope L2 p)
  with IH have deriv: "((\<lambda>s. F (net_out (map2 (moved s) Ls qs) (?Y s))) has_real_derivative
      inner n c E X' + real c * sum_list (map2 effect Ls'' ps)) (at t)"
    by (simp add: bwd(3) ps(1) algebra_simps)
  have "net_out (map2 (moved s) (L # Ls) ps) (X s) = net_out (map2 (moved s) Ls qs) (?Y s)" for s
    using net_out_Cons [OF moved_ok [OF ok(1) ps(2), of s] wfX] by (simp add: ps(1) p)
  with deriv show ?case by simp
qed

section \<open>The gradient of each layer's parameters\<close>

definition is_gradient_v :: "nat \<Rightarrow> (real vec \<Rightarrow> real) \<Rightarrow> real vec \<Rightarrow> real vec \<Rightarrow> bool" where
  "is_gradient_v r F a d \<longleftrightarrow>
     (\<forall>b b' t. curve_v r b b' t \<and> b t = a \<longrightarrow> ((\<lambda>s. F (b s)) has_real_derivative inner_v r d b') (at t))"

definition still :: "real dense \<Rightarrow> move" where
  "still L = (\<lambda>_. dl_w L, \<lambda>_ _. 0, \<lambda>_. dl_b L, \<lambda>_. 0)"

lemma still_simps [simp]: "moved s L (still L) = L" "effect L2 (still L) = 0"
  by (simp_all add: still_def)

lemma still_move: "layer_ok n r L \<Longrightarrow> is_move t L (still L)"
  by (simp add: still_def layer_ok_def curve_const curve_v_const)

lemma stack_still: "stack layer_ok n Ls r \<Longrightarrow> list_all2 (is_move t) Ls (map still Ls)"
  by (induction Ls arbitrary: n) (auto intro: still_move)

lemma stack_nth: "stack ok n Ls r \<Longrightarrow> i < length Ls \<Longrightarrow> \<exists>k l. ok k l (Ls ! i)"
  by (induction Ls arbitrary: n i) (auto simp: nth_Cons split: nat.splits)

lemma moved_update:
  "map2 (moved s) Ls ((map still Ls)[i := p]) = Ls[i := moved s (Ls ! i) p]"
proof (rule nth_equalityI)
  fix j assume "j < length (map2 (moved s) Ls ((map still Ls)[i := p]))"
  then show "map2 (moved s) Ls ((map still Ls)[i := p]) ! j = Ls[i := moved s (Ls ! i) p] ! j"
    by (cases "j = i") simp_all
qed simp

lemma moved_still: "map2 (moved s) Ls (map still Ls) = Ls"
  by (rule nth_equalityI) simp_all

lemma effect_still: "sum_list (map2 effect Ls2 (map still Ls)) = 0"
  by (induction Ls arbitrary: Ls2) (auto simp: zip_Cons split: list.splits)

lemma sum_list_single:
  fixes xs :: "'a::comm_monoid_add list"
  assumes "i < length xs" "\<And>j. j < length xs \<Longrightarrow> j \<noteq> i \<Longrightarrow> xs ! j = 0"
  shows "sum_list xs = xs ! i"
proof -
  have "sum_list xs = xs ! i + (\<Sum>j\<in>{0..<length xs} - {i}. xs ! j)"
    using assms(1) by (simp add: sum_list_sum_nth sum.remove)
  also have "(\<Sum>j\<in>{0..<length xs} - {i}. xs ! j) = 0"
    using assms(2) by (intro sum.neutral) auto
  finally show ?thesis by simp
qed

lemma effect_update:
  assumes "i < length Ls" "length Ls'' = length Ls"
  shows "sum_list (map2 effect Ls'' ((map still Ls)[i := p])) = effect (Ls'' ! i) p"
  using assms by (subst sum_list_single [of i]) (simp_all add: nth_list_update)

section \<open>Updates\<close>

text \<open>What a forward and a backward pass do to the parameters of a layer without L2 term.\<close>

definition descends :: "real dense \<Rightarrow> real dense \<Rightarrow> bool" where
  "descends L L2 \<longleftrightarrow> rows_of L2 = rows_of L \<and> cols_of L2 = cols_of L \<and>
     (\<forall>p<rows_of L. \<forall>q<cols_of L. dl_w L2 ! p ! q = dl_w L ! p ! q - dl_dw L2 ! p ! q * dl_learningRate L) \<and>
     (\<forall>p<rows_of L. dl_b L2 ! p = dl_b L ! p - dl_db L2 ! p * dl_learningRate L)"

lemma pass_descends:
  assumes "stack layer_ok n Ls r" "mat_wf n c X" "trainable c Ls X"
    and "forward_layers (dense_forward real_cxx) rnd Ls X = Inr (Ls', Y, rnd')"
    and "mat_wf r c D" "0 < c"
    and "backward_layers (dense_backward real_cxx) Ls' D = Inr (Ls'', E)"
  shows "list_all2 descends Ls Ls''"
  using assms(1-4,7)
proof (induction Ls arbitrary: n X rnd rnd' Ls' Y Ls'' E)
  case Nil
  then show ?case by (auto simp: bind_res_eq_Inr)
next
  case (Cons L Ls)
  from Cons.prems(1) obtain k where ok: "layer_ok n k L" "stack layer_ok k Ls r" by auto
  have dims: "rows_of L = k" "cols_of L = n" using layer_ok_dims [OF ok(1)] by auto
  have tr: "\<not> dl_keepProb L < 1" "dl_lambda L = 0"
    "dl_activationFunction L = Softmax \<Longrightarrow> Ls = []" "trainable c Ls (layer_out L k c X)"
    using Cons.prems(3) dims by auto
  from Cons.prems(4) obtain L1 Y1 rnd1 Ls1 where fwd: "dense_forward real_cxx rnd L X = Inr (L1, Y1, rnd1)"
    "forward_layers (dense_forward real_cxx) rnd1 Ls Y1 = Inr (Ls1, Y, rnd')" "Ls' = L1 # Ls1"
    by (auto simp: bind_res_eq_Inr)
  note L1 = forward_passed [OF ok(1) Cons.prems(2) tr(1,2) fwd(1)]
  from Cons.prems(5) fwd(3) obtain Ls2 D1 L2 where bwd: "backward_layers (dense_backward real_cxx) Ls1 D = Inr (Ls2, D1)"
    "dense_backward real_cxx L1 D1 = Inr (L2, E)" "Ls'' = L2 # Ls2"
    by (auto simp: bind_res_eq_Inr)
  have out: "mat_wf k c (layer_out L k c X)" by (simp add: layer_out_def)
  obtain Y'' rnd'' where fwd': "forward_layers (dense_forward real_cxx) rnd1 Ls (layer_out L k c X) = Inr (Ls1, Y'', rnd'')"
    using fwd(2) L1(8) tr(3) by (cases "dl_activationFunction L = Softmax") auto
  have tail: "list_all2 descends Ls Ls2"
    by (rule Cons.IH [OF ok(2) out tr(4) fwd' bwd(1)])
  have "stack (\<lambda>n r l. layer_ok n r l \<and> layer_ready n r c l) k Ls1 r"
    using dense.forward_stack [OF ok(2) out, of real_cxx rnd1] fwd' by auto
  from dense.backward_stack [OF this assms(5,6), of real_cxx] bwd(1) have D1: "mat_wf k c D1" by auto
  have "descends L L2"
    using bwd(2) dense_backward_eq [OF L1(6,7) D1 assms(6), of real_cxx] L1(3-5) dims layer_ok_dims [OF L1(6)]
    by (auto simp: descends_def back_w_passed [OF L1(1)])
  with tail bwd(3) show ?case by simp
qed

section \<open>Back-propagation computes the gradient\<close>

lemma backprop_pass:
  assumes ok: "nn_ok n r N" and X: "mat_wf n c X" and c: "0 < c" and tr: "trainable c (nn_layers N) X"
    and grad: "is_gradient r c F (net_out (nn_layers N) X) D" and D: "mat_wf r c D"
  shows "\<exists>N1 Y rnd' N2 E. forwardPropagation real_cxx rnd N X = Inr (N1, Y, rnd') \<and>
    backwardPropagation real_cxx N1 D = Inr (N2, E) \<and>
    is_gradient n c (\<lambda>X. F (net_out (nn_layers N) X)) X E \<and>
    (\<forall>i<length (nn_layers N). let L = nn_layers N ! i; L2 = nn_layers N2 ! i in
      is_gradient (rows_of L) (cols_of L) (\<lambda>W. F (net_out ((nn_layers N)[i := L\<lparr>dl_w := W\<rparr>]) X)) (dl_w L)
        (mat_of (rows_of L) (cols_of L) (\<lambda>p q. real c * dl_dw L2 ! p ! q)) \<and>
      is_gradient_v (rows_of L) (\<lambda>b. F (net_out ((nn_layers N)[i := L\<lparr>dl_b := b\<rparr>]) X)) (dl_b L)
        (map (\<lambda>p. real c * dl_db L2 ! p) [0..<rows_of L]) \<and> descends L L2)"
proof -
  let ?Ls = "nn_layers N"
  have st: "stack layer_ok n ?Ls r" using ok by (simp add: nn_ok_def)
  obtain Ls1 Y rnd' where fwd: "forward_layers (dense_forward real_cxx) rnd ?Ls X = Inr (Ls1, Y, rnd')"
    and ready: "stack (\<lambda>n r l. layer_ok n r l \<and> layer_ready n r c l) n Ls1 r"
    using dense.forward_stack [OF st X, of real_cxx rnd] by blast
  obtain Ls2 E where bwd: "backward_layers (dense_backward real_cxx) Ls1 D = Inr (Ls2, E)"
    using dense.backward_stack [OF ready D c, of real_cxx] by blast
  have desc: "list_all2 descends ?Ls Ls2"
    by (rule pass_descends [OF st X tr fwd D c bwd])
  then have len: "length Ls2 = length ?Ls" by (simp add: list_all2_lengthD)
  have moves: "((\<lambda>s. F (net_out (map2 (moved s) ?Ls ps) (Z s))) has_real_derivative
      inner n c E Z' + real c * sum_list (map2 effect Ls2 ps)) (at t)"
    if "curve n c Z Z' t" "Z t = X" "list_all2 (is_move t) ?Ls ps" for Z Z' ps t
    using that backprop_moves [OF st that(1) _ that(3) _ _ D c bwd] tr fwd grad by simp
  have input: "is_gradient n c (\<lambda>X. F (net_out ?Ls X)) X E"
    unfolding is_gradient_def
  proof (intro allI impI)
    fix M M' t assume "curve n c M M' t \<and> M t = X"
    with moves [of M M' t "map still ?Ls"] stack_still [OF st, of t]
    show "((\<lambda>s. F (net_out ?Ls (M s))) has_real_derivative inner n c E M') (at t)"
      by (simp add: moved_still effect_still)
  qed
  have params: "((\<lambda>s. F (net_out (?Ls[i := moved s (?Ls ! i) p]) X)) has_real_derivative
      real c * effect (Ls2 ! i) p) (at t)" if i: "i < length ?Ls" and p: "is_move t (?Ls ! i) p" for i p t
  proof -
    have "list_all2 (is_move t) ?Ls ((map still ?Ls)[i := p])"
      using stack_still [OF st, of t] i p
      by (auto simp: list_all2_conv_all_nth nth_list_update)
    from moves [OF curve_const [OF X] _ this] show ?thesis
      using i len by (simp add: moved_update effect_update)
  qed
  have layer: "let L = ?Ls ! i; L2 = Ls2 ! i in
      is_gradient (rows_of L) (cols_of L) (\<lambda>W. F (net_out (?Ls[i := L\<lparr>dl_w := W\<rparr>]) X)) (dl_w L)
        (mat_of (rows_of L) (cols_of L) (\<lambda>p q. real c * dl_dw L2 ! p ! q)) \<and>
      is_gradient_v (rows_of L) (\<lambda>b. F (net_out (?Ls[i := L\<lparr>dl_b := b\<rparr>]) X)) (dl_b L)
        (map (\<lambda>p. real c * dl_db L2 ! p) [0..<rows_of L]) \<and> descends L L2" if i: "i < length ?Ls" for i
  proof -
    let ?L = "?Ls ! i" and ?L2 = "Ls2 ! i"
    have d: "descends ?L ?L2" using desc i by (simp add: list_all2_nthD)
    then have dims: "rows_of ?L2 = rows_of ?L" "cols_of ?L2 = cols_of ?L" by (simp_all add: descends_def)
    obtain a b where "layer_ok a b ?L" using stack_nth [OF st i] by blast
    then have still: "curve_v (rows_of ?L) (\<lambda>_. dl_b ?L) (\<lambda>_. 0) t"
      "curve (rows_of ?L) (cols_of ?L) (\<lambda>_. dl_w ?L) (\<lambda>_ _. 0) t" for t
      by (simp_all add: layer_ok_def curve_const curve_v_const)
    have "((\<lambda>s. F (net_out (?Ls[i := ?L\<lparr>dl_w := M s\<rparr>]) X)) has_real_derivative
        inner (rows_of ?L) (cols_of ?L) (mat_of (rows_of ?L) (cols_of ?L) (\<lambda>p q. real c * dl_dw ?L2 ! p ! q)) M') (at t)"
      if "curve (rows_of ?L) (cols_of ?L) M M' t" "M t = dl_w ?L" for M M' t
      using params [OF i, of t "(M, M', \<lambda>_. dl_b ?L, \<lambda>_. 0)"] that still dims
      by (simp add: inner_def sum_distrib_left mult.assoc)
    moreover have "((\<lambda>s. F (net_out (?Ls[i := ?L\<lparr>dl_b := b s\<rparr>]) X)) has_real_derivative
        inner_v (rows_of ?L) (map (\<lambda>p. real c * dl_db ?L2 ! p) [0..<rows_of ?L]) b') (at t)"
      if "curve_v (rows_of ?L) b b' t" "b t = dl_b ?L" for b b' t
      using params [OF i, of t "(\<lambda>_. dl_w ?L, \<lambda>_ _. 0, b, b')"] that still dims
      by (simp add: inner_v_def sum_distrib_left mult.assoc)
    ultimately show ?thesis using d by (simp add: Let_def is_gradient_def is_gradient_v_def)
  qed
  have "forwardPropagation real_cxx rnd N X = Inr (N\<lparr>nn_layers := Ls1\<rparr>, Y, rnd')"
    "backwardPropagation real_cxx (N\<lparr>nn_layers := Ls1\<rparr>) D = Inr (N\<lparr>nn_layers := Ls2\<rparr>, E)"
    using fwd bwd by (simp_all add: forwardPropagation_def backwardPropagation_def)
  then show ?thesis using input layer by fastforce
qed



end
