(* ===== verification/Descent.thy ===== *)
theory Descent
  imports Backprop TrainFacts LossFacts
begin

text \<open>
  One training step of a classifier (softmax output, categorical cross entropy) is one step
  of gradient descent on the mean cross entropy of the batch.
\<close>

definition cross_entropy :: "nat list \<Rightarrow> real mat \<Rightarrow> real" where
  "cross_entropy ls Z = (\<Sum>j<length ls. - ln (softmax_spec real_cxx (column Z j) ! (ls ! j)))"

section \<open>The matrix the loss returns is the gradient of the cross entropy\<close>

lemma neg_log_softmax_curve:
  assumes "\<And>s. length (z s) = n" "l < n"
    and d: "\<And>i. i < n \<Longrightarrow> ((\<lambda>s. z s ! i) has_real_derivative z' i) (at t)"
  shows "((\<lambda>s. - ln (softmax_spec real_cxx (z s) ! l)) has_real_derivative
    (\<Sum>i<n. softmax_spec real_cxx (z t) ! i * z' i) - z' l) (at t)"
proof -
  have ne: "z s \<noteq> []" for s using assms(1) [of s] assms(2) by auto
  have eq: "- ln (softmax_spec real_cxx (z s) ! l) = ln (exp_sum (z s)) - z s ! l" for s
    using assms(1,2) exp_sum_pos [OF ne [of s]] by (simp add: softmax_real ln_div)
  have S: "((\<lambda>s. exp_sum (z s)) has_real_derivative (\<Sum>i<n. exp (z t ! i) * z' i)) (at t)"
    unfolding exp_sum_def assms(1)
    by (rule DERIV_sum) (use d in \<open>auto intro!: derivative_eq_intros\<close>)
  have "((\<lambda>s. ln (exp_sum (z s)) - z s ! l) has_real_derivative
      (\<Sum>i<n. exp (z t ! i) * z' i) / exp_sum (z t) - z' l) (at t)"
    using S d [OF assms(2)] exp_sum_pos [OF ne [of t]] by (auto intro!: derivative_eq_intros)
  moreover have "(\<Sum>i<n. exp (z t ! i) * z' i) / exp_sum (z t) = (\<Sum>i<n. softmax_spec real_cxx (z t) ! i * z' i)"
    using assms(1) by (simp add: sum_divide_distrib softmax_real)
  ultimately show ?thesis unfolding eq by simp
qed

definition softmax_cols :: "nat \<Rightarrow> nat \<Rightarrow> real mat \<Rightarrow> real mat" where
  "softmax_cols n c Z = mat_of n c (\<lambda>i j. softmax_spec real_cxx (column Z j) ! i)"

definition minus_labels :: "nat \<Rightarrow> nat \<Rightarrow> nat list \<Rightarrow> real mat \<Rightarrow> real mat" where
  "minus_labels n c ls P = mat_of n c (\<lambda>i j. if i = ls ! j then P ! i ! j - 1 else P ! i ! j)"

lemma cross_entropy_gradient:
  assumes "length ls = c" "\<forall>j<c. ls ! j < n"
  shows "is_gradient n c (cross_entropy ls) Z (minus_labels n c ls (softmax_cols n c Z))"
  unfolding is_gradient_def
proof (intro allI impI)
  fix M M' t assume M: "curve n c M M' t \<and> M t = Z"
  let ?p = "\<lambda>i j. softmax_spec real_cxx (column (M t) j) ! i"
  have lenM: "length (M s) = n" for s
    using mat_wf_length [OF curve_wf, of n c M M' t s] M by simp
  then have len: "length (column (M s) j) = n" for s j by simp
  have col: "column (M s) j ! i = M s ! i ! j" if "i < n" for s i j
    using that len [of s j] by simp
  have "((\<lambda>s. - ln (softmax_spec real_cxx (column (M s) j) ! (ls ! j))) has_real_derivative
      (\<Sum>i<n. ?p i j * M' i j) - M' (ls ! j) j) (at t)" if "j < c" for j
    using that M assms(2) by (intro neg_log_softmax_curve) (auto simp: lenM col curve_def)
  then have "((\<lambda>s. cross_entropy ls (M s)) has_real_derivative
      (\<Sum>j<c. (\<Sum>i<n. ?p i j * M' i j) - M' (ls ! j) j)) (at t)"
    unfolding cross_entropy_def assms(1) by (intro DERIV_sum) simp
  moreover have "(\<Sum>i<n. ?p i j * M' i j) - M' (ls ! j) j =
      (\<Sum>i<n. (if i = ls ! j then ?p i j - 1 else ?p i j) * M' i j)" if "j < c" for j
  proof -
    have "(\<Sum>i<n. (if i = ls ! j then ?p i j - 1 else ?p i j) * M' i j) =
        (\<Sum>i<n. ?p i j * M' i j - (if i = ls ! j then M' i j else 0))"
      by (rule sum.cong) (simp_all add: left_diff_distrib)
    with assms(2) that show ?thesis by (simp add: sum_subtractf)
  qed
  ultimately have "((\<lambda>s. cross_entropy ls (M s)) has_real_derivative
      (\<Sum>j<c. \<Sum>i<n. (if i = ls ! j then ?p i j - 1 else ?p i j) * M' i j)) (at t)"
    by simp
  moreover have "(\<Sum>j<c. \<Sum>i<n. (if i = ls ! j then ?p i j - 1 else ?p i j) * M' i j) =
      inner n c (minus_labels n c ls (softmax_cols n c Z)) M'"
    using M by (subst sum.swap) (simp add: inner_def minus_labels_def softmax_cols_def cong: if_cong)
  ultimately show "((\<lambda>s. cross_entropy ls (M s)) has_real_derivative
      inner n c (minus_labels n c ls (softmax_cols n c Z)) M') (at t)" by simp
qed

section \<open>The output of the forward pass\<close>

lemma net_out_wf: "stack layer_ok n Ls r \<Longrightarrow> mat_wf n c X \<Longrightarrow> mat_wf r c (net_out Ls X)"
  using dense.predict_stack [of n Ls r c X real_cxx] by (auto simp: net_out_def)

lemma forward_output:
  assumes "stack layer_ok n Ls r" "mat_wf n c X" "trainable c Ls X" "Ls \<noteq> []"
    "dl_activationFunction (last Ls) = Softmax"
    and "forward_layers (dense_forward real_cxx) rnd Ls X = Inr (Ls', Y, rnd')"
  shows "Y = softmax_cols r c (net_out Ls X)"
  using assms
proof (induction Ls arbitrary: n X rnd rnd' Ls' Y)
  case Nil
  then show ?case by simp
next
  case (Cons L Ls)
  from Cons.prems(1) obtain k where ok: "layer_ok n k L" "stack layer_ok k Ls r" by auto
  have dims: "rows_of L = k" "cols_of L = n" using layer_ok_dims [OF ok(1)] by auto
  have tr: "\<not> dl_keepProb L < 1" "dl_lambda L = 0"
    "dl_activationFunction L = Softmax \<Longrightarrow> Ls = []" "trainable c Ls (layer_out L k c X)"
    using Cons.prems(3) dims by auto
  from Cons.prems(6) obtain L1 Y1 rnd1 Ls1 where fwd: "dense_forward real_cxx rnd L X = Inr (L1, Y1, rnd1)"
    "forward_layers (dense_forward real_cxx) rnd1 Ls Y1 = Inr (Ls1, Y, rnd')"
    by (auto simp: bind_res_eq_Inr)
  show ?case
  proof (cases "Ls = []")
    case True
    with Cons.prems ok have soft: "dl_activationFunction L = Softmax" "k = r" "0 < r" by auto
    have out: "mat_of k c (weighted L X) = net_out [L] X"
      using soft net_out_Cons [OF ok(1) Cons.prems(2), of "[]"]
      by (simp add: layer_out_def Softmax_activate_def)
    have "activate_m real_cxx (dl_activationFunction L) (mat_of k c (weighted L X)) =
        Inr (softmax_cols k c (net_out [L] X))"
      using soft Softmax_activate_m_mat_of [of k real_cxx c "weighted L X"]
      unfolding out by (simp add: softmax_cols_def)
    with fwd(1) have "Y1 = softmax_cols k c (net_out [L] X)"
      by (simp add: dense_forward_plain [OF ok(1) Cons.prems(2) tr(1)])
    with fwd(2) True soft show ?thesis by simp
  next
    case False
    then have "Y1 = layer_out L k c X"
      using forward_passed(8) [OF ok(1) Cons.prems(2) tr(1,2) fwd(1)] tr(3) by blast
    moreover have "mat_wf k c (layer_out L k c X)" by (simp add: layer_out_def)
    ultimately show ?thesis
      using Cons.IH [OF ok(2) _ tr(4) False] Cons.prems(5) False fwd(2) net_out_Cons [OF ok(1) Cons.prems(2)]
      by simp
  qed
qed

section \<open>A training step\<close>

lemma scale_gradient:
  assumes "is_gradient r c F A (mat_of r c (\<lambda>p q. m * d p q))" "m \<noteq> 0"
  shows "is_gradient r c (\<lambda>x. F x / m) A (mat_of r c d)"
  unfolding is_gradient_def
proof (intro allI impI)
  fix M M' t assume M: "curve r c M M' t \<and> M t = A"
  have "((\<lambda>s. F (M s) / m) has_real_derivative inner r c (mat_of r c (\<lambda>p q. m * d p q)) M' / m) (at t)"
    using M is_gradientD [of r c F M t] assms(1) by (intro DERIV_cdivide) simp
  moreover have "inner r c (mat_of r c (\<lambda>p q. m * d p q)) M' = m * inner r c (mat_of r c d) M'"
    by (simp add: inner_def sum_distrib_left mult.assoc)
  ultimately show "((\<lambda>s. F (M s) / m) has_real_derivative inner r c (mat_of r c d) M') (at t)"
    using assms(2) by simp
qed

lemma scale_gradient_v:
  assumes "is_gradient_v r F a (map (\<lambda>p. m * d p) [0..<r])" "m \<noteq> 0"
  shows "is_gradient_v r (\<lambda>x. F x / m) a (map d [0..<r])"
  unfolding is_gradient_v_def
proof (intro allI impI)
  fix b b' t assume b: "curve_v r b b' t \<and> b t = a"
  have "((\<lambda>s. F (b s) / m) has_real_derivative inner_v r (map (\<lambda>p. m * d p) [0..<r]) b' / m) (at t)"
    using b assms(1) by (intro DERIV_cdivide) (simp add: is_gradient_v_def)
  moreover have "inner_v r (map (\<lambda>p. m * d p) [0..<r]) b' = m * inner_v r (map d [0..<r]) b'"
    by (simp add: inner_v_def sum_distrib_left mult.assoc)
  ultimately show "((\<lambda>s. F (b s) / m) has_real_derivative inner_v r (map d [0..<r]) b') (at t)"
    using assms(2) by simp
qed

text \<open>C1: For a classifier (softmax in the last layer, categorical loss, no dropout or L2 term, the
  activations differentiable at the batch), training on one batch moves the weights and
  biases of every layer by the learning rate against the gradient of the mean cross entropy
  of the batch, as a function of those weights or biases.\<close>

theorem training_step_is_gradient_descent:
  assumes ok: "nn_ok n r N" and X: "mat_wf n c X" and c: "0 < c" and tr: "trainable c (nn_layers N) X"
    and last: "nn_layers N \<noteq> []" "dl_activationFunction (last (nn_layers N)) = Softmax"
    and loss: "nn_lossFunction N = CategoricalCrossEntropy" and T: "class_labels real_cxx r c T ls"
  shows "\<exists>N2 rnd' a' k'. train_batch real_cxx (N, rnd, a, k) (X, T) = Inr (N2, rnd', a', k') \<and>
    (\<forall>i<length (nn_layers N). let L = nn_layers N ! i; L2 = nn_layers N2 ! i;
        cost = (\<lambda>L'. cross_entropy ls (net_out ((nn_layers N)[i := L']) X) / real c) in
      \<exists>G g. is_gradient (rows_of L) (cols_of L) (\<lambda>W. cost (L\<lparr>dl_w := W\<rparr>)) (dl_w L) G \<and>
        is_gradient_v (rows_of L) (\<lambda>b. cost (L\<lparr>dl_b := b\<rparr>)) (dl_b L) g \<and>
        (\<forall>p<rows_of L. \<forall>q<cols_of L. dl_w L2 ! p ! q = dl_w L ! p ! q - G ! p ! q * dl_learningRate L) \<and>
        (\<forall>p<rows_of L. dl_b L2 ! p = dl_b L ! p - g ! p * dl_learningRate L))"
proof -
  let ?Ls = "nn_layers N" and ?Z = "net_out (nn_layers N) X"
  let ?P = "softmax_cols r c ?Z"
  let ?D = "minus_labels r c ls ?P"
  have st: "stack layer_ok n ?Ls r" using ok by (simp add: nn_ok_def)
  have r: "0 < r" using ok by (rule nn_ok_pos)
  have ls: "length ls = c" "\<forall>j<c. ls ! j < r" using T by (simp_all add: class_labels_def)
  have P: "mat_wf r c ?P" and D: "mat_wf r c ?D" by (simp_all add: softmax_cols_def minus_labels_def)
  obtain N1 Y rnd' N2 E where fwd: "forwardPropagation real_cxx rnd N X = Inr (N1, Y, rnd')"
    and bwd: "backwardPropagation real_cxx N1 ?D = Inr (N2, E)"
    and layers: "\<forall>i<length ?Ls. let L = ?Ls ! i; L2 = nn_layers N2 ! i in
      is_gradient (rows_of L) (cols_of L) (\<lambda>W. cross_entropy ls (net_out (?Ls[i := L\<lparr>dl_w := W\<rparr>]) X)) (dl_w L)
        (mat_of (rows_of L) (cols_of L) (\<lambda>p q. real c * dl_dw L2 ! p ! q)) \<and>
      is_gradient_v (rows_of L) (\<lambda>b. cross_entropy ls (net_out (?Ls[i := L\<lparr>dl_b := b\<rparr>]) X)) (dl_b L)
        (map (\<lambda>p. real c * dl_db L2 ! p) [0..<rows_of L]) \<and> descends L L2"
    using backprop_pass [OF ok X c tr cross_entropy_gradient [OF ls] D, of rnd] by blast
  have loss1: "nn_lossFunction N1 = CategoricalCrossEntropy"
    using fwd loss by (auto simp: forwardPropagation_def bind_res_eq_Inr)
  have Y: "Y = ?P"
    using fwd forward_output [OF st X tr last] by (auto simp: forwardPropagation_def bind_res_eq_Inr)
  have fit: "targets_fit real_cxx CategoricalCrossEntropy r c T" using T by auto
  obtain acc where "accuracy real_cxx ?P T CategoricalCrossEntropy = Inr acc"
    using accuracy_defined [OF P r fit] by blast
  moreover obtain v where "CCE_calculateLoss_m real_cxx ?P T = Inr v"
    using CCE_calculateLoss_m_eq [OF P T r] by blast
  moreover have "CCE_derivative_m real_cxx ?P T = Inr ?D"
    using CCE_derivative_m_eq [OF P T r] by (simp add: minus_labels_def)
  moreover have "at_v T 0 = Inr (T ! 0)" using T by (simp add: class_labels_def)
  ultimately have "train_batch real_cxx (N, rnd, a, k) (X, T) = Inr (N2, rnd', a + acc, k + v)"
    using fwd bwd Y loss1 by (simp add: train_batch_def del: accuracy.simps)
  moreover have "let L = ?Ls ! i; L2 = nn_layers N2 ! i;
        cost = (\<lambda>L'. cross_entropy ls (net_out (?Ls[i := L']) X) / real c) in
      \<exists>G g. is_gradient (rows_of L) (cols_of L) (\<lambda>W. cost (L\<lparr>dl_w := W\<rparr>)) (dl_w L) G \<and>
        is_gradient_v (rows_of L) (\<lambda>b. cost (L\<lparr>dl_b := b\<rparr>)) (dl_b L) g \<and>
        (\<forall>p<rows_of L. \<forall>q<cols_of L. dl_w L2 ! p ! q = dl_w L ! p ! q - G ! p ! q * dl_learningRate L) \<and>
        (\<forall>p<rows_of L. dl_b L2 ! p = dl_b L ! p - g ! p * dl_learningRate L)" if i: "i < length ?Ls" for i
  proof -
    let ?L = "?Ls ! i" and ?L2 = "nn_layers N2 ! i"
    have g: "is_gradient (rows_of ?L) (cols_of ?L) (\<lambda>W. cross_entropy ls (net_out (?Ls[i := ?L\<lparr>dl_w := W\<rparr>]) X)) (dl_w ?L)
        (mat_of (rows_of ?L) (cols_of ?L) (\<lambda>p q. real c * dl_dw ?L2 ! p ! q))"
      "is_gradient_v (rows_of ?L) (\<lambda>b. cross_entropy ls (net_out (?Ls[i := ?L\<lparr>dl_b := b\<rparr>]) X)) (dl_b ?L)
        (map (\<lambda>p. real c * dl_db ?L2 ! p) [0..<rows_of ?L])" "descends ?L ?L2"
      using layers i by (simp_all add: Let_def)
    show ?thesis
      using scale_gradient [OF g(1)] scale_gradient_v [OF g(2)] g(3) c unfolding Let_def
      by (intro exI [of _ "mat_of (rows_of ?L) (cols_of ?L) (\<lambda>p q. dl_dw ?L2 ! p ! q)"]
          exI [of _ "map (\<lambda>p. dl_db ?L2 ! p) [0..<rows_of ?L]"] conjI)
        (simp_all add: descends_def)
  qed
  ultimately show ?thesis by blast
qed

theorem training_step_is_gradient_descent_witness:
  "\<exists>N2 rnd' a' k'. train_batch real_cxx (example_net, \<lambda>_. 0, 0, 0) ([[5]], [[1]]) = Inr (N2, rnd', a', k') \<and>
    (\<exists>G. is_gradient 2 1 (\<lambda>W. cross_entropy [1] (net_out
        ((nn_layers example_net)[0 := (nn_layers example_net ! 0)\<lparr>dl_w := W\<rparr>]) [[5]]) / real 1) [[1], [2]] G)"
proof -
  have "trainable 1 (nn_layers example_net) [[5]]"
    by (simp add: example_net_def smooth_layer_def)
  moreover have "nn_layers example_net \<noteq> []" "dl_activationFunction (last (nn_layers example_net)) = Softmax"
    "nn_lossFunction example_net = CategoricalCrossEntropy" "nn_layers example_net ! 0 = example_layer Tanh"
    by (simp_all add: example_net_def)
  ultimately show ?thesis
    using training_step_is_gradient_descent [OF example_net_ok _ _ _ _ _ _ class_labels_example,
        of "[[5]]" "\<lambda>_. 0" 0 0]
    unfolding Let_def by fastforce
qed

end
