(* ===== verification/TextIO.thy ===== *)
theory TextIO
  imports Cxx
begin

text \<open>
  The parts of the standard library that read text: \<open>std::getline\<close> in a loop, \<open>std::stod\<close>
  and \<open>std::stoi\<close>. The floating-point forms that \<open>stod\<close> accepts beyond decimal notation
  (hexadecimal, \<open>inf\<close>, \<open>nan\<close>) and its range error are left out; the rounding to double is
  \<open>c_lit\<close>.
\<close>

section \<open>Lines\<close>

text \<open>
  \<open>while (getline(in, s, d))\<close>: a piece per delimiter; what follows the last delimiter is a
  piece unless it is empty.
\<close>

function getlines :: "char \<Rightarrow> string \<Rightarrow> string list" where
  "getlines d s =
     (if s = [] then []
      else takeWhile (\<lambda>c. c \<noteq> d) s # getlines d (drop 1 (dropWhile (\<lambda>c. c \<noteq> d) s)))"
  by pat_completeness auto
termination
proof (relation "measure (length \<circ> snd)", simp)
  fix d :: char and s :: string
  assume "s \<noteq> []"
  then have "0 < length s" by simp
  moreover have "length (dropWhile (\<lambda>c. c \<noteq> d) s) \<le> length s" by (rule length_dropWhile_le)
  moreover have "length (drop 1 (dropWhile (\<lambda>c. c \<noteq> d) s)) = length (dropWhile (\<lambda>c. c \<noteq> d) s) - 1"
    by (rule length_drop)
  ultimately have "length (drop 1 (dropWhile (\<lambda>c. c \<noteq> d) s)) < length s"
    by linarith
  then show "((d, drop 1 (dropWhile (\<lambda>c. c \<noteq> d) s)), d, s) \<in> measure (length \<circ> snd)" by simp
qed

declare getlines.simps [simp del]

lemma getlines_Nil [simp]: "getlines d [] = []"
  by (subst getlines.simps) simp

lemma getlines_piece:
  assumes "d \<notin> set p"
  shows "getlines d (p @ d # s) = p # getlines d s"
proof -
  have "takeWhile (\<lambda>c. c \<noteq> d) (p @ d # s) = p" "dropWhile (\<lambda>c. c \<noteq> d) (p @ d # s) = d # s"
    using assms by (induction p) auto
  then show ?thesis by (subst getlines.simps) simp
qed

lemma getlines_last:
  assumes "d \<notin> set p" "p \<noteq> []"
  shows "getlines d p = [p]"
proof -
  have "takeWhile (\<lambda>c. c \<noteq> d) p = p" "dropWhile (\<lambda>c. c \<noteq> d) p = []"
    using assms(1) by (auto simp: takeWhile_eq_all_conv dropWhile_eq_Nil_conv)
  then show ?thesis
    using assms(2) by (subst getlines.simps) (simp only: if_False drop_Nil getlines_Nil)
qed

text \<open>Pieces that end in the delimiter, and pieces with the delimiter in between.\<close>

definition terminated :: "char \<Rightarrow> string list \<Rightarrow> string" where
  "terminated d ps = concat (map (\<lambda>p. p @ [d]) ps)"

fun separated :: "char \<Rightarrow> string list \<Rightarrow> string" where
  "separated d [] = []"
| "separated d [p] = p"
| "separated d (p # q # ps) = p @ d # separated d (q # ps)"

lemma getlines_terminated: "\<forall>p\<in>set ps. d \<notin> set p \<Longrightarrow> getlines d (terminated d ps) = ps"
  by (induction ps) (simp_all add: terminated_def getlines_piece)

lemma getlines_separated:
  "\<forall>p\<in>set ps. d \<notin> set p \<and> p \<noteq> [] \<Longrightarrow> getlines d (separated d ps) = ps"
  by (induction d ps rule: separated.induct) (simp_all add: getlines_piece getlines_last)

lemma set_separated: "set (separated d ps) \<subseteq> insert d (\<Union>p\<in>set ps. set p)"
  by (induction d ps rule: separated.induct) auto

section \<open>Numbers\<close>

definition is_digit :: "char \<Rightarrow> bool" where
  "is_digit c \<longleftrightarrow> 48 \<le> (of_char c :: nat) \<and> (of_char c :: nat) \<le> 57"

definition is_space :: "char \<Rightarrow> bool" where
  "is_space c \<longleftrightarrow> (of_char c :: nat) = 32 \<or> 9 \<le> (of_char c :: nat) \<and> (of_char c :: nat) \<le> 13"

text \<open>An optional sign: whether it is a minus, and the rest.\<close>

fun scan_sign :: "string \<Rightarrow> bool \<times> string" where
  "scan_sign [] = (False, [])"
| "scan_sign (c # s) = (if c = CHR ''-'' then (True, s) else if c = CHR ''+'' then (False, s) else (False, c # s))"

definition scan_digits :: "string \<Rightarrow> string \<times> string" where
  "scan_digits s = (takeWhile is_digit s, dropWhile is_digit s)"

text \<open>An exponent, or 0 where the text after \<open>e\<close> is not one.\<close>

fun scan_exponent :: "string \<Rightarrow> int" where
  "scan_exponent [] = 0"
| "scan_exponent (c # s) =
     (if c = CHR ''e'' \<or> c = CHR ''E''
      then (let (neg, s) = scan_sign s; (ds, _) = scan_digits s; e = int (read_nat ds)
            in if neg then - e else e)
      else 0)"

definition power10 :: "int \<Rightarrow> rat" where
  "power10 e = (if 0 \<le> e then 10 ^ nat e else 1 / 10 ^ nat (- e))"

text \<open>The longest prefix in decimal notation, after white space; \<open>None\<close> if there is none.\<close>

definition scan_decimal :: "string \<Rightarrow> rat option" where
  "scan_decimal s =
     (let (neg, s) = scan_sign (dropWhile is_space s);
          (ip, s) = scan_digits s;
          (fp, s) = (case s of c # t \<Rightarrow> if c = CHR ''.'' then scan_digits t else ([], s) | [] \<Rightarrow> ([], s));
          v = of_nat (read_nat (ip @ fp)) * power10 (scan_exponent s - int (length fp))
      in if ip = [] \<and> fp = [] then None else Some (if neg then - v else v))"

definition stod :: "'a cxx \<Rightarrow> string \<Rightarrow> 'a res" where
  "stod C s = (case scan_decimal s of None \<Rightarrow> Inl (Invalid_argument ''stod'') | Some q \<Rightarrow> Inr (c_lit C q))"

definition stoi :: "string \<Rightarrow> int res" where
  "stoi s =
     (let (neg, s) = scan_sign (dropWhile is_space s); (ds, _) = scan_digits s;
          n = (if neg then - int (read_nat ds) else int (read_nat ds))
      in if ds = [] then Inl (Invalid_argument ''stoi'')
         else if n < INT_MIN \<or> INT_MAX < n then Inl (Out_of_range ''stoi'')
         else Inr n)"

subsection \<open>Reading what \<open>std::to_string(int)\<close> prints\<close>

lemma digit_is_digit: "d < 10 \<Longrightarrow> is_digit (digit d)"
  by (simp add: is_digit_def digit_def)

lemma show_nat_digits: "\<forall>c\<in>set (show_nat n). is_digit c"
proof (induction n rule: show_nat.induct)
  case (1 n)
  then show ?case by (subst show_nat.simps) (auto simp: digit_is_digit)
qed

lemma show_nat_not_Nil: "show_nat n \<noteq> []"
  by (subst show_nat.simps) simp

lemma not_digit: "\<not> is_digit (CHR ''-'')" "\<not> is_digit (CHR ''+'')" "\<not> is_digit (CHR '','')" "\<not> is_digit (CHR 0x0A)"
  by (simp_all add: is_digit_def)

lemma digit_not_space: "is_digit c \<Longrightarrow> \<not> is_space c"
  by (auto simp: is_digit_def is_space_def)

lemma show_int_scan:
  "scan_sign (dropWhile is_space (show_int n)) = (n < 0, show_nat (nat \<bar>n\<bar>))"
  "scan_digits (show_nat k) = (show_nat k, [])"
proof -
  show "scan_digits (show_nat k) = (show_nat k, [])"
    using show_nat_digits [of k] by (simp add: scan_digits_def takeWhile_eq_all_conv dropWhile_eq_Nil_conv)
  show "scan_sign (dropWhile is_space (show_int n)) = (n < 0, show_nat (nat \<bar>n\<bar>))"
  proof (cases "n < 0")
    case True
    then show ?thesis by (simp add: show_int_def is_space_def)
  next
    case False
    obtain c s where c: "show_nat (nat n) = c # s" using show_nat_not_Nil [of "nat n"] by (cases "show_nat (nat n)") auto
    then have "is_digit c" using show_nat_digits [of "nat n"] by simp
    then have "c \<noteq> CHR ''-''" "c \<noteq> CHR ''+''" "\<not> is_space c"
      using not_digit digit_not_space by auto
    with False c show ?thesis by (simp add: show_int_def)
  qed
qed

lemma stoi_show_int: "INT_MIN \<le> n \<Longrightarrow> n \<le> INT_MAX \<Longrightarrow> stoi (show_int n) = Inr n"
  by (auto simp: stoi_def show_int_scan read_show_nat show_nat_not_Nil)

lemma stod_show_int: "stod C (show_int n) = Inr (c_int C n)"
proof -
  have "of_nat (nat \<bar>n\<bar>) = (if n < 0 then - of_int n else of_int n :: rat)" by simp
  then show ?thesis
    by (auto simp: stod_def scan_decimal_def show_int_scan read_show_nat show_nat_not_Nil power10_def c_int_def)
qed

lemma show_int_chars: "c \<in> set (show_int n) \<Longrightarrow> is_digit c \<or> c = CHR ''-''"
  using show_nat_digits by (auto simp: show_int_def split: if_splits)

lemma show_int_not_Nil: "show_int n \<noteq> []"
  by (simp add: show_int_def show_nat_not_Nil)

lemma show_int_plain: "CHR '','' \<notin> set (show_int n)" "CHR 0x0A \<notin> set (show_int n)"
  using show_int_chars [of "CHR '',''" n] show_int_chars [of "CHR 0x0A" n] not_digit by auto

end
