(* ===== verification/Dataset.thy ===== *)
theory Dataset
  imports TextIO "HOL-Library.Word"
begin

text \<open>
  \<open>Src/Util Functions/DatasetLoader.cpp\<close> and \<open>MatrixOperations.cpp\<close>. The file system is a map
  from paths to contents. \<open>size_t\<close> is 64 bits wide: an \<open>int\<close> converted to it wraps around, so
  a negative length becomes one above \<open>max_size()\<close>.
\<close>

type_synonym size_t = "64 word"

definition size_of_int :: "int \<Rightarrow> size_t" where
  "size_of_int n = word_of_int n"

definition size_of :: "'b list \<Rightarrow> size_t" where
  "size_of xs = word_of_nat (length xs)"

text \<open>The constructor \<open>vector(n, x)\<close>; \<open>max_size()\<close> is \<open>PTRDIFF_MAX\<close> over the element's size.\<close>

definition max_size :: "nat \<Rightarrow> nat" where
  "max_size bytes = (2 ^ 63 - 1) div bytes"

definition sized_vec :: "nat \<Rightarrow> size_t \<Rightarrow> 'b \<Rightarrow> 'b list res" where
  "sized_vec bytes n x = (if max_size bytes < unat n then Inl Length_error else Inr (replicate (unat n) x))"

type_synonym files = "string \<rightharpoonup> string"

definition open_file :: "files \<Rightarrow> string \<Rightarrow> string res" where
  "open_file fs filePath =
     (case fs filePath of None \<Rightarrow> Inl (Runtime_error (''Could not open file: '' @ filePath)) | Some s \<Rightarrow> Inr s)"

text \<open>The lines after the header.\<close>

definition data_lines :: "string \<Rightarrow> string list" where
  "data_lines content = drop 1 (getlines (CHR 0x0A) content)"

section \<open>Loading\<close>

text \<open>
  One line: the first line that has cells fixes the number of features; a later line pushes
  its cells from feature 0 on, unchecked.
\<close>

definition push_row :: "'a mat \<Rightarrow> 'a vec \<Rightarrow> 'a mat res" where
  "push_row features row =
     (let features = (if features = [] then replicate (length row) [] else features)
      in for_acc (length row) features (\<lambda>features i.
           bind_res (at_v features i) (\<lambda>feature. bind_res (at_v row i) (\<lambda>x.
             set_v features i (feature @ [x])))))"

definition loadFeatures :: "'a cxx \<Rightarrow> files \<Rightarrow> string \<Rightarrow> 'a mat res" where
  "loadFeatures C fs filePath =
     bind_res (open_file fs filePath) (\<lambda>content.
       fold_res (\<lambda>features line.
         bind_res (map_res (stod C) (getlines (CHR '','') line)) (push_row features))
         [] (data_lines content))"

definition loadLabels :: "'a cxx \<Rightarrow> files \<Rightarrow> string \<Rightarrow> 'a mat res" where
  "loadLabels C fs filePath =
     bind_res (open_file fs filePath) (\<lambda>content.
     bind_res (map_res (stod C) (data_lines content)) (\<lambda>labels. Inr [labels]))"

text \<open>
  \<open>max(numOfClasses, static_cast<size_t>(label + 1))\<close> over the labels, then a matrix of that
  many rows.
\<close>

definition loadLabelsGeneral :: "'a cxx \<Rightarrow> files \<Rightarrow> string \<Rightarrow> 'a::{zero,one} mat res" where
  "loadLabelsGeneral C fs filePath =
     bind_res (open_file fs filePath) (\<lambda>content.
     bind_res (fold_res (\<lambda>(encodedLabels, numOfClasses) line.
         bind_res (stoi line) (\<lambda>label. bind_res (add_int label 1) (\<lambda>k.
           Inr (encodedLabels @ [label], max numOfClasses (size_of_int k)))))
         ([], 0 :: size_t) (data_lines content)) (\<lambda>(encodedLabels, numOfClasses).
     bind_res (sized_vec 24 numOfClasses (replicate (length encodedLabels) 0)) (\<lambda>oneHotLabels.
       for_acc (length encodedLabels) oneHotLabels (\<lambda>oneHotLabels sampleIdx.
         bind_res (at_v encodedLabels sampleIdx) (\<lambda>label.
           set_m oneHotLabels (unat (size_of_int label)) sampleIdx 1)))))"

text \<open>The four matrices; the path of the training features has backslashes.\<close>

definition trainFeaturesPath :: "string \<Rightarrow> string" where
  "trainFeaturesPath d = ''..'' @ [CHR 0x5C] @ ''dataset'' @ [CHR 0x5C] @ d @ [CHR 0x5C] @ ''train'' @ [CHR 0x5C] @ d @ ''_features_train.csv''"

definition datasetPath :: "string \<Rightarrow> string \<Rightarrow> string \<Rightarrow> string" where
  "datasetPath d part what = ''../dataset/'' @ d @ ''/'' @ part @ ''/'' @ d @ ''_'' @ what @ ''_'' @ part @ ''.csv''"

definition loadDataset ::
  "'a cxx \<Rightarrow> files \<Rightarrow> string \<Rightarrow> ('a mat \<times> 'a mat \<times> 'a mat \<times> 'a mat) res" where
  "loadDataset C fs datasetName =
     bind_res (loadFeatures C fs (trainFeaturesPath datasetName)) (\<lambda>train_features.
     bind_res (loadLabels C fs (datasetPath datasetName ''train'' ''labels'')) (\<lambda>train_labels.
     bind_res (loadFeatures C fs (datasetPath datasetName ''test'' ''features'')) (\<lambda>test_features.
     bind_res (loadLabels C fs (datasetPath datasetName ''test'' ''labels'')) (\<lambda>test_labels.
       Inr (train_features, train_labels, test_features, test_labels)))))"

section \<open>One-hot encoding and cutting\<close>

text \<open>A double used as an index: truncated; undefined for negative values.\<close>

definition index_of :: "'a cxx \<Rightarrow> 'a \<Rightarrow> nat res" where
  "index_of C x =
     (case c_to_int C x of None \<Rightarrow> Inl (Undefined Bad_conversion)
      | Some k \<Rightarrow> if k < 0 then Inl (Undefined Bad_conversion) else Inr (nat k))"

definition labelToOneHot :: "'a cxx \<Rightarrow> 'a vec \<Rightarrow> int \<Rightarrow> 'a::{zero,one,ord} mat res" where
  "labelToOneHot C labels numClasses =
     bind_res (sized_vec 24 (size_of_int numClasses) (replicate (length labels) 0)) (\<lambda>oneHot.
       for_acc (length labels) oneHot (\<lambda>oneHot j.
         bind_res (at_v labels j) (\<lambda>l.
           if c_int C numClasses \<le> l
           then Inl (Out_of_range ''Label value exceeds the number of classes.'')
           else bind_res (index_of C l) (\<lambda>k. set_m oneHot k j 1))))"

text \<open>The comparison \<open>newCols > m\<close> converts \<open>newCols\<close> to \<open>size_t\<close>.\<close>

definition cutMatrix :: "'a::zero mat \<Rightarrow> int \<Rightarrow> 'a mat res" where
  "cutMatrix matrix newCols =
     bind_res (at_v matrix 0) (\<lambda>row0.
       if size_of row0 < size_of_int newCols
       then Inl (Invalid_argument ''The new column count exceeds the original number of columns.'')
       else bind_res (sized_vec 8 (size_of_int newCols) (0::'a)) (\<lambda>row.
         for_mat (length matrix) (length row) (\<lambda>i j. at_m matrix i j)))"

section \<open>Facts\<close>

lemma size_of_int_nonneg: "0 \<le> n \<Longrightarrow> n \<le> INT_MAX \<Longrightarrow> unat (size_of_int n) = nat n"
  by (simp add: size_of_int_def unat_eq_nat_uint uint_word_of_int INT_MAX_def)

lemma size_of_int_negative:
  "INT_MIN \<le> n \<Longrightarrow> n < 0 \<Longrightarrow> unat (size_of_int n) = nat (2 ^ 64 + n)"
proof -
  assume n: "INT_MIN \<le> n" "n < 0"
  then have "n mod 2 ^ 64 = (n + 2 ^ 64) mod 2 ^ 64" by simp
  also have "\<dots> = n + 2 ^ 64" using n by (intro mod_pos_pos_trivial) (simp_all add: INT_MIN_def)
  finally show ?thesis
    by (simp add: size_of_int_def unat_eq_nat_uint uint_word_of_int add.commute)
qed

text \<open>The loop of \<open>push_row\<close> after \<open>k\<close> cells, as long as there are features to push to.\<close>

lemma push_cells:
  assumes "k \<le> length features" "k \<le> length row"
  shows "for_acc k features (\<lambda>features i.
      bind_res (at_v features i) (\<lambda>feature. bind_res (at_v row i) (\<lambda>x. set_v features i (feature @ [x])))) =
    Inr (map2 (\<lambda>feature x. feature @ [x]) (take k features) (take k row) @ drop k features)"
  using assms
proof (induction k)
  case 0
  then show ?case by simp
next
  case (Suc k)
  let ?F = "map2 (\<lambda>feature x. feature @ [x]) (take k features) (take k row)"
  have k: "length ?F = k" "drop k features = features ! k # drop (Suc k) features"
    using Suc.prems by (simp_all add: Cons_nth_drop_Suc)
  then have at: "(?F @ drop k features) ! k = features ! k"
    by (simp add: nth_append)
  have upd: "(?F @ drop k features)[k := features ! k @ [row ! k]] =
      ?F @ (features ! k @ [row ! k]) # drop (Suc k) features"
    using k by (simp add: list_update_append)
  have "?F @ [features ! k @ [row ! k]] =
      map2 (\<lambda>feature x. feature @ [x]) (take (Suc k) features) (take (Suc k) row)"
    using Suc.prems by (simp add: take_Suc_conv_app_nth)
  with upd at k Suc show ?case by (simp add: for_acc_Suc)
qed

lemma push_row_first: "push_row [] row = Inr (map (\<lambda>x. [x]) row)"
proof -
  have "map2 (\<lambda>feature x. feature @ [x]) (replicate (length row) []) row = map (\<lambda>x. [x]) row"
    by (rule nth_equalityI) simp_all
  with push_cells [of "length row" "replicate (length row) []" row] show ?thesis
    by (simp add: push_row_def Let_def)
qed

lemma push_row_short:
  "features \<noteq> [] \<Longrightarrow> length row \<le> length features \<Longrightarrow>
   push_row features row =
   Inr (map2 (\<lambda>feature x. feature @ [x]) (take (length row) features) row @ drop (length row) features)"
  using push_cells [of "length row" features row] by (simp add: push_row_def Let_def)

lemma push_row_long:
  assumes "features \<noteq> []" "length features < length row"
  shows "push_row features row = Inl (Undefined Out_of_bounds)"
proof -
  let ?F = "map2 (\<lambda>feature x. feature @ [x]) features (take (length features) row)"
  have stuck: "at_v ?F (length features) = Inl (Undefined Out_of_bounds)"
    using assms(2) by (intro at_v_out) simp
  have "for_acc (length row) features (\<lambda>features i.
      bind_res (at_v features i) (\<lambda>feature. bind_res (at_v row i) (\<lambda>x. set_v features i (feature @ [x])))) =
    Inl (Undefined Out_of_bounds)"
  proof (rule for_acc_stuck [of "length features"])
    show "for_acc (length features) features (\<lambda>features i.
        bind_res (at_v features i) (\<lambda>feature. bind_res (at_v row i) (\<lambda>x. set_v features i (feature @ [x])))) = Inr ?F"
      using push_cells [of "length features" features row] assms(2) by simp
  qed (simp_all add: stuck assms(2))
  with assms(1) show ?thesis by (simp add: push_row_def)
qed

section \<open>Loading what was written\<close>

text \<open>A file of integers: a header line, then a line per sample.\<close>

definition csv_of :: "string \<Rightarrow> int list list \<Rightarrow> string" where
  "csv_of header rows =
     terminated (CHR 0x0A) (header # map (\<lambda>row. separated (CHR '','') (map show_int row)) rows)"

lemma csv_lines:
  assumes "CHR 0x0A \<notin> set header"
  shows "data_lines (csv_of header rows) = map (\<lambda>row. separated (CHR '','') (map show_int row)) rows"
proof -
  have "CHR 0x0A \<notin> set (separated (CHR '','') (map show_int row))" for row
    using set_separated [of "CHR '',''" "map show_int row"] show_int_plain(2) by fastforce
  then show ?thesis
    using assms unfolding csv_of_def data_lines_def by (subst getlines_terminated) auto
qed

lemma csv_cells:
  "getlines (CHR '','') (separated (CHR '','') (map show_int row)) = map show_int row"
  by (rule getlines_separated) (auto simp: show_int_plain show_int_not_Nil)

lemma map_res_stod: "map_res (stod C) (map show_int row) = Inr (map (c_int C) row)"
  by (induction row) (simp_all add: stod_show_int)

lemma load_rows:
  assumes "\<forall>row\<in>set rows. length row = k" "0 < k" "rows \<noteq> []"
  shows "fold_res push_row [] rows = Inr (map (\<lambda>i. map (\<lambda>row. row ! i) rows) [0..<k])"
  using assms
proof (induction rows rule: rev_induct)
  case (snoc row rows)
  have len: "length row = k" using snoc.prems by simp
  show ?case
  proof (cases "rows = []")
    case True
    have "map (\<lambda>x. [x]) row = map (\<lambda>i. [row ! i]) [0..<k]"
      by (rule nth_equalityI) (simp_all add: len)
    with True show ?thesis by (simp add: push_row_first)
  next
    case False
    let ?F = "map (\<lambda>i. map (\<lambda>row. row ! i) rows) [0..<k]"
    have "map2 (\<lambda>feature x. feature @ [x]) ?F row = map (\<lambda>i. map (\<lambda>row. row ! i) (rows @ [row])) [0..<k]"
      by (rule nth_equalityI) (simp_all add: len)
    moreover have "fold_res push_row [] rows = Inr ?F" using snoc False by simp
    ultimately show ?thesis
      using push_row_short [of ?F row] len assms(2) by (simp add: fold_res_append)
  qed
qed simp

text \<open>Reading back a feature file of integers gives the transposed matrix: row \<open>i\<close> holds the
  feature \<open>i\<close> of every sample, in the order of the lines, with the header line dropped.\<close>

theorem loadFeatures_reads_back:
  assumes "fs path = Some (csv_of header rows)" "CHR 0x0A \<notin> set header"
    and "\<forall>row\<in>set rows. length row = k" "0 < k" "rows \<noteq> []"
  shows "loadFeatures C fs path = Inr (mat_of k (length rows) (\<lambda>i j. c_int C (rows ! j ! i)))"
proof -
  have "loadFeatures C fs path =
      fold_res (\<lambda>features row. bind_res (map_res (stod C) (map show_int row)) (push_row features)) [] rows"
    using assms(1,2) by (simp add: loadFeatures_def open_file_def csv_lines fold_res_map csv_cells)
  also have "\<dots> = fold_res push_row [] (map (map (c_int C)) rows)"
    by (simp add: map_res_stod fold_res_map)
  also have "\<dots> = Inr (map (\<lambda>i. map (\<lambda>row. row ! i) (map (map (c_int C)) rows)) [0..<k])"
    using assms(3-5) by (intro load_rows) auto
  also have "map (\<lambda>i. map (\<lambda>row. row ! i) (map (map (c_int C)) rows)) [0..<k] =
      mat_of k (length rows) (\<lambda>i j. c_int C (rows ! j ! i))"
    using assms(3) by (intro nth_equalityI) (auto simp: mat_of_row intro!: nth_equalityI)
  finally show ?thesis .
qed

theorem loadFeatures_reads_back_witness:
  "loadFeatures real_cxx [''f.csv'' \<mapsto> csv_of ''a,b'' [[1, -2], [30, 4], [5, 6]]] ''f.csv'' =
    Inr [[1, 30, 5], [-2, 4, 6]]"
proof -
  have "CHR 0x0A \<notin> set ''a,b''" by simp
  then show ?thesis
    using loadFeatures_reads_back [of "[''f.csv'' \<mapsto> csv_of ''a,b'' [[1, -2], [30, 4], [5, 6]]]" "''f.csv''"
        "''a,b''" "[[1, -2], [30, 4], [5, 6]]" 2 real_cxx]
    by (simp add: mat_of_def upt_rec)
qed

text \<open>Lines of different lengths are not rejected: a longer line writes past the last feature,
  which is undefined, and a shorter one is accepted and extends only the first features, so
  that from there on a column of the matrix no longer holds one sample.\<close>

theorem ragged_lines:
  assumes "mat_wf k m features" "0 < k"
  shows "(k < length row \<longrightarrow> push_row features row = Inl (Undefined Out_of_bounds)) \<and>
    (length row \<le> k \<longrightarrow> (\<exists>F. push_row features row = Inr F \<and> length F = k \<and>
       (\<forall>i<k. F ! i = (if i < length row then features ! i @ [row ! i] else features ! i))))"
proof -
  have ne: "features \<noteq> []" "length features = k" using assms by auto
  let ?F = "map2 (\<lambda>feature x. feature @ [x]) (take (length row) features) row @ drop (length row) features"
  have "?F ! i = (if i < length row then features ! i @ [row ! i] else features ! i)" "length ?F = k"
    if "length row \<le> k" "i < k" for i
    using that ne by (auto simp: nth_append)
  then show ?thesis
    using push_row_long [OF ne(1)] push_row_short [OF ne(1), of row] ne(2) assms(2) by auto
qed

theorem ragged_lines_witness:
  "push_row [[1], [2 :: int]] [3, 4, 5] = Inl (Undefined Out_of_bounds) \<and>
   (\<exists>F. push_row [[1], [2 :: int]] [3] = Inr F \<and> F ! 1 = [2])"
  using ragged_lines [of 2 1 "[[1], [2 :: int]]" "[3, 4, 5]"] ragged_lines [of 2 1 "[[1], [2 :: int]]" "[3]"]
  by auto

section \<open>One-hot matrices\<close>

lemma one_hot_fill:
  assumes "\<And>j. j < m \<Longrightarrow> k j < n"
  shows "for_acc m (replicate n (replicate m 0)) (\<lambda>oneHot j. set_m oneHot (k j) j (1 :: 'a::{zero,one})) =
    Inr (mat_of n m (\<lambda>i j. num_of_bool (i = k j)))"
proof -
  let ?R = "\<lambda>q. mat_of n m (\<lambda>i j. num_of_bool (j < q \<and> i = k j) :: 'a)"
  have "for_acc q (replicate n (replicate m 0)) (\<lambda>oneHot j. set_m oneHot (k j) j 1) = Inr (?R q)"
    if "q \<le> m" for q
    using that
  proof (induction q)
    case 0
    show ?case by (simp add: mat_of_def) (rule nth_equalityI, simp_all add: map_replicate_trivial)
  next
    case (Suc q)
    have "set_m (?R q) (k q) q 1 = Inr (?R (Suc q))"
      using Suc.prems assms [of q]
      by (subst set_m_cell [of n m]) (auto simp: mat_of_eq_iff less_Suc_eq num_of_bool_def)
    with Suc show ?case by (simp add: for_acc_Suc)
  qed
  from this [of m] show ?thesis by (simp cong: mat_of_cong)
qed

lemma one_hot_prefix:
  assumes "\<And>j. j < p \<Longrightarrow> k j < n \<and> j < q"
  shows "\<exists>M. for_acc p (replicate n (replicate q 0)) (\<lambda>oneHot j. set_m oneHot (k j) j (1 :: 'a::{zero,one})) = Inr M"
proof -
  have wf: "mat_wf n q (replicate n (replicate q 0 :: 'a list))"
    by (rule mat_wfI) simp_all
  have "\<exists>M. for_acc p' (replicate n (replicate q 0)) (\<lambda>oneHot j. set_m oneHot (k j) j (1 :: 'a)) = Inr M \<and> mat_wf n q M"
    if "p' \<le> p" for p'
    using that
  proof (induction p')
    case 0
    with wf show ?case by simp
  next
    case (Suc p')
    then obtain M where M: "for_acc p' (replicate n (replicate q 0)) (\<lambda>oneHot j. set_m oneHot (k j) j (1 :: 'a)) = Inr M"
      "mat_wf n q M" by auto
    with assms [of p'] Suc.prems show ?case by (simp add: for_acc_Suc set_m_cell [OF M(2)])
  qed
  then show ?thesis by blast
qed

lemma for_acc_cong:
  assumes "\<And>s i. i < n \<Longrightarrow> f s i = g s i"
  shows "for_acc n s f = for_acc n s g"
  unfolding for_acc_def using assms by (intro fold_res_cong) auto

lemma sized_vec_int:
  "0 \<le> n \<Longrightarrow> n \<le> INT_MAX \<Longrightarrow> sized_vec 24 (size_of_int n) x = Inr (replicate (nat n) x)"
  by (simp add: sized_vec_def size_of_int_nonneg max_size_def INT_MAX_def)

lemma size_of_int_max:
  "0 \<le> a \<Longrightarrow> a \<le> INT_MAX \<Longrightarrow> 0 \<le> b \<Longrightarrow> b \<le> INT_MAX \<Longrightarrow> max (size_of_int a) (size_of_int b) = size_of_int (max a b)"
  by (auto simp: max_def word_le_nat_alt size_of_int_nonneg nat_le_eq_zle)

text \<open>The number of classes the label file needs.\<close>

definition class_count :: "int list \<Rightarrow> int" where
  "class_count ls = foldl (\<lambda>k l. max k (l + 1)) 0 ls"

lemma class_count_snoc: "class_count (ls @ [l]) = max (class_count ls) (l + 1)"
  by (simp add: class_count_def)

lemma class_count_bounds:
  "\<forall>l\<in>set ls. l < class_count ls" "0 \<le> class_count ls" "\<forall>l\<in>set ls. l < INT_MAX \<Longrightarrow> class_count ls \<le> INT_MAX"
proof -
  show "\<forall>l\<in>set ls. l < class_count ls"
    by (induction ls rule: rev_induct) (auto simp: class_count_snoc max_def)
  show "0 \<le> class_count ls"
    by (induction ls rule: rev_induct) (auto simp: class_count_snoc class_count_def)
  show "\<forall>l\<in>set ls. l < INT_MAX \<Longrightarrow> class_count ls \<le> INT_MAX"
    by (induction ls rule: rev_induct) (auto simp: class_count_snoc class_count_def INT_MAX_def)
qed

lemma read_labels:
  assumes "\<forall>l\<in>set ls. 0 \<le> l \<and> l < INT_MAX"
  shows "fold_res (\<lambda>(encodedLabels, numOfClasses) line.
      bind_res (stoi line) (\<lambda>label. bind_res (add_int label 1) (\<lambda>k.
        Inr (encodedLabels @ [label], max numOfClasses (size_of_int k)))))
      ([], 0 :: size_t) (map show_int ls) = Inr (ls, size_of_int (class_count ls))"
  using assms
proof (induction ls rule: rev_induct)
  case Nil
  show ?case by (simp add: class_count_def size_of_int_def)
next
  case (snoc l ls)
  then have "stoi (show_int l) = Inr l" "add_int l 1 = Inr (l + 1)"
    by (auto intro!: stoi_show_int simp: INT_MIN_def add_int_def)
  with snoc class_count_bounds(2,3) [of ls] show ?case
    by (simp add: fold_res_append class_count_snoc size_of_int_max)
qed

text \<open>Loading a file of class labels that are not negative gives their one-hot matrix: a row
  per class up to the largest label, a column per sample, and in each column one 1, at the
  sample's label.\<close>

theorem loadLabelsGeneral_one_hot:
  assumes "fs path = Some (terminated (CHR 0x0A) (header # map show_int ls))" "CHR 0x0A \<notin> set header"
    and "\<forall>l\<in>set ls. 0 \<le> l \<and> l < INT_MAX"
  shows "loadLabelsGeneral C fs path =
    Inr (mat_of (nat (class_count ls)) (length ls) (\<lambda>i j. num_of_bool (int i = ls ! j)))"
proof -
  have lines: "data_lines (terminated (CHR 0x0A) (header # map show_int ls)) = map show_int ls"
    unfolding data_lines_def by (subst getlines_terminated) (use assms(2) show_int_plain in auto)
  have label: "0 \<le> ls ! j" "ls ! j < class_count ls" "unat (size_of_int (ls ! j)) = nat (ls ! j)"
    if "j < length ls" for j
  proof -
    from that have mem: "ls ! j \<in> set ls" by (rule nth_mem)
    with assms(3) class_count_bounds(1) [of ls]
    have "0 \<le> ls ! j" "ls ! j < INT_MAX" "ls ! j < class_count ls" by blast+
    then show "0 \<le> ls ! j" "ls ! j < class_count ls" "unat (size_of_int (ls ! j)) = nat (ls ! j)"
      by (simp_all add: size_of_int_nonneg)
  qed
  have vec: "sized_vec 24 (size_of_int (class_count ls)) x = Inr (replicate (nat (class_count ls)) x)" for x
    using class_count_bounds(2,3) [of ls] assms(3) by (intro sized_vec_int) auto
  have "for_acc (length ls) (replicate (nat (class_count ls)) (replicate (length ls) 0)) (\<lambda>oneHotLabels sampleIdx.
      bind_res (at_v ls sampleIdx) (\<lambda>label. set_m oneHotLabels (unat (size_of_int label)) sampleIdx 1)) =
    for_acc (length ls) (replicate (nat (class_count ls)) (replicate (length ls) 0)) (\<lambda>oneHot j.
      set_m oneHot (nat (ls ! j)) j (1 :: 'a))"
    by (rule for_acc_cong) (simp add: label(3))
  also have "\<dots> = Inr (mat_of (nat (class_count ls)) (length ls) (\<lambda>i j. num_of_bool (i = nat (ls ! j))))"
  proof (rule one_hot_fill)
    fix j assume j: "j < length ls"
    show "nat (ls ! j) < nat (class_count ls)"
      using label(1,2) [OF j] by (simp add: nat_less_eq_zless)
  qed
  also have "\<dots> = Inr (mat_of (nat (class_count ls)) (length ls) (\<lambda>i j. num_of_bool (int i = ls ! j)))"
    using label(1) by (auto simp: mat_of_eq_iff intro!: arg_cong [where f = num_of_bool])
  finally show ?thesis
    by (simp add: loadLabelsGeneral_def open_file_def assms(1) lines read_labels [OF assms(3)] vec)
qed

theorem loadLabelsGeneral_one_hot_witness:
  "loadLabelsGeneral real_cxx [''l'' \<mapsto> terminated (CHR 0x0A) (''y'' # map show_int [2, 0])] ''l'' =
    Inr [[0, 1], [0, 0], [1, 0]]"
proof -
  have "CHR 0x0A \<notin> set ''y''" by simp
  then show ?thesis
    using loadLabelsGeneral_one_hot [of "[''l'' \<mapsto> terminated (CHR 0x0A) (''y'' # map show_int [2, 0])]" "''l''"
        "''y''" "[2, 0]" real_cxx]
    by (simp add: mat_of_def upt_rec class_count_def INT_MAX_def)
qed

text \<open>\<open>labelToOneHot\<close> checks a label against the upper bound only. Labels that are indices
  below \<open>numClasses\<close> give the one-hot matrix; the first label that is too large throws
  \<open>out_of_range\<close>; a label of -1 or less is used as an index all the same, which is
  undefined.\<close>

theorem labelToOneHot_checks_upper_bound_only:
  assumes "0 \<le> numClasses" "numClasses \<le> INT_MAX" "\<forall>k\<in>set ks. int k < numClasses"
  shows "labelToOneHot real_cxx (map real ks) numClasses =
      Inr (mat_of (nat numClasses) (length ks) (\<lambda>i j. num_of_bool (i = ks ! j))) \<and>
    (\<forall>l rest. of_int numClasses \<le> l \<longrightarrow> labelToOneHot real_cxx (map real ks @ l # rest) numClasses =
      Inl (Out_of_range ''Label value exceeds the number of classes.'')) \<and>
    (\<forall>l rest. l \<le> - 1 \<longrightarrow> labelToOneHot real_cxx (map real ks @ l # rest) numClasses =
      Inl (Undefined Bad_conversion))"
proof -
  let ?body = "\<lambda>labels oneHot j. bind_res (at_v labels j) (\<lambda>l.
      if c_int real_cxx numClasses \<le> l
      then Inl (Out_of_range ''Label value exceeds the number of classes.'')
      else bind_res (index_of real_cxx l) (\<lambda>k. set_m oneHot k j (1::real)))"
  let ?m = "length ks"
  have unfold: "labelToOneHot real_cxx labels numClasses =
      for_acc (length labels) (replicate (nat numClasses) (replicate (length labels) 0)) (?body labels)" for labels
    by (simp add: labelToOneHot_def sized_vec_int [OF assms(1,2)])
  have index: "index_of real_cxx (real k) = Inr k" if "int k < numClasses" for k
    using that assms(2) by (simp add: index_of_def real_to_int_of_nat)
  have step: "?body (map real ks @ ls) oneHot j = set_m oneHot (ks ! j) j 1" if "j < ?m" for oneHot ls j
  proof -
    have lt: "int (ks ! j) < numClasses" using assms(3) that by simp
    then have "\<not> real_of_int numClasses \<le> real (ks ! j)"
      by (metis not_le of_int_less_iff of_int_of_nat_eq)
    with lt that show ?thesis by (simp add: nth_append index)
  qed
  have prefix: "for_acc ?m (replicate (nat numClasses) (replicate q 0)) (?body (map real ks @ ls)) =
      for_acc ?m (replicate (nat numClasses) (replicate q 0)) (\<lambda>oneHot j. set_m oneHot (ks ! j) j 1)" for q ls
    by (rule for_acc_cong) (rule step)
  have run: "\<exists>M. for_acc ?m (replicate (nat numClasses) (replicate q 0)) (\<lambda>oneHot j. set_m oneHot (ks ! j) j (1::real)) = Inr M"
    if "?m \<le> q" for q
  proof (rule one_hot_prefix)
    fix j assume "j < ?m"
    with assms(3) that show "ks ! j < nat numClasses \<and> j < q" by (simp add: zless_nat_eq_int_zless)
  qed
  have "labelToOneHot real_cxx (map real ks) numClasses =
      for_acc ?m (replicate (nat numClasses) (replicate ?m 0)) (\<lambda>oneHot j. set_m oneHot (ks ! j) j 1)"
    using prefix [of ?m "[]"] by (simp only: unfold append_Nil2 length_map)
  also have "\<dots> = Inr (mat_of (nat numClasses) ?m (\<lambda>i j. num_of_bool (i = ks ! j)))"
    using assms(3) by (intro one_hot_fill) (simp add: zless_nat_eq_int_zless)
  finally have good: "labelToOneHot real_cxx (map real ks) numClasses =
      Inr (mat_of (nat numClasses) ?m (\<lambda>i j. num_of_bool (i = ks ! j)))" .
  have bad: "labelToOneHot real_cxx (map real ks @ l # rest) numClasses = Inl e"
    if "\<And>oneHot. ?body (map real ks @ l # rest) oneHot ?m = Inl e" for l rest e
  proof -
    obtain M where "for_acc ?m (replicate (nat numClasses) (replicate (?m + Suc (length rest)) 0))
        (?body (map real ks @ l # rest)) = Inr M"
      using run [of "?m + Suc (length rest)"] unfolding prefix by auto
    from for_acc_stuck [OF this that] show ?thesis by (simp add: unfold)
  qed
  have "labelToOneHot real_cxx (map real ks @ l # rest) numClasses =
      Inl (Out_of_range ''Label value exceeds the number of classes.'')" if "of_int numClasses \<le> l" for l rest
    using that by (intro bad) (simp add: nth_append)
  moreover have "labelToOneHot real_cxx (map real ks @ l # rest) numClasses = Inl (Undefined Bad_conversion)"
    if "l \<le> - 1" for l rest
  proof (rule bad)
    fix oneHot
    have "\<lceil>l\<rceil> \<le> - 1" using that by (simp add: ceiling_le_iff)
    then have "index_of real_cxx l = Inl (Undefined Bad_conversion)"
      using that by (simp add: index_of_def real_to_int_def Let_def)
    moreover have "\<not> of_int numClasses \<le> l" using that assms(1) by linarith
    ultimately show "?body (map real ks @ l # rest) oneHot ?m = Inl (Undefined Bad_conversion)"
      by (simp add: nth_append)
  qed
  ultimately show ?thesis using good by blast
qed

theorem labelToOneHot_checks_upper_bound_only_witness:
  "labelToOneHot real_cxx [1, 0] 2 = Inr [[0, 1], [1, 0]] \<and>
   labelToOneHot real_cxx [1, 0, - 3] 2 = Inl (Undefined Bad_conversion)"
proof -
  have "2 \<le> INT_MAX" by (simp add: INT_MAX_def)
  with labelToOneHot_checks_upper_bound_only [of 2 "[1, 0]"] show ?thesis
    by (simp add: mat_of_def numeral_2_eq_2)
qed

section \<open>Cutting columns\<close>

text \<open>\<open>cutMatrix\<close> returns the first \<open>newCols\<close> columns, and throws \<open>invalid_argument\<close> for any other
  \<open>newCols\<close>: a negative one becomes a huge unsigned number and fails the same test.\<close>

theorem cutMatrix_keeps_first_columns:
  assumes "mat_wf r c A" "0 < r" "int c \<le> INT_MAX" "INT_MIN \<le> newCols" "newCols \<le> INT_MAX"
  shows "cutMatrix A newCols =
    (if 0 \<le> newCols \<and> newCols \<le> int c then Inr (mat_of r (nat newCols) (\<lambda>i j. A ! i ! j))
     else Inl (Invalid_argument ''The new column count exceeds the original number of columns.''))"
proof -
  have row: "at_v A 0 = Inr (A ! 0)" "length (A ! 0) = c" "length A = r" using assms(1,2) by simp_all
  have c: "unat (size_of (A ! 0)) = c"
    using assms(3) row(2) size_of_int_nonneg [of "int c"] by (simp add: size_of_def size_of_int_def)
  show ?thesis
  proof (cases "0 \<le> newCols")
    case True
    then have u: "unat (size_of_int newCols) = nat newCols" using assms(5) by (rule size_of_int_nonneg)
    have lt: "size_of (A ! 0) < size_of_int newCols \<longleftrightarrow> \<not> newCols \<le> int c"
      using True c u by (simp add: word_less_nat_alt) linarith
    have "sized_vec 8 (size_of_int newCols) (0 :: 'a) = Inr (replicate (nat newCols) 0)"
      using True assms(5) by (simp add: sized_vec_def u max_size_def INT_MAX_def)
    moreover have "for_mat r (nat newCols) (\<lambda>i j. at_m A i j) = Inr (mat_of r (nat newCols) (\<lambda>i j. A ! i ! j))"
      if "newCols \<le> int c" using that by (intro for_mat_pure at_m_wf [OF assms(1)]) auto
    ultimately show ?thesis using True lt row by (simp add: cutMatrix_def)
  next
    case False
    then have "unat (size_of_int newCols) = nat (2 ^ 64 + newCols)"
      using assms(4) by (intro size_of_int_negative) simp_all
    then have "size_of (A ! 0) < size_of_int newCols"
      using c assms(3,4) by (simp add: word_less_nat_alt INT_MAX_def INT_MIN_def)
    with False row show ?thesis by (simp add: cutMatrix_def)
  qed
qed

theorem cutMatrix_keeps_first_columns_witness:
  "cutMatrix [[1, 2, 3], [4, 5, 6 :: int]] 2 = Inr [[1, 2], [4, 5]] \<and>
   cutMatrix [[1, 2, 3], [4, 5, 6 :: int]] (- 1) =
     Inl (Invalid_argument ''The new column count exceeds the original number of columns.'')"
  using cutMatrix_keeps_first_columns [of 2 3 "[[1, 2, 3], [4, 5, 6 :: int]]" 2]
    cutMatrix_keeps_first_columns [of 2 3 "[[1, 2, 3], [4, 5, 6 :: int]]" "- 1"]
  by (simp add: INT_MAX_def INT_MIN_def mat_of_def numeral_2_eq_2)

end
