(* ===== verification/HyperParameterSearch.thy ===== *)
theory HyperParameterSearch
  imports TrainFacts
begin

text \<open>
  \<open>Src/Util Functions/HyperParameterSearch.cpp\<close>: eight nested loops that build, train and
  delete a network per combination and collect a text about each. A string literal plus an
  \<open>int\<close> is pointer arithmetic in C++: the text starts that many characters into the literal,
  and a number outside the literal is undefined.
\<close>

section \<open>Loops over vectors whose body may not return\<close>

fun foreach :: "('s \<Rightarrow> 'b \<Rightarrow> 's res option) \<Rightarrow> 's \<Rightarrow> 'b list \<Rightarrow> 's res option" where
  "foreach f s [] = Some (Inr s)"
| "foreach f s (x # xs) =
     (case f s x of None \<Rightarrow> None | Some (Inl e) \<Rightarrow> Some (Inl e) | Some (Inr s') \<Rightarrow> foreach f s' xs)"

section \<open>The search\<close>

definition literal_plus :: "string \<Rightarrow> int \<Rightarrow> string res" where
  "literal_plus lit k =
     (if 0 \<le> k \<and> k \<le> int (length lit) then Inr (drop (nat k) lit) else Inl (Undefined Out_of_bounds))"

definition newline :: string where
  "newline = [CHR 0x0A]"

definition listed :: "('b \<Rightarrow> string) \<Rightarrow> 'b list \<Rightarrow> string" where
  "listed show xs = concat (map (\<lambda>x. show x @ '', '') xs)"

text \<open>The text about one training; the number it starts with is never incremented.\<close>

definition text_before :: "'a cxx \<Rightarrow> int list \<Rightarrow> string list \<Rightarrow> 'a list \<Rightarrow> string \<Rightarrow> string" where
  "text_before C numOfNeuron activation learningRate lossFunction =
     ''result of train number '' @ show_int 1 @ '':'' @ newline @
     ''number of neurons: '' @ listed show_int numOfNeuron @
     newline @ ''activation functions: '' @ listed (\<lambda>a. a) activation @
     newline @ ''learning rates: '' @ listed (c_to_string C) learningRate @
     newline @ ''loss func: '' @ lossFunction"

definition text_after :: "'a cxx \<Rightarrow> 'a \<Rightarrow> string" where
  "text_after C cost = newline @ ''cost score was: '' @ c_to_string C cost @ newline @ newline @ newline"

definition epochs_literal :: string where
  "epochs_literal = newline @ ''number of epochs trained: ''"

definition batch_literal :: string where
  "batch_literal = newline @ ''minibatch size: ''"

definition result_text ::
  "'a cxx \<Rightarrow> int list \<Rightarrow> string list \<Rightarrow> 'a list \<Rightarrow> string \<Rightarrow> int \<Rightarrow> int \<Rightarrow> 'a \<Rightarrow> string res" where
  "result_text C numOfNeuron activation learningRate lossFunction epochNum miniBatchSize cost =
     bind_res (literal_plus epochs_literal epochNum) (\<lambda>epochs.
     bind_res (literal_plus batch_literal miniBatchSize) (\<lambda>batch.
       Inr (text_before C numOfNeuron activation learningRate lossFunction @ epochs @ batch @
            text_after C cost)))"

text \<open>The body of the innermost loop. The state is what the generators and the socket hold, and the results.\<close>

type_synonym search_state = "nat source \<times> int source \<times> string list \<times> string list"

definition try_case ::
  "'a cxx \<Rightarrow> 'a dist \<Rightarrow> bool \<Rightarrow> 'a::{zero,one,plus,minus,uminus,times,inverse,ord} mat \<Rightarrow> 'a mat \<Rightarrow> 'a mat
   \<Rightarrow> int list \<Rightarrow> string list \<Rightarrow> 'a list \<Rightarrow> 'a list \<Rightarrow> 'a list \<Rightarrow> string \<Rightarrow> int
   \<Rightarrow> search_state \<Rightarrow> int \<Rightarrow> search_state res option" where
  "try_case C D ws inputTrain inputTest targetsTrain numOfNeuron activation learningRate keyProbVal lambdaVal
     lossFunction epochNum = (\<lambda>(draws, rnd, sent, results) miniBatchSize.
     (case new_NeuralNetwork C D draws numOfNeuron activation lossFunction learningRate keyProbVal lambdaVal
             (int (length inputTest)) of
        Inl e \<Rightarrow> Some (Inl e)
      | Inr (N, draws) \<Rightarrow>
          bind_opt (train C rnd N inputTrain targetsTrain epochNum miniBatchSize ws)
            (\<lambda>(_, rnd, cost, messages).
          bind_res (result_text C numOfNeuron activation learningRate lossFunction epochNum miniBatchSize cost)
            (\<lambda>result. Inr (draws, rnd, sent @ messages, results @ [result])))))"

definition hyperParameterTry ::
  "'a cxx \<Rightarrow> 'a dist \<Rightarrow> nat source \<Rightarrow> int source \<Rightarrow> int list list \<Rightarrow> string list list \<Rightarrow> 'a list list
   \<Rightarrow> string list \<Rightarrow> int list \<Rightarrow> int list
   \<Rightarrow> 'a::{zero,one,plus,minus,uminus,times,inverse,ord} mat \<Rightarrow> 'a mat \<Rightarrow> 'a mat \<Rightarrow> 'a mat
   \<Rightarrow> 'a list list \<Rightarrow> 'a list list \<Rightarrow> bool \<Rightarrow> search_state res option" where
  "hyperParameterTry C D draws rnd numOfNeurons activations learningRates lossFunctions epochNums
     miniBatchSizes inputTrain inputTest targetsTrain targetsTest keyProbValues lambdaValues ws =
     foreach (\<lambda>s numOfNeuron.
     foreach (\<lambda>s activation.
     foreach (\<lambda>s learningRate.
     foreach (\<lambda>s keyProbVal.
     foreach (\<lambda>s lambdaVal.
     foreach (\<lambda>s lossFunction.
     foreach (\<lambda>s epochNum.
     foreach (try_case C D ws inputTrain inputTest targetsTrain numOfNeuron activation learningRate
         keyProbVal lambdaVal lossFunction epochNum)
       s miniBatchSizes) s epochNums) s lossFunctions) s lambdaValues) s keyProbValues)
       s learningRates) s activations) (draws, rnd, [], []) numOfNeurons"

section \<open>Facts\<close>

definition search_results :: "search_state \<Rightarrow> string list" where
  "search_results = (\<lambda>(draws, rnd, sent, results). results)"

lemma search_results_simp [simp]: "search_results (draws, rnd, sent, results) = results"
  by (simp add: search_results_def)

text \<open>A loop each of whose steps adds \<open>k\<close> results adds \<open>k\<close> per element.\<close>

lemma foreach_count:
  assumes "foreach f s xs = Some (Inr t)"
    and "\<And>s x t. x \<in> set xs \<Longrightarrow> f s x = Some (Inr t) \<Longrightarrow> length (search_results t) = length (search_results s) + k"
  shows "length (search_results t) = length (search_results s) + length xs * k"
  using assms
proof (induction xs arbitrary: s)
  case (Cons x xs)
  then obtain s' where "f s x = Some (Inr s')" "foreach f s' xs = Some (Inr t)"
    by (auto split: option.splits sum.splits)
  moreover from this(2) have "length (search_results t) = length (search_results s') + length xs * k"
    by (rule Cons.IH) (rule Cons.prems(2), simp_all)
  moreover have "length (search_results s') = length (search_results s) + k"
    by (rule Cons.prems(2) [of x]) (simp_all add: calculation)
  ultimately show ?case by simp
qed simp

lemma try_case_count:
  "try_case C D ws X Xt T ns acts lrs kps lams loss e s mb = Some (Inr t) \<Longrightarrow>
   length (search_results t) = length (search_results s) + 1"
  by (cases s) (auto simp: try_case_def bind_opt_def bind_res_eq_Inr split: sum.splits option.splits)

text \<open>When the search returns, it has one text per combination: the number of results is the
  product of the numbers of values of the eight hyper-parameters.\<close>

theorem search_covers_every_combination:
  assumes "hyperParameterTry C D draws rnd ns acts lrs losses epochs mbs X Xt T Tt kps lams ws = Some (Inr s)"
  shows "length (search_results s) =
    length ns * (length acts * (length lrs * (length kps * (length lams * (length losses * (length epochs * length mbs))))))"
proof -
  have "length (search_results s) = length (search_results (draws, rnd, [], [])) +
    length ns * (length acts * (length lrs * (length kps * (length lams * (length losses * (length epochs * (length mbs * 1)))))))"
    using assms unfolding hyperParameterTry_def
    by (elim foreach_count try_case_count)
  then show ?thesis by simp
qed

theorem search_covers_every_combination_witness:
  "length (search_results (\<lambda>k. k, \<lambda>_. 0, [], [])) = 0"
  using search_covers_every_combination [of real_cxx example_dist "\<lambda>k. k" "\<lambda>_. 0" "[[2]]" "[[''tanh'']]" "[[1]]" "[]"
      "[1]" "[1]" "[[1]]" "[[1]]" "[[1]]" "[[1]]" "[[]]" "[[]]" False "(\<lambda>k. k, \<lambda>_. 0, [], [])"]
  by (simp add: hyperParameterTry_def)

lemma literal_lengths: "length epochs_literal = 27" "length batch_literal = 17"
  by (simp_all add: epochs_literal_def batch_literal_def newline_def)

lemma result_text_eq:
  "result_text C ns acts lrs loss e mb cost =
    (if 0 \<le> e \<and> e \<le> 27 \<and> 0 \<le> mb \<and> mb \<le> 17
     then Inr (text_before C ns acts lrs loss @ drop (nat e) epochs_literal @ drop (nat mb) batch_literal @
               text_after C cost)
     else Inl (Undefined Out_of_bounds))"
  by (simp add: result_text_def literal_plus_def literal_lengths)

text \<open>A search over one combination of conforming hyper-parameters, with data that fits, trains
  the network, but then builds its text by adding the epoch number and the batch size to the
  pointers of two literals: beyond 27 epochs or a batch size of 17 that is undefined. Within
  these bounds the search returns one text, in which the two numbers only shorten the
  literals.\<close>

theorem search_text_uses_pointer_arithmetic:
  assumes hyper: "hyper_ok 0 (int n) ns acts lrs kps lams" and loss: "getLossClass loss = Inr l"
    and X: "mat_wf n m X" "0 < m" "length Xt = n" and T: "mat_wf k m T" "T \<noteq> []"
    and fit: "targets_fit C l (nat (last (int n # ns))) m T"
    and mb: "0 < mb" "int m + int mb \<le> INT_MAX" and epochs: "0 \<le> epochNum" "epochNum < INT_MAX"
  shows "if epochNum \<le> 27 \<and> mb \<le> 17
    then \<exists>s cost. hyperParameterTry C D draws rnd [ns] [acts] [lrs] [loss] [epochNum] [int mb] X Xt T Tt
        [kps] [lams] ws = Some (Inr s) \<and>
      search_results s = [text_before C ns acts lrs loss @ drop (nat epochNum) epochs_literal @
        drop mb batch_literal @ text_after C cost]
    else hyperParameterTry C D draws rnd [ns] [acts] [lrs] [loss] [epochNum] [int mb] X Xt T Tt
        [kps] [lams] ws = Some (Inl (Undefined Out_of_bounds))"
proof -
  have n: "0 < n" using hyper by (simp add: hyper_ok_def)
  obtain N draws' where N: "new_NeuralNetwork C D draws ns acts loss lrs kps lams (int n) = Inr (N, draws')"
    "nn_ok n (nat (last (int n # ns))) N" "nn_lossFunction N = l"
    using new_NeuralNetwork_ok [OF hyper loss, of C D draws] by auto
  obtain N' rnd' acc msgs where "train C rnd N X T epochNum (int mb) ws = Some (Inr (N', rnd', acc, msgs))"
    using train_total [OF N(2) X(1) n X(2) T, of C mb epochNum rnd ws] N(3) fit mb epochs(2) by blast
  then show ?thesis
    using N(1) X(3) epochs(1) by (auto simp: hyperParameterTry_def try_case_def result_text_eq)
qed

theorem search_text_uses_pointer_arithmetic_witness:
  "hyperParameterTry real_cxx example_dist (\<lambda>k. k) (\<lambda>_. 0) [[2]] [[''tanh'']] [[1]] [''sigmoid cross entropy'']
     [1] [64] [[5]] [[5]] [[1], [0]] [] [[]] [[]] False = Some (Inl (Undefined Out_of_bounds))"
proof -
  have "hyper_ok 0 (int 1) [2] [''tanh''] [1] [] []"
    by (simp add: hyper_ok_def INT_MAX_def getActivationClass_def)
  from search_text_uses_pointer_arithmetic [OF this, of "''sigmoid cross entropy''" SigmoidCrossEntropy 1 "[[5]]" "[[5]]"
      2 "[[1], [0]]" real_cxx 64 1 example_dist "\<lambda>k. k" "\<lambda>_. 0" "[]" False]
  show ?thesis by (simp add: getLossClass_def INT_MAX_def)
qed

end
