(* ===== verification/SampleData.thy ===== *)
theory SampleData
  imports Cxx
begin

text \<open>
  \<open>randomFloat\<close> and \<open>generateDataset\<close> of \<open>Src/test.cpp\<close>: artificial samples of two classes, with
  six features each. \<open>std::fmod\<close> is an argument, \<open>real_fmod\<close> over the reals.
\<close>

definition randomFloat :: "'a::inverse cxx \<Rightarrow> int source \<Rightarrow> 'a" where
  "randomFloat C rnd = c_int C (next_draw rnd) / c_int C (c_rand_max C)"

text \<open>Lower bound and width of the six features, with and without the output.\<close>

definition feature_ranges :: "bool \<Rightarrow> (rat \<times> rat) list" where
  "feature_ranges output =
     (if output
      then [(6/10, 4/10), (1/10, 3/10), (6/10, 4/10), (7/10, 3/10), (1/10, 4/10), (2/10, 4/10)]
      else [(1/10, 3/10), (6/10, 4/10), (1/10, 35/100), (2/10, 35/100), (7/10, 3/10), (5/10, 5/10)])"

text \<open>One draw decides the output, then one draw per feature.\<close>

definition generate_sample ::
  "'a cxx \<Rightarrow> ('a \<Rightarrow> 'a \<Rightarrow> 'a) \<Rightarrow> int source \<Rightarrow> ('a::{plus,inverse,ord} vec \<times> bool \<times> int source)" where
  "generate_sample C fmod rnd =
     (let output = c_lit C (1/2) < randomFloat C rnd;
          rnd = skip_draws 1 rnd;
          ranges = feature_ranges output
      in (map (\<lambda>k. c_lit C (fst (ranges ! k)) + fmod (randomFloat C (skip_draws k rnd)) (c_lit C (snd (ranges ! k))))
            [0..<6], output, skip_draws 6 rnd))"

definition generateDataset ::
  "'a cxx \<Rightarrow> ('a \<Rightarrow> 'a \<Rightarrow> 'a) \<Rightarrow> int source \<Rightarrow> 'a::{zero,one,plus,inverse,ord} mat \<Rightarrow> 'a mat \<Rightarrow> int
   \<Rightarrow> ('a mat \<times> 'a mat \<times> int source) res" where
  "generateDataset C fmod rnd inputs outputs numSamples =
     for_acc (nat numSamples) (inputs, outputs, rnd) (\<lambda>(inputs, outputs, rnd) i.
       let (sample, output, rnd) = generate_sample C fmod rnd
       in bind_res (at_v outputs 0) (\<lambda>row. bind_res (set_v outputs 0 (row @ [num_of_bool output])) (\<lambda>outputs.
            Inr (inputs @ [sample], outputs, rnd))))"

section \<open>The generated samples\<close>

definition real_fmod :: "real \<Rightarrow> real \<Rightarrow> real" where
  "real_fmod x y = x - y * of_int (if 0 \<le> x / y then \<lfloor>x / y\<rfloor> else \<lceil>x / y\<rceil>)"

lemma real_fmod_range: "0 \<le> x \<Longrightarrow> 0 < y \<Longrightarrow> 0 \<le> real_fmod x y \<and> real_fmod x y < y"
proof -
  assume xy: "0 \<le> x" "0 < y"
  define k where "k = \<lfloor>x / y\<rfloor>"
  have "of_int k \<le> x / y" "x / y < of_int k + 1" by (simp_all add: k_def)
  then have "y * of_int k \<le> x" "x < y * of_int k + y"
    using xy by (simp_all add: field_simps)
  then show ?thesis using xy by (simp add: real_fmod_def k_def)
qed

text \<open>A sample lies in the ranges of its class.\<close>

definition in_class :: "bool \<Rightarrow> real vec \<Rightarrow> bool" where
  "in_class out sample \<longleftrightarrow> length sample = 6 \<and>
     (\<forall>k<6. of_rat (fst (feature_ranges out ! k)) \<le> sample ! k \<and>
            sample ! k < of_rat (fst (feature_ranges out ! k) + snd (feature_ranges out ! k)))"

lemma feature_widths: "k < 6 \<Longrightarrow> 0 < snd (feature_ranges out ! k)"
  by (cases out) (auto simp: feature_ranges_def less_Suc_eq numeral_eq_Suc)

lemma generate_sample_in_class:
  assumes "\<forall>i. 0 \<le> rnd i" "generate_sample real_cxx real_fmod rnd = (sample, out, rnd')"
  shows "in_class out sample" "rnd' = skip_draws 7 rnd"
proof -
  have s: "sample = map (\<lambda>k. of_rat (fst (feature_ranges out ! k)) +
      real_fmod (randomFloat real_cxx (skip_draws (Suc k) rnd)) (of_rat (snd (feature_ranges out ! k)))) [0..<6]"
    using assms(2) by (auto simp: generate_sample_def Let_def add.commute)
  have "0 \<le> real_fmod (randomFloat real_cxx (skip_draws (Suc k) rnd)) (of_rat (snd (feature_ranges out ! k))) \<and>
      real_fmod (randomFloat real_cxx (skip_draws (Suc k) rnd)) (of_rat (snd (feature_ranges out ! k)))
        < of_rat (snd (feature_ranges out ! k))" if "k < 6" for k
    using assms(1) feature_widths [OF that, of out]
    by (intro real_fmod_range) (simp_all add: randomFloat_def)
  then show "in_class out sample" by (simp add: in_class_def s of_rat_add)
  show "rnd' = skip_draws 7 rnd" using assms(2) by (auto simp: generate_sample_def Let_def)
qed

text \<open>Generating \<open>n\<close> samples into an empty input matrix and an output matrix with an empty row
  0 gives \<open>n\<close> samples of six features and \<open>n\<close> outputs of 0 or 1, and every sample lies in the
  ranges of its output's class.\<close>

theorem generateDataset_samples:
  assumes "\<forall>i. 0 \<le> rnd i"
  shows "\<exists>inputs labels rnd'. generateDataset real_cxx real_fmod rnd [] [[]] (int n) = Inr (inputs, [labels], rnd') \<and>
    length inputs = n \<and> length labels = n \<and>
    (\<forall>i<n. \<exists>out. labels ! i = num_of_bool out \<and> in_class out (inputs ! i))"
proof -
  let ?f = "\<lambda>(inputs, outputs, rnd) (i :: nat).
       let (sample, out, rnd) = generate_sample real_cxx real_fmod rnd
       in bind_res (at_v outputs 0) (\<lambda>row. bind_res (set_v outputs 0 (row @ [num_of_bool out :: real])) (\<lambda>outputs.
            Inr (inputs @ [sample], outputs, rnd)))"
  have "\<exists>inputs labels rnd'. for_acc n ([], [[]], rnd) ?f = Inr (inputs, [labels], rnd') \<and>
      length inputs = n \<and> length labels = n \<and> (\<forall>i. 0 \<le> rnd' i) \<and>
      (\<forall>i<n. \<exists>out. labels ! i = num_of_bool out \<and> in_class out (inputs ! i))"
  proof (induction n)
    case 0
    with assms show ?case by simp
  next
    case (Suc n)
    then obtain inputs labels rnd' where IH: "for_acc n ([], [[]], rnd) ?f = Inr (inputs, [labels], rnd')"
      "length inputs = n" "length labels = n" "\<forall>i. 0 \<le> rnd' i"
      "\<forall>i<n. \<exists>out. labels ! i = num_of_bool out \<and> in_class out (inputs ! i)" by blast
    obtain sample out rnd'' where g: "generate_sample real_cxx real_fmod rnd' = (sample, out, rnd'')"
      by (cases "generate_sample real_cxx real_fmod rnd'") auto
    note in_class = generate_sample_in_class [OF IH(4) g]
    have new: "\<forall>i<Suc n. \<exists>o'. (labels @ [num_of_bool out]) ! i = num_of_bool o' \<and> in_class o' ((inputs @ [sample]) ! i)"
    proof (intro allI impI)
      fix i assume "i < Suc n"
      then consider "i < n" | "i = n" by linarith
      then show "\<exists>o'. (labels @ [num_of_bool out]) ! i = num_of_bool o' \<and> in_class o' ((inputs @ [sample]) ! i)"
      proof cases
        case 1 then show ?thesis using IH(2,3,5) by (simp add: nth_append)
      next
        case 2 then show ?thesis using IH(2,3) in_class(1) by (intro exI [of _ out]) (simp add: nth_append)
      qed
    qed
    have step: "for_acc (Suc n) ([], [[]], rnd) ?f = Inr (inputs @ [sample], [labels @ [num_of_bool out]], rnd'')"
      by (simp only: for_acc_Suc IH(1)) (simp add: g)
    have "\<forall>i. 0 \<le> rnd'' i" using IH(4) in_class(2) by (simp add: skip_draws_def)
    with step new IH(2,3) show ?case by (intro exI conjI) (assumption | simp)+
  qed
  then show ?thesis by (auto simp: generateDataset_def)
qed

theorem generateDataset_samples_witness:
  "\<exists>inputs labels rnd'. generateDataset real_cxx real_fmod (\<lambda>i. int i * 1000) [] [[]] 5 = Inr (inputs, [labels], rnd') \<and>
    length inputs = 5"
  using generateDataset_samples [of "\<lambda>i. int i * 1000" 5] by auto

end
