(* ===== verification/JsonText.thy ===== *)
theory JsonText
  imports TextIO
begin

text \<open>
  The escape sequences of JSON strings in \<open>lib/crow/json.h\<close>: \<open>json::escape\<close>, used when a value
  is written, and \<open>rvalue::unescape\<close>, used when a parsed string is read.
\<close>

abbreviation NUL :: char where "NUL \<equiv> CHR 0x00"
abbreviation dquote :: char where "dquote \<equiv> CHR 0x22"
abbreviation backslash :: char where "backslash \<equiv> CHR 0x5C"

section \<open>Writing\<close>

definition to_hex :: "nat \<Rightarrow> char" where
  "to_hex c = (let c = c mod 16 in if c < 10 then char_of (48 + c) else char_of (97 + c - 10))"

text \<open>The body of the loop. \<open>char\<close> is signed: the bytes from 128 on are negative and written as they are.\<close>

definition escape_char :: "char \<Rightarrow> string" where
  "escape_char c =
     (if c = dquote then [backslash, dquote]
      else if c = backslash then [backslash, backslash]
      else if c = CHR 0x0A then [backslash, CHR ''n'']
      else if c = CHR 0x08 then [backslash, CHR ''b'']
      else if c = CHR 0x0C then [backslash, CHR ''f'']
      else if c = CHR 0x0D then [backslash, CHR ''r'']
      else if c = CHR 0x09 then [backslash, CHR ''t'']
      else if of_char c < (32 :: nat)
      then backslash # ''u00'' @ [to_hex (of_char c div 16), to_hex (of_char c mod 16)]
      else [c])"

definition escape :: "string \<Rightarrow> string" where
  "escape str = concat (map escape_char str)"

section \<open>Reading\<close>

text \<open>Called on the four digits the parser has checked.\<close>

definition from_hex :: "char \<Rightarrow> nat" where
  "from_hex c =
     (let n = of_char c :: nat
      in if 97 \<le> n then n - 97 + 10 else if 65 \<le> n then n - 65 + 10 else n - 48)"

text \<open>One to three bytes; the two halves of a surrogate pair give three bytes each.\<close>

definition utf8 :: "nat \<Rightarrow> string" where
  "utf8 code =
     (if 2048 \<le> code
      then [char_of (224 + code div 4096), char_of (128 + code div 64 mod 64), char_of (128 + code mod 64)]
      else if 128 \<le> code then [char_of (192 + code div 64), char_of (128 + code mod 64)]
      else [char_of code])"

text \<open>The \<open>switch\<close> without \<open>u\<close>; a character it does not list writes nothing.\<close>

definition unescape_char :: "char \<Rightarrow> string" where
  "unescape_char e =
     (if e = dquote \<or> e = backslash \<or> e = CHR ''/'' then [e]
      else if e = CHR ''b'' then [CHR 0x08]
      else if e = CHR ''f'' then [CHR 0x0C]
      else if e = CHR ''n'' then [CHR 0x0A]
      else if e = CHR ''r'' then [CHR 0x0D]
      else if e = CHR ''t'' then [CHR 0x09]
      else [])"

fun unescape :: "string \<Rightarrow> string" where
  "unescape [] = []"
| "unescape (c # s) =
     (if c \<noteq> backslash then c # unescape s
      else case s of
        [] \<Rightarrow> []
      | e # r \<Rightarrow>
          if e = CHR ''u''
          then (case r of
                  h1 # h2 # h3 # h4 # t \<Rightarrow>
                    utf8 (from_hex h1 * 4096 + from_hex h2 * 256 + from_hex h3 * 16 + from_hex h4) @ unescape t
                | _ \<Rightarrow> [])
          else unescape_char e @ unescape r)"

section \<open>Reading what was written\<close>

lemma of_char_code: "n < 256 \<Longrightarrow> of_char (char_of (n :: nat)) = n"
  by (simp add: of_char_of)

lemma of_char_to_hex: "k < 16 \<Longrightarrow> of_char (to_hex k) = (if k < 10 then 48 + k else 87 + k)"
  using of_char_code [of "48 + k"] of_char_code [of "97 + k - 10"] by (simp add: to_hex_def)

lemma from_hex_to_hex: "k < 16 \<Longrightarrow> from_hex (to_hex k) = k"
  by (simp add: from_hex_def of_char_to_hex)

lemma hex_zero: "from_hex (CHR ''0'') = 0"
  by (simp add: from_hex_def)

lemma unescape_escape_char: "unescape (escape_char c @ s) = c # unescape s"
proof (cases "of_char c < (32 :: nat) \<and> c \<notin> {CHR 0x0A, CHR 0x08, CHR 0x0C, CHR 0x0D, CHR 0x09}")
  case True
  let ?n = "of_char c :: nat"
  have lt: "?n < 32" using True by simp
  have "c \<noteq> dquote" using lt by (intro notI) simp
  moreover have "c \<noteq> backslash" using lt by (intro notI) simp
  ultimately have "escape_char c = backslash # CHR ''u'' # CHR ''0'' # CHR ''0'' # to_hex (?n div 16) # to_hex (?n mod 16) # []"
    using True by (simp add: escape_char_def)
  moreover have "from_hex (to_hex (?n div 16)) * 16 + from_hex (to_hex (?n mod 16)) = ?n"
  proof -
    have "?n div 16 < 16" using lt by linarith
    then show ?thesis by (simp add: from_hex_to_hex)
  qed
  ultimately show ?thesis using True by (simp add: hex_zero utf8_def)
next
  case False
  show ?thesis
  proof (cases "c \<in> {CHR 0x0A, CHR 0x08, CHR 0x0C, CHR 0x0D, CHR 0x09, dquote, backslash}")
    case True
    then show ?thesis by (auto simp: escape_char_def unescape_char_def)
  next
    case plain: False
    with False have "escape_char c = [c]" by (simp add: escape_char_def)
    with plain show ?thesis by simp
  qed
qed

lemma unescape_escape: "unescape (escape s @ t) = s @ unescape t"
  by (induction s) (simp_all add: escape_def unescape_escape_char)

lemma unescape_escaped: "unescape (escape s) = s"
  using unescape_escape [of s "[]"] by simp

lemma unescape_plain: "backslash \<notin> set s \<Longrightarrow> unescape s = s"
  by (induction s) auto

lemma escape_char_plain: "c \<noteq> dquote \<Longrightarrow> c \<noteq> backslash \<Longrightarrow> 32 \<le> (of_char c :: nat) \<Longrightarrow> escape_char c = [c]"
  by (auto simp: escape_char_def)

lemma escape_plain: "\<forall>c\<in>set s. c \<noteq> dquote \<and> c \<noteq> backslash \<and> 32 \<le> (of_char c :: nat) \<Longrightarrow> escape s = s"
  by (induction s) (simp_all add: escape_def escape_char_plain)

end
