(* ===== verification/Json.thy ===== *)
theory Json
  imports JsonText "HOL-Library.Word"
begin

text \<open>
  The JSON values the handlers read and write, from \<open>lib/crow/json.h\<close>: a parsed value
  (\<open>rvalue\<close>), its accessors with their errors, and a written value (\<open>wvalue\<close>). Numbers and
  strings of a parsed value are pieces of the text, escape sequences included; an accessor
  reads them.
\<close>

datatype rvalue =
    RNull | RFalse | RTrue
  | RNumber string
  | RString string
  | RList "rvalue list"
  | RObject "(string \<times> rvalue) list"

fun get_type_str :: "rvalue \<Rightarrow> string" where
  "get_type_str (RNumber _) = ''Number''"
| "get_type_str RFalse = ''False''"
| "get_type_str RTrue = ''True''"
| "get_type_str (RList _) = ''List''"
| "get_type_str (RString _) = ''String''"
| "get_type_str (RObject _) = ''Object''"
| "get_type_str RNull = ''Unknown''"

text \<open>The kind of a number, from its characters.\<close>

datatype num_type = Signed_integer | Unsigned_integer | Floating_point | Null_number | Double_precision_floating_point

fun determine_num_type :: "rvalue \<Rightarrow> num_type" where
  "determine_num_type (RNumber s) =
     (if CHR ''.'' \<in> set s \<or> CHR ''e'' \<in> set s \<or> CHR ''E'' \<in> set s then Floating_point
      else if CHR ''-'' \<in> set s then Signed_integer
      else Unsigned_integer)"
| "determine_num_type _ = Null_number"

section \<open>Accessors\<close>

text \<open>
  \<open>lexical_cast<int64_t>\<close>: a stream extraction into an uninitialised variable. On text that
  is empty up to white space the extraction does not write it; on text that is not a number
  it writes 0; outside the range it writes the nearest bound.
\<close>

definition lexical_int64 :: "string \<Rightarrow> int res" where
  "lexical_int64 s =
     (let s' = dropWhile is_space s; (neg, t) = scan_sign s'; (ds, _) = scan_digits t;
          n = (if neg then - int (read_nat ds) else int (read_nat ds))
      in if s' = [] then Inl (Undefined Indeterminate)
         else if ds = [] then Inr 0
         else Inr (max (- (2 ^ 63)) (min (2 ^ 63 - 1) n)))"

text \<open>The same for \<open>uint64_t\<close>: a negative number wraps around.\<close>

definition lexical_uint64 :: "string \<Rightarrow> int res" where
  "lexical_uint64 s =
     (let s' = dropWhile is_space s; (neg, t) = scan_sign s'; (ds, _) = scan_digits t; n = int (read_nat ds)
      in if s' = [] then Inl (Undefined Indeterminate)
         else if ds = [] then Inr 0
         else if 2 ^ 64 \<le> n then Inr (2 ^ 64 - 1)
         else Inr (if neg then (- n) mod 2 ^ 64 else n))"

text \<open>
  The same for \<open>double\<close>. The stream takes an exponent without digits as part of the number and
  then fails to convert it, which writes 0.
\<close>

definition open_exponent :: "string \<Rightarrow> bool" where
  "open_exponent s =
     (case rev s of
        [] \<Rightarrow> False
      | c # t \<Rightarrow> c \<in> {CHR ''e'', CHR ''E''} \<or> c \<in> {CHR ''-'', CHR ''+''} \<and> t \<noteq> [] \<and> hd t \<in> {CHR ''e'', CHR ''E''})"

definition lexical_double :: "'a cxx \<Rightarrow> string \<Rightarrow> 'a::zero res" where
  "lexical_double C s =
     (if dropWhile is_space s = [] then Inl (Undefined Indeterminate)
      else if open_exponent s then Inr 0
      else case scan_decimal s of None \<Rightarrow> Inr 0 | Some q \<Rightarrow> Inr (c_lit C q))"

fun rv_i :: "rvalue \<Rightarrow> int res" where
  "rv_i (RNumber s) = lexical_int64 s"
| "rv_i (RString s) = lexical_int64 s"
| "rv_i v = Inl (Runtime_error (''expected number, got: '' @ get_type_str v))"

fun rv_u :: "rvalue \<Rightarrow> int res" where
  "rv_u (RNumber s) = lexical_uint64 s"
| "rv_u (RString s) = lexical_uint64 s"
| "rv_u v = Inl (Runtime_error (''expected number, got: '' @ get_type_str v))"

fun rv_d :: "'a cxx \<Rightarrow> rvalue \<Rightarrow> 'a::zero res" where
  "rv_d C (RNumber s) = lexical_double C s"
| "rv_d C _ = Inl (Runtime_error ''value is not number'')"

fun rv_b :: "rvalue \<Rightarrow> bool res" where
  "rv_b RTrue = Inr True"
| "rv_b RFalse = Inr False"
| "rv_b _ = Inl (Runtime_error ''value is not boolean'')"

fun rv_s :: "rvalue \<Rightarrow> string res" where
  "rv_s (RString s) = Inr (unescape s)"
| "rv_s _ = Inl (Runtime_error ''value is not string'')"

text \<open>\<open>operator std::string\<close>: any value but a list or an object as text.\<close>

fun rv_string :: "rvalue \<Rightarrow> string res" where
  "rv_string (RString s) = Inr (unescape s)"
| "rv_string RNull = Inr ''null''"
| "rv_string RTrue = Inr ''true''"
| "rv_string RFalse = Inr ''false''"
| "rv_string (RNumber s) = Inr s"
| "rv_string _ = Inl (Runtime_error ''json type container'')"

text \<open>\<open>begin()\<close> and \<open>end()\<close>: the elements a range-based loop visits.\<close>

fun rv_elements :: "rvalue \<Rightarrow> rvalue list res" where
  "rv_elements (RList vs) = Inr vs"
| "rv_elements (RObject kvs) = Inr (map snd kvs)"
| "rv_elements _ = Inl (Runtime_error ''value is not a container'')"

fun rv_size :: "rvalue \<Rightarrow> nat res" where
  "rv_size (RString s) = Inr (length (unescape s))"
| "rv_size (RList vs) = Inr (length vs)"
| "rv_size (RObject kvs) = Inr (length kvs)"
| "rv_size _ = Inl (Runtime_error ''value is not a container'')"

fun rv_index :: "rvalue \<Rightarrow> nat \<Rightarrow> rvalue res" where
  "rv_index (RList vs) i = (if i < length vs then Inr (vs ! i) else Inl (Runtime_error ''list out of bound''))"
| "rv_index _ i = Inl (Runtime_error ''value is not a list'')"

text \<open>With a repeated key the code's choice depends on an unstable sort; here, the first.\<close>

fun rv_field :: "rvalue \<Rightarrow> string \<Rightarrow> rvalue res" where
  "rv_field (RObject kvs) key =
     (case map_of kvs key of Some v \<Rightarrow> Inr v | None \<Rightarrow> Inl (Runtime_error (''cannot find key: '' @ key)))"
| "rv_field _ key = Inl (Runtime_error ''value is not an object'')"

text \<open>
  Lookups sort the members by key; \<open>keys\<close> lists them in their order in the text. The elements
  of a list have keys whose pointers were never set.
\<close>

fun rv_has :: "rvalue \<Rightarrow> string \<Rightarrow> bool res" where
  "rv_has (RObject kvs) key = Inr (key \<in> fst ` set kvs)"
| "rv_has (RList vs) key = (if vs = [] then Inr False else Inl (Undefined Indeterminate))"
| "rv_has _ key = Inl (Runtime_error ''value is not a container'')"

definition rv_count :: "rvalue \<Rightarrow> string \<Rightarrow> int res" where
  "rv_count v key = bind_res (rv_has v key) (\<lambda>b. Inr (if b then 1 else 0))"

fun rv_keys :: "rvalue \<Rightarrow> string list res" where
  "rv_keys (RObject kvs) = Inr (map fst kvs)"
| "rv_keys _ = Inl (Runtime_error ''value is not an object'')"

text \<open>An \<open>int64_t\<close> stored in an \<open>int\<close> keeps its low 32 bits.\<close>

definition int_of_int64 :: "int \<Rightarrow> int" where
  "int_of_int64 n = sint (word_of_int n :: 32 word)"

lemma int_of_int64_id: "INT_MIN \<le> n \<Longrightarrow> n \<le> INT_MAX \<Longrightarrow> int_of_int64 n = n"
  by (simp add: int_of_int64_def sint_sbintrunc' signed_take_bit_int_eq_self INT_MIN_def INT_MAX_def)

section \<open>Loops over values\<close>

text \<open>\<open>for (int i = 0; i < v.size(); i++) out.push_back(f(v[i]));\<close>\<close>

definition rv_list :: "(rvalue \<Rightarrow> 'b res) \<Rightarrow> rvalue \<Rightarrow> 'b list res" where
  "rv_list f v = bind_res (rv_size v) (\<lambda>n. for_vec n (\<lambda>i. bind_res (rv_index v i) f))"

text \<open>The two range-based loops that read a matrix.\<close>

definition rv_matrix :: "'a cxx \<Rightarrow> rvalue \<Rightarrow> 'a::zero mat res" where
  "rv_matrix C v =
     bind_res (rv_elements v) (map_res (\<lambda>row. bind_res (rv_elements row) (map_res (rv_d C))))"

lemma rv_list_eq: "rv_list f (RList vs) = map_res f vs"
proof -
  have "map_res (\<lambda>i. bind_res (rv_index (RList vs) i) f) [0..<length vs] = map_res (\<lambda>i. f (vs ! i)) [0..<length vs]"
    by (rule map_res_cong) simp_all
  also have "\<dots> = map_res f (map (\<lambda>i. vs ! i) [0..<length vs])"
    by (simp only: map_res_map)
  finally show ?thesis by (simp add: rv_list_def for_vec_def map_nth)
qed

section \<open>Written values\<close>

text \<open>
  The type of number decides which member of the union is set. The members of an object are
  in the order in which its hash map iterates. Values of type \<open>Function\<close> are left out.
\<close>

datatype 'a wvalue =
    WNull | WFalse | WTrue
  | WFloat 'a          \<comment> \<open>\<open>Floating_point\<close>\<close>
  | WNumber 'a         \<comment> \<open>\<open>Double_precision_floating_point\<close>\<close>
  | WSigned "64 word"
  | WUnsigned "64 word"
  | WString string
  | WList "'a wvalue list"
  | WObject "(string \<times> 'a wvalue) list"

end
