(* ===== verification/JsonDump.thy ===== *)
theory JsonDump
  imports Json "HOL-Library.AList"
begin

text \<open>
  Building and writing JSON values: \<open>crow::json::wvalue\<close> and \<open>wvalue_reader\<close> of \<open>lib/crow/json.h\<close>.
\<close>

section \<open>Building\<close>

text \<open>
  A value read, to be edited. A member whose key is taken is not stored. The kind of the
  number chooses the accessor.
\<close>

definition w_emplace :: "string \<Rightarrow> 'a wvalue \<Rightarrow> (string \<times> 'a wvalue) list \<Rightarrow> (string \<times> 'a wvalue) list" where
  "w_emplace k w kws = (if k \<in> fst ` set kws then kws else kws @ [(k, w)])"

fun w_of_rvalue :: "'a cxx \<Rightarrow> rvalue \<Rightarrow> 'a::zero wvalue res" where
  "w_of_rvalue C RNull = Inr WNull"
| "w_of_rvalue C RFalse = Inr WFalse"
| "w_of_rvalue C RTrue = Inr WTrue"
| "w_of_rvalue C (RNumber s) =
     (let nt = determine_num_type (RNumber s)
      in if nt = Floating_point \<or> nt = Double_precision_floating_point
         then bind_res (rv_d C (RNumber s)) (\<lambda>d. Inr (if nt = Floating_point then WFloat d else WNumber d))
         else if nt = Signed_integer then bind_res (rv_i (RNumber s)) (\<lambda>n. Inr (WSigned (word_of_int n)))
         else bind_res (rv_u (RNumber s)) (\<lambda>n. Inr (WUnsigned (word_of_int n))))"
| "w_of_rvalue C (RString s) = bind_res (rv_s (RString s)) (\<lambda>t. Inr (WString t))"
| "w_of_rvalue C (RList vs) = bind_res (map_res (w_of_rvalue C) vs) (\<lambda>ws. Inr (WList ws))"
| "w_of_rvalue C (RObject kvs) =
     bind_res (map_res (\<lambda>kv. bind_res (w_of_rvalue C (snd kv)) (\<lambda>w. Inr (fst kv, w))) kvs) (\<lambda>kws.
       Inr (WObject (foldl (\<lambda>acc (k, w). w_emplace k w acc) [] kws)))"

text \<open>\<open>w[key] = x\<close>: any other value becomes an object first.\<close>

definition w_put :: "string \<Rightarrow> 'a wvalue \<Rightarrow> 'a wvalue \<Rightarrow> 'a wvalue" where
  "w_put key x w = (let kws = (case w of WObject kws \<Rightarrow> kws | _ \<Rightarrow> []) in WObject (AList.update key x kws))"

text \<open>\<open>w[index] = x\<close>: any other value becomes a list first, and a short list is extended by nulls. The
  sum \<open>index + 1\<close> is unsigned.\<close>

definition w_put_at :: "32 word \<Rightarrow> 'a wvalue \<Rightarrow> 'a wvalue \<Rightarrow> 'a wvalue res" where
  "w_put_at index x w =
     (let l = (case w of WList l \<Rightarrow> l | _ \<Rightarrow> []);
          l = (if length l < unat (index + 1) then l @ replicate (unat (index + 1) - length l) WNull else l)
      in if unat index < length l then Inr (WList (l[unat index := x])) else Inl (Undefined Out_of_bounds))"

fun w_count :: "string \<Rightarrow> 'a wvalue \<Rightarrow> int" where
  "w_count key (WObject kws) = (if key \<in> fst ` set kws then 1 else 0)"
| "w_count key _ = 0"

fun w_keys :: "'a wvalue \<Rightarrow> string list" where
  "w_keys (WObject kws) = map fst kws"
| "w_keys _ = []"

fun w_size :: "'a wvalue \<Rightarrow> nat" where
  "w_size (WList l) = length l"
| "w_size _ = 1"

section \<open>Reading a value being built\<close>

text \<open>\<open>num.si\<close> after \<open>num.ui\<close> was set gives the same 64 bits.\<close>

fun reader_get_int :: "int \<Rightarrow> 'a wvalue \<Rightarrow> int" where
  "reader_get_int fallback (WSigned n) = sint n"
| "reader_get_int fallback (WUnsigned n) = sint n"
| "reader_get_int fallback _ = fallback"

text \<open>The condition on the type of the number admits \<open>Floating_point\<close> alone.\<close>

fun reader_get_double :: "'a \<Rightarrow> 'a wvalue \<Rightarrow> 'a" where
  "reader_get_double fallback (WFloat d) = d"
| "reader_get_double fallback _ = fallback"

fun reader_get_bool :: "bool \<Rightarrow> 'a wvalue \<Rightarrow> bool" where
  "reader_get_bool fallback WTrue = True"
| "reader_get_bool fallback WFalse = False"
| "reader_get_bool fallback _ = fallback"

fun reader_get_string :: "string \<Rightarrow> 'a wvalue \<Rightarrow> string" where
  "reader_get_string fallback (WString s) = s"
| "reader_get_string fallback _ = fallback"

section \<open>Writing\<close>

text \<open>
  The loop that drops trailing zeros of a printed number, over what \<open>p\<close> points to; \<open>p\<close> is an
  index and \<open>pos\<close> the pointer \<open>pos_first_trailing_0\<close>, null as \<open>None\<close>. The first character
  after the point is skipped when it is a zero.
\<close>

datatype f_state = Start | Decp | Zero

fun zero_loop :: "f_state \<Rightarrow> nat option \<Rightarrow> nat \<Rightarrow> string \<Rightarrow> nat option" where
  "zero_loop st pos p [] = pos"
| "zero_loop Start pos p (ch # s) =
     (if ch = CHR ''.''
      then (case s of
              fch # t \<Rightarrow> if fch = CHR ''0'' then zero_loop Decp pos (p + 2) t else zero_loop Decp pos (p + 1) s
            | [] \<Rightarrow> zero_loop Decp pos (p + 1) [])
      else zero_loop Start pos (p + 1) s)"
| "zero_loop Decp pos p (ch # s) =
     (if ch = CHR ''0'' then zero_loop Zero (Some p) (p + 1) s else zero_loop Decp pos (p + 1) s)"
| "zero_loop Zero pos p (ch # s) =
     (if ch \<noteq> CHR ''0'' then zero_loop Decp None (p + 1) s else zero_loop Zero pos (p + 1) s)"

definition drop_zeros :: "string \<Rightarrow> string" where
  "drop_zeros outbuf = (case zero_loop Start None 0 outbuf of None \<Rightarrow> outbuf | Some p \<Rightarrow> take p outbuf)"

text \<open>\<open>snprintf\<close> writes at most 127 characters, which \<open>%f\<close> can exceed and \<open>%.*g\<close> cannot.\<close>

fun dump_number :: "'a cxx \<Rightarrow> 'a wvalue \<Rightarrow> string" where
  "dump_number C (WFloat d) = (if c_special C d then ''null'' else drop_zeros (take 127 (c_to_string C d)))"
| "dump_number C (WNumber d) = (if c_special C d then ''null'' else drop_zeros (c_general C d))"
| "dump_number C (WSigned n) = show_int (sint n)"
| "dump_number C (WUnsigned n) = show_int (uint n)"
| "dump_number C _ = []"

definition dump_string :: "string \<Rightarrow> string" where
  "dump_string str = dquote # escape str @ [dquote]"

definition dump_indentation_part :: "int \<Rightarrow> char \<Rightarrow> nat \<Rightarrow> string" where
  "dump_indentation_part indent separator indent_level =
     (if 0 \<le> indent then CHR 0x0A # replicate (indent_level * nat indent) separator else [])"

text \<open>The loop with the flag \<open>first\<close>: what stands between two items.\<close>

fun joined :: "string \<Rightarrow> string list \<Rightarrow> string" where
  "joined between [] = []"
| "joined between [p] = p"
| "joined between (p # q # ps) = p @ between @ joined between (q # ps)"

fun dump_internal :: "'a cxx \<Rightarrow> int \<Rightarrow> char \<Rightarrow> nat \<Rightarrow> 'a wvalue \<Rightarrow> string" where
  "dump_internal C indent separator lvl WNull = ''null''"
| "dump_internal C indent separator lvl WFalse = ''false''"
| "dump_internal C indent separator lvl WTrue = ''true''"
| "dump_internal C indent separator lvl (WString s) = dump_string s"
| "dump_internal C indent separator lvl (WList l) =
     (let inner = dump_indentation_part indent separator (lvl + 1)
      in CHR ''['' # inner @ joined (CHR '','' # inner) (map (dump_internal C indent separator (lvl + 1)) l) @
         dump_indentation_part indent separator lvl @ [CHR '']''])"
| "dump_internal C indent separator lvl (WObject kws) =
     (let inner = dump_indentation_part indent separator (lvl + 1)
      in CHR 0x7B # inner @
         joined (CHR '','' # inner) (map (\<lambda>kw. dump_string (fst kw) @ CHR '':'' # (if 0 \<le> indent then '' '' else []) @
           dump_internal C indent separator (lvl + 1) (snd kw)) kws) @
         dump_indentation_part indent separator lvl @ [CHR 0x7D])"
| "dump_internal C indent separator lvl w = dump_number C w"

definition dump :: "'a cxx \<Rightarrow> 'a wvalue \<Rightarrow> string" where
  "dump C w = dump_internal C (-1) (CHR '' '') 0 w"

text \<open>The capacity reserved before writing.\<close>

fun estimate_length :: "'a wvalue \<Rightarrow> nat" where
  "estimate_length WNull = 4"
| "estimate_length WFalse = 5"
| "estimate_length WTrue = 4"
| "estimate_length (WString s) = 2 + length s + length s div 2"
| "estimate_length (WList l) = sum_list (map (\<lambda>x. 1 + estimate_length x) l) + 2"
| "estimate_length (WObject kws) =
     sum_list (map (\<lambda>kw. 2 + (2 + length (fst kw) + length (fst kw) div 2) + estimate_length (snd kw)) kws) + 2"
| "estimate_length _ = 30"

end
