(* ===== verification/JsonParse.thy ===== *)
theory JsonParse
  imports Json
begin

text \<open>
  The parser \<open>json::load\<close> of \<open>lib/crow/json.h\<close>. The text is copied behind a pointer and closed
  by a NUL; the state of the parser is what is left of it, so that \<open>data[k]\<close> is the \<open>k\<close>-th
  character of the rest, the NUL at its end, and an error beyond.

  A function returns the value and the rest. The code marks an invalid value by a bit and
  every caller gives up on it; here it is the error \<open>Malformed\<close>. \<open>Past_end\<close> is a read behind
  the NUL. The recursion has fuel; running out of it is the error \<open>No_fuel\<close>.
\<close>

datatype stop = Malformed | Past_end | No_fuel

type_synonym 'a parsed = "stop + ('a \<times> string)"

definition byte :: "string \<Rightarrow> nat \<Rightarrow> stop + char" where
  "byte s k = (if k < length s then Inr (s ! k) else if k = length s then Inr NUL else Inl Past_end)"

definition consume :: "char \<Rightarrow> string \<Rightarrow> stop + string" where
  "consume c s = bind_res (byte s 0) (\<lambda>d. if d \<noteq> c then Inl Malformed else Inr (drop 1 s))"

definition is_ws :: "char \<Rightarrow> bool" where
  "is_ws c \<longleftrightarrow> c = CHR '' '' \<or> c = CHR 0x09 \<or> c = CHR 0x0D \<or> c = CHR 0x0A"

definition ws_skip :: "string \<Rightarrow> string" where
  "ws_skip s = dropWhile is_ws s"

text \<open>Characters in front of what a function has read.\<close>

definition emit :: "string \<Rightarrow> string parsed \<Rightarrow> string parsed" where
  "emit p r = bind_res r (\<lambda>(t, s). Inr (p @ t, s))"

section \<open>Strings\<close>

definition is_hex :: "char \<Rightarrow> bool" where
  "is_hex c \<longleftrightarrow> is_digit c \<or> 97 \<le> (of_char c :: nat) \<and> (of_char c :: nat) \<le> 102 \<or>
     65 \<le> (of_char c :: nat) \<and> (of_char c :: nat) \<le> 70"

text \<open>\<open>check(data[1]) && \<dots> && check(data[4])\<close>\<close>

definition hex_digits :: "string \<Rightarrow> stop + unit" where
  "hex_digits s =
     fold_res (\<lambda>_ k. bind_res (byte s k) (\<lambda>c. if is_hex c then Inr () else Inl Malformed)) () [1, 2, 3, 4]"

text \<open>The loop, from behind the opening quote: the characters up to the closing one.\<close>

fun scan_string :: "string \<Rightarrow> string parsed" where
  "scan_string [] = Inl Malformed"
| "scan_string (c # s) =
     (if c \<noteq> dquote \<and> c \<noteq> backslash \<and> c \<noteq> NUL then emit [c] (scan_string s)
      else if c = dquote then Inr ([], s)
      else if c = backslash
      then bind_res (byte s 0) (\<lambda>e.
        if e = CHR ''u''
        then bind_res (hex_digits s) (\<lambda>_. emit (c # take 5 s) (scan_string (drop 5 s)))
        else if e \<in> {dquote, backslash, CHR ''/'', CHR ''b'', CHR ''f'', CHR ''n'', CHR ''r'', CHR ''t''}
        then emit [c, e] (scan_string (drop 1 s))
        else Inl Malformed)
      else Inl Malformed)"

definition decode_string :: "string \<Rightarrow> rvalue parsed" where
  "decode_string s = bind_res (consume dquote s) (\<lambda>s. bind_res (scan_string s) (\<lambda>(t, s). Inr (RString t, s)))"

section \<open>Numbers\<close>

datatype num_state = Minus | AfterMinus | ZeroFirst | Digits | DigitsAfterPoints | Exp | DigitsAfterE | Invalid

text \<open>The tables \<open>"\2\2\7\3\4\6\6"[state]\<close> and so on; the loop ends at \<open>Invalid\<close>.\<close>

fun on_zero :: "num_state \<Rightarrow> num_state" where
  "on_zero Minus = ZeroFirst" | "on_zero AfterMinus = ZeroFirst" | "on_zero ZeroFirst = Invalid"
| "on_zero Digits = Digits" | "on_zero DigitsAfterPoints = DigitsAfterPoints"
| "on_zero Exp = DigitsAfterE" | "on_zero DigitsAfterE = DigitsAfterE" | "on_zero Invalid = Invalid"

fun on_digit :: "num_state \<Rightarrow> num_state" where
  "on_digit Minus = Digits" | "on_digit AfterMinus = Digits" | "on_digit ZeroFirst = Invalid"
| "on_digit Digits = Digits" | "on_digit DigitsAfterPoints = DigitsAfterPoints"
| "on_digit Exp = DigitsAfterE" | "on_digit DigitsAfterE = DigitsAfterE" | "on_digit Invalid = Invalid"

fun on_point :: "num_state \<Rightarrow> num_state" where
  "on_point ZeroFirst = DigitsAfterPoints" | "on_point Digits = DigitsAfterPoints" | "on_point _ = Invalid"

fun on_minus :: "num_state \<Rightarrow> num_state" where
  "on_minus Minus = AfterMinus" | "on_minus Exp = DigitsAfterE" | "on_minus _ = Invalid"

fun on_plus :: "num_state \<Rightarrow> num_state" where
  "on_plus Exp = DigitsAfterE" | "on_plus _ = Invalid"

fun on_e :: "num_state \<Rightarrow> num_state" where
  "on_e Digits = Exp" | "on_e DigitsAfterPoints = Exp" | "on_e _ = Invalid"

definition number_ends :: "num_state \<Rightarrow> bool" where
  "number_ends st \<longleftrightarrow> st \<in> {ZeroFirst, Digits, DigitsAfterPoints, DigitsAfterE}"

lemma length_dropWhile [termination_simp]: "length (dropWhile P s) < Suc (length s)"
  using length_dropWhile_le [of P s] by simp

fun number_loop :: "num_state \<Rightarrow> string \<Rightarrow> string parsed" where
  "number_loop st [] = (if number_ends st then Inr ([], []) else Inl Malformed)"
| "number_loop st (c # s) =
     (if st = Invalid then Inl Malformed
      else if c = CHR ''0'' then emit [c] (number_loop (on_zero st) s)
      else if is_digit c then emit (c # takeWhile is_digit s) (number_loop (on_digit st) (dropWhile is_digit s))
      else if c = CHR ''.'' then emit [c] (number_loop (on_point st) s)
      else if c = CHR ''-'' then emit [c] (number_loop (on_minus st) s)
      else if c = CHR ''+'' then emit [c] (number_loop (on_plus st) s)
      else if c = CHR ''e'' \<or> c = CHR ''E'' then emit [c] (number_loop (on_e st) s)
      else if number_ends st then Inr ([], c # s)
      else Inl Malformed)"

definition decode_number :: "string \<Rightarrow> rvalue parsed" where
  "decode_number s = bind_res (number_loop Minus s) (\<lambda>(t, s). Inr (RNumber t, s))"

section \<open>Values, lists and objects\<close>

definition max_depth :: nat where "max_depth = 10000"

text \<open>\<open>data[k] == 'r' && data[k + 1] == 'u' && \<dots>\<close>\<close>

fun match_at :: "nat \<Rightarrow> string \<Rightarrow> string \<Rightarrow> stop + bool" where
  "match_at k [] s = Inr True"
| "match_at k (c # cs) s = bind_res (byte s k) (\<lambda>d. if d = c then match_at (Suc k) cs s else Inr False)"

definition decode_literal :: "string \<Rightarrow> rvalue \<Rightarrow> string \<Rightarrow> rvalue parsed" where
  "decode_literal cs v s =
     bind_res (match_at 1 cs s) (\<lambda>b. if b then Inr (v, drop (Suc (length cs)) s) else Inl Malformed)"

text \<open>
  \<open>decode_list\<close> and \<open>decode_object\<close> are the same code but for their brackets and what an item is:
  the opening bracket, the test of the depth, the empty container, and a loop over the items.
  The loop has fuel for its rounds.
\<close>

fun decode_items :: "(string \<Rightarrow> 'x parsed) \<Rightarrow> char \<Rightarrow> ('x list \<Rightarrow> rvalue) \<Rightarrow> nat \<Rightarrow> 'x list \<Rightarrow> string \<Rightarrow> rvalue parsed" where
  "decode_items item closing mk 0 xs s = Inl No_fuel"
| "decode_items item closing mk (Suc n) xs s =
     bind_res (item s) (\<lambda>(x, s).
       let s = ws_skip s; xs = xs @ [x]
       in bind_res (byte s 0) (\<lambda>c.
            if c = closing then Inr (mk xs, drop 1 s)
            else bind_res (consume (CHR '','') s) (\<lambda>s. decode_items item closing mk n xs (ws_skip s))))"

definition decode_container ::
  "(string \<Rightarrow> 'x parsed) \<Rightarrow> char \<Rightarrow> char \<Rightarrow> ('x list \<Rightarrow> rvalue) \<Rightarrow> nat \<Rightarrow> string \<Rightarrow> rvalue parsed" where
  "decode_container item opening closing mk depth s =
     bind_res (consume opening s) (\<lambda>s.
       if max_depth < depth then Inl Malformed
       else let s = ws_skip s
            in bind_res (byte s 0) (\<lambda>c.
                 if c = closing then Inr (mk [], drop 1 s)
                 else decode_items item closing mk (Suc (length s)) [] s))"

text \<open>
  \<open>decode_value\<close>, \<open>decode_list\<close> and \<open>decode_object\<close> call each other; the argument \<open>dv\<close> is the
  \<open>decode_value\<close> that the two others call, with the depth as its first argument.
\<close>

type_synonym decoder = "nat \<Rightarrow> string \<Rightarrow> rvalue parsed"

definition decode_list :: "decoder \<Rightarrow> decoder" where
  "decode_list dv depth = decode_container (dv (depth + 1)) (CHR ''['') (CHR '']'') RList depth"

text \<open>A member; its key is read at once: \<open>t.s()\<close> resolves the escape sequences.\<close>

definition decode_member :: "decoder \<Rightarrow> nat \<Rightarrow> string \<Rightarrow> (string \<times> rvalue) parsed" where
  "decode_member dv depth s =
     bind_res (bind_res (consume dquote s) scan_string) (\<lambda>(t, s).
     bind_res (consume (CHR '':'') (ws_skip s)) (\<lambda>s.
     let key = unescape t
     in bind_res (dv (depth + 1) (ws_skip s)) (\<lambda>(v, s). Inr ((key, v), s))))"

definition decode_object :: "decoder \<Rightarrow> decoder" where
  "decode_object dv depth = decode_container (decode_member dv depth) (CHR 0x7B) (CHR 0x7D) RObject depth"

primrec decode_value :: "nat \<Rightarrow> decoder" where
  "decode_value 0 depth = (\<lambda>s. Inl No_fuel)"
| "decode_value (Suc f) depth = (\<lambda>s.
     bind_res (byte s 0) (\<lambda>c.
       if c = CHR ''['' then decode_list (decode_value f) (depth + 1) s
       else if c = CHR 0x7B then decode_object (decode_value f) (depth + 1) s
       else if c = dquote then decode_string s
       else if c = CHR ''t'' then decode_literal ''rue'' RTrue s
       else if c = CHR ''f'' then decode_literal ''alse'' RFalse s
       else if c = CHR ''n'' then decode_literal ''ull'' RNull s
       else decode_number s))"

text \<open>Every level of nesting reads a bracket, so the length of the text is fuel enough.\<close>

definition parse :: "string \<Rightarrow> stop + rvalue" where
  "parse s =
     bind_res (decode_value (Suc (length s)) 0 (ws_skip s)) (\<lambda>(v, s).
     bind_res (byte (ws_skip s) 0) (\<lambda>c. if c \<noteq> NUL then Inl Malformed else Inr v))"

text \<open>What a caller sees: a value, or one that converts to \<open>false\<close>.\<close>

definition load :: "string \<Rightarrow> rvalue option" where
  "load str = (case parse str of Inl _ \<Rightarrow> None | Inr v \<Rightarrow> Some v)"

end
