(* ===== verification/Http.thy ===== *)
theory Http
  imports Cxx
begin

text \<open>
  Requests, responses and header maps of Crow: \<open>lib/crow/http_request.h\<close>, \<open>http_response.h\<close>,
  \<open>ci_map.h\<close>, the methods of \<open>common.h\<close> and the string functions of \<open>utility.h\<close> they use.
\<close>

section \<open>Strings\<close>

text \<open>\<open>std::toupper\<close> in the C locale.\<close>

definition toupper :: "char \<Rightarrow> char" where
  "toupper c = (let n = of_char c :: nat in if 97 \<le> n \<and> n \<le> 122 then char_of (n - 32) else c)"

fun string_equals :: "bool \<Rightarrow> string \<Rightarrow> string \<Rightarrow> bool" where
  "string_equals case_sensitive [] [] = True"
| "string_equals case_sensitive (a # l) (b # r) =
     ((if case_sensitive then a = b else toupper a = toupper b) \<and> string_equals case_sensitive l r)"
| "string_equals case_sensitive _ _ = False"

text \<open>\<open>v.find(separator)\<close>: the position of the first occurrence.\<close>

fun find_sub :: "string \<Rightarrow> string \<Rightarrow> nat option" where
  "find_sub sep v =
     (if take (length sep) v = sep then Some 0
      else case v of [] \<Rightarrow> None | _ # v \<Rightarrow> map_option Suc (find_sub sep v))"

declare find_sub.simps [simp del]

text \<open>\<open>None\<close>: the loop does not end, because an empty separator is found again and again.\<close>

partial_function (option) split :: "string \<Rightarrow> string \<Rightarrow> string list option" where
  "split sep v =
     (case find_sub sep v of
        None \<Rightarrow> Some [v]
      | Some i \<Rightarrow> Option.bind (split sep (drop (i + length sep) v)) (\<lambda>ps. Some (take i v # ps)))"

declare split.simps [code]

text \<open>The first element of one list that is in another.\<close>

definition find_first_of :: "'b list \<Rightarrow> 'b list \<Rightarrow> 'b option" where
  "find_first_of xs ys = List.find (\<lambda>x. x \<in> set ys) xs"

section \<open>Headers\<close>

text \<open>
  A multimap whose keys compare without case, as a list in the order of its buckets: \<open>find\<close>
  returns the first of several equal keys.
\<close>

type_synonym headers = "(string \<times> string) list"

definition same_key :: "string \<Rightarrow> string \<Rightarrow> bool" where
  "same_key k l = string_equals False k l"

definition header_count :: "string \<Rightarrow> headers \<Rightarrow> nat" where
  "header_count key hs = length (filter (\<lambda>(k, _). same_key k key) hs)"

definition header_find :: "string \<Rightarrow> headers \<Rightarrow> (string \<times> string) option" where
  "header_find key hs = List.find (\<lambda>(k, _). same_key k key) hs"

definition header_erase :: "string \<Rightarrow> headers \<Rightarrow> headers" where
  "header_erase key hs = filter (\<lambda>(k, _). \<not> same_key k key) hs"

definition get_header_value :: "headers \<Rightarrow> string \<Rightarrow> string" where
  "get_header_value hs key =
     (if header_count key hs \<noteq> 0 then (case header_find key hs of Some (_, v) \<Rightarrow> v | None \<Rightarrow> []) else [])"

section \<open>Methods\<close>

text \<open>A method is its number in the enumeration.\<close>

definition method_strings :: "string list" where
  "method_strings =
     [''DELETE'', ''GET'', ''HEAD'', ''POST'', ''PUT'', ''CONNECT'', ''OPTIONS'', ''TRACE'', ''PATCH'', ''PURGE'',
      ''COPY'', ''LOCK'', ''MKCOL'', ''MOVE'', ''PROPFIND'', ''PROPPATCH'', ''SEARCH'', ''UNLOCK'', ''BIND'', ''REBIND'',
      ''UNBIND'', ''ACL'', ''REPORT'', ''MKACTIVITY'', ''CHECKOUT'', ''MERGE'', ''M-SEARCH'', ''NOTIFY'', ''SUBSCRIBE'',
      ''UNSUBSCRIBE'', ''MKCALENDAR'', ''LINK'', ''UNLINK'', ''SOURCE'']"

definition InternalMethodCount :: nat where "InternalMethodCount = 34"

abbreviation (input) Get :: nat where "Get \<equiv> 1"
abbreviation (input) Head :: nat where "Head \<equiv> 2"
abbreviation (input) Post :: nat where "Post \<equiv> 3"
abbreviation (input) Options :: nat where "Options \<equiv> 6"

definition method_name :: "nat \<Rightarrow> string" where
  "method_name m = (if m < InternalMethodCount then method_strings ! m else ''invalid'')"

text \<open>The literal \<open>\<dots>_method\<close>: it knows \<open>MSEARCH\<close> where the name is \<open>M-SEARCH\<close>.\<close>

definition method_from_string :: "string \<Rightarrow> nat res" where
  "method_from_string s =
     (case List.find (\<lambda>(i, n). n = s) (enumerate 0 (method_strings[26 := ''MSEARCH''])) of
        Some (i, _) \<Rightarrow> Inr i
      | None \<Rightarrow> Inl (Runtime_error ''invalid http method''))"

section \<open>Requests and responses\<close>

record request =
  rq_method :: nat
  rq_raw_url :: string
  rq_url :: string
  rq_headers :: headers
  rq_body :: string
  rq_version :: "nat \<times> nat"
  rq_keep_alive :: bool
  rq_close :: bool
  rq_upgrade :: bool

text \<open>\<open>request()\<close>: the version and the flags are not initialised; they are set before they are read.\<close>

definition new_request :: request where
  "new_request = \<lparr> rq_method = Get, rq_raw_url = [], rq_url = [], rq_headers = [], rq_body = [], rq_version = (0, 0),
     rq_keep_alive = False, rq_close = False, rq_upgrade = False \<rparr>"

text \<open>The handler called at completion is a member of the connection in the model. The path of a static file is
  empty if there is none.\<close>

record response =
  rs_code :: int
  rs_text :: string
  rs_headers :: headers
  rs_skip_body :: bool
  rs_manual_length :: bool
  rs_ended :: bool
  rs_file :: string

definition response_code :: "int \<Rightarrow> response" where
  "response_code code = \<lparr> rs_code = code, rs_text = [], rs_headers = [], rs_skip_body = False,
     rs_manual_length = False, rs_ended = False, rs_file = [] \<rparr>"

definition response_text :: "int \<Rightarrow> string \<Rightarrow> response" where
  "response_text code body = (response_code code)\<lparr>rs_text := body\<rparr>"

definition set_header :: "string \<Rightarrow> string \<Rightarrow> response \<Rightarrow> response" where
  "set_header key value res = res\<lparr>rs_headers := header_erase key (rs_headers res) @ [(key, value)]\<rparr>"

definition add_header :: "string \<Rightarrow> string \<Rightarrow> response \<Rightarrow> response" where
  "add_header key value res = res\<lparr>rs_headers := rs_headers res @ [(key, value)]\<rparr>"

text \<open>The assignment leaves \<open>skip_body\<close> and \<open>manual_length_header\<close> as they are.\<close>

definition assign_response :: "response \<Rightarrow> response \<Rightarrow> response" where
  "assign_response r old =
     old\<lparr>rs_text := rs_text r, rs_code := rs_code r, rs_headers := rs_headers r, rs_ended := rs_ended r, rs_file := rs_file r\<rparr>"

definition clear_response :: "response \<Rightarrow> response" where
  "clear_response res = res\<lparr>rs_text := [], rs_code := 200, rs_headers := [], rs_ended := False, rs_file := []\<rparr>"

text \<open>\<open>end()\<close> up to the call of the completion handler.\<close>

definition end_response :: "response \<Rightarrow> response" where
  "end_response res =
     (if rs_ended res then res
      else let res = res\<lparr>rs_ended := True\<rparr>
           in if rs_skip_body res
              then (set_header ''Content-Length'' (show_nat (length (rs_text res))) res)\<lparr>rs_text := [], rs_manual_length := True\<rparr>
              else res)"

section \<open>Facts\<close>

lemma string_equals_sensitive: "string_equals True l r \<longleftrightarrow> l = r"
  by (induction True l r rule: string_equals.induct) auto

lemma string_equals_insensitive: "string_equals False l r \<longleftrightarrow> map toupper l = map toupper r"
  by (induction False l r rule: string_equals.induct) auto

lemma same_key_iff: "same_key k l \<longleftrightarrow> map toupper k = map toupper l"
  by (simp add: same_key_def string_equals_insensitive)

lemma header_count_find: "header_count key hs = 0 \<longleftrightarrow> header_find key hs = None"
  by (induction hs) (auto simp: header_count_def header_find_def)

lemma get_header_value_find:
  "get_header_value hs key = (case header_find key hs of Some (_, v) \<Rightarrow> v | None \<Rightarrow> [])"
  using header_count_find [of key hs] by (auto simp: get_header_value_def split: option.splits)

lemma header_find_erase: "header_find key (header_erase key hs @ hs') = header_find key hs'"
  by (induction hs) (auto simp: header_find_def header_erase_def)

lemma get_header_value_set [simp]: "get_header_value (rs_headers (set_header key v res)) key = v"
  by (simp add: get_header_value_find set_header_def header_find_erase) (simp add: header_find_def same_key_iff)

lemma find_sub_Some: "find_sub sep v = Some i \<Longrightarrow> v = take i v @ sep @ drop (i + length sep) v"
proof (induction v arbitrary: i)
  case Nil
  then show ?case by (subst (asm) find_sub.simps) (auto split: if_splits)
next
  case (Cons a v)
  show ?case
  proof (cases "take (length sep) (a # v) = sep")
    case True
    then have "i = 0" using Cons.prems by (subst (asm) find_sub.simps) simp
    with True show ?thesis using append_take_drop_id [of "length sep" "a # v"] by simp
  next
    case False
    then obtain j where "find_sub sep v = Some j" "i = Suc j"
      using Cons.prems by (subst (asm) find_sub.simps) auto
    with Cons.IH [of j] show ?thesis by simp
  qed
qed

text \<open>Joining pieces with a separator, and the occurrences of a separator.\<close>

fun joined :: "string \<Rightarrow> string list \<Rightarrow> string" where
  "joined sep [] = []"
| "joined sep [p] = p"
| "joined sep (p # q # ps) = p @ sep @ joined sep (q # ps)"

lemma split_not_Nil: "split sep v = Some ps \<Longrightarrow> ps \<noteq> []"
  by (subst (asm) split.simps) (auto split: option.splits bind_splits)

lemma split_joined: "sep \<noteq> [] \<Longrightarrow> \<exists>ps. split sep v = Some ps \<and> joined sep ps = v"
proof (induction "length v" arbitrary: v rule: less_induct)
  case less
  show ?case
  proof (cases "find_sub sep v")
    case None
    then show ?thesis by (subst split.simps) simp
  next
    case (Some i)
    from find_sub_Some [OF Some] have v: "v = take i v @ sep @ drop (i + length sep) v" .
    then have "length (drop (i + length sep) v) < length v"
      using less.prems by (metis add.commute diff_less length_append length_drop length_greater_0_conv trans_less_add1
          add_gr_0 append_is_Nil_conv)
    from less.hyps [OF this less.prems] obtain ps
      where ps: "split sep (drop (i + length sep) v) = Some ps" "joined sep ps = drop (i + length sep) v" by blast
    then obtain q qs where "ps = q # qs" using split_not_Nil by (cases ps) auto
    with ps v Some show ?thesis by (subst split.simps) auto
  qed
qed

end
