(* ===== verification/Server.thy ===== *)
theory Server
  imports TrainFacts JsonDump JsonParse Http
begin

text \<open>
  \<open>Src/Api/RouteHandlers.cpp\<close>, \<open>Include/Api/Middleware.h\<close>, the globals of \<open>Src/test.cpp\<close> and
  \<open>NeuralNetwork::getModelParameters\<close>. The server's state is the two global pointers, the
  live connections, what was sent, and the detached training threads. A handler is a
  function on it; the threads take two steps, because the call
  \<open>nn->train(\<dots>, g_ws_conn)\<close> copies the pointer to the connection when it starts and uses it
  until it ends: in between, handlers run. The training itself is one step.

  The library's side is the environment: it calls the handlers, destroys a connection after
  its close handler, and turns an exception from a route handler into an empty response
  500. Its JSON reader and writer are those of \<open>JsonParse\<close> and \<open>JsonDump\<close>. The connection itself
  is modelled in \<open>WebSocket\<close>, where the close handler can also run twice; the second call finds
  the pointer cleared and changes nothing (\<open>onclose_twice\<close>).
\<close>

section \<open>The model's parameters as JSON\<close>

definition layer_params :: "'a dense \<Rightarrow> 'a wvalue" where
  "layer_params L =
     w_put ''biases'' (WList (map WNumber (getBiases L)))
     (w_put ''weights'' (WList (map (\<lambda>row. WList (map WNumber row)) (getWeights L))) WNull)"

definition getModelParameters :: "'a nn \<Rightarrow> 'a wvalue" where
  "getModelParameters N = WList (map layer_params (nn_layers N))"

section \<open>Requests, responses and the CORS middleware\<close>

definition response_json :: "'a cxx \<Rightarrow> int \<Rightarrow> 'a wvalue \<Rightarrow> response" where
  "response_json C code v = set_header ''Content-Type'' ''application/json'' (response_text code (dump C v))"

text \<open>The completion handler is not set when the middleware runs before the route.\<close>

definition before_handle :: "request \<Rightarrow> response \<Rightarrow> response" where
  "before_handle req res =
     (if method_from_string ''OPTIONS'' = Inr (rq_method req) then end_response (res\<lparr>rs_code := 204\<rparr>) else res)"

definition after_handle :: "response \<Rightarrow> response" where
  "after_handle res =
     set_header ''Access-Control-Allow-Headers'' ''Content-Type''
     (set_header ''Access-Control-Allow-Methods'' ''GET, POST, PUT, DELETE, OPTIONS''
     (set_header ''Access-Control-Allow-Origin'' ''*'' res))"

section \<open>The state\<close>

text \<open>
  A detached thread: waiting to run its first line, or inside \<open>train\<close> with the connection
  pointer it was given.
\<close>

datatype 'a job =
    Spawned "'a mat" "'a mat" int int
  | InTraining nat "'a mat" "'a mat" int int

record 'a server =
  sv_nn :: "'a nn option"
  sv_ws :: "nat option"
  sv_open :: "nat list"
  sv_sent :: "(nat \<times> string) list"
  sv_closing :: "nat list"
  sv_jobs :: "'a job list"
  sv_draws :: "nat source"
  sv_rnd :: "int source"

text \<open>\<open>main\<close>: a network without layers and no connection.\<close>

definition start_server ::
  "'a cxx \<Rightarrow> 'a dist \<Rightarrow> nat source \<Rightarrow> int source \<Rightarrow> 'a::{zero,one,uminus,inverse} server res" where
  "start_server C D draws rnd =
     bind_res (new_NeuralNetwork C D draws [] [] ''categorical cross entropy'' [] [] [] 0) (\<lambda>(N, draws').
       Inr \<lparr> sv_nn = Some N, sv_ws = None, sv_open = [], sv_sent = [], sv_closing = [], sv_jobs = [],
             sv_draws = draws', sv_rnd = rnd \<rparr>)"

section \<open>The websocket handlers\<close>

definition send_text :: "nat \<Rightarrow> string \<Rightarrow> 'a server \<Rightarrow> 'a server res" where
  "send_text c msg s =
     (if c \<in> set (sv_open s) then Inr (s\<lparr>sv_sent := sv_sent s @ [(c, msg)]\<rparr>)
      else Inl (Undefined Dangling_pointer))"

text \<open>\<open>close\<close> sends the close frame; the close handler runs when the client has answered.\<close>

definition close_ws :: "nat \<Rightarrow> 'a server \<Rightarrow> 'a server res" where
  "close_ws c s =
     (if c \<in> set (sv_open s) then Inr (s\<lparr>sv_closing := sv_closing s @ [c]\<rparr>)
      else Inl (Undefined Dangling_pointer))"

definition onopen :: "nat \<Rightarrow> 'a server \<Rightarrow> 'a server res" where
  "onopen c s =
     send_text c ''Welcome! Ready for training data.'' (s\<lparr>sv_open := c # sv_open s, sv_ws := Some c\<rparr>)"

text \<open>The data a training message carries.\<close>

definition parse_training ::
  "'a cxx \<Rightarrow> rvalue \<Rightarrow> ('a::zero mat \<times> 'a mat \<times> int \<times> int) res" where
  "parse_training C parsed_data =
     bind_res (bind_res (rv_field parsed_data ''features'') (rv_matrix C)) (\<lambda>features.
     bind_res (bind_res (rv_field parsed_data ''target'') (rv_matrix C)) (\<lambda>target.
     bind_res (transpose_m features) (\<lambda>features.
     bind_res (transpose_m target) (\<lambda>target.
     bind_res (bind_res (rv_field parsed_data ''epochNum'') rv_i) (\<lambda>epochs.
     bind_res (bind_res (rv_field parsed_data ''minibatchSize'') rv_i) (\<lambda>batchSize.
       Inr (features, target, int_of_int64 epochs, int_of_int64 batchSize)))))))"

definition onmessage ::
  "'a cxx \<Rightarrow> nat \<Rightarrow> string \<Rightarrow> bool \<Rightarrow> 'a::zero server \<Rightarrow> 'a server res" where
  "onmessage C c data is_binary s =
     (if is_binary then Inr s
      else case load data of
             None \<Rightarrow> Inr s
           | Some parsed_data \<Rightarrow>
               (case parse_training C parsed_data of
                  Inl (Undefined u) \<Rightarrow> Inl (Undefined u)
                | Inl e \<Rightarrow> send_text c ''Error: Malformed training data.'' s
                | Inr (features, target, epochs, batchSize) \<Rightarrow>
                    Inr (s\<lparr>sv_jobs := sv_jobs s @ [Spawned features target epochs batchSize]\<rparr>)))"

text \<open>The close handler, after which the library destroys the connection.\<close>

definition onclose :: "nat \<Rightarrow> 'a server \<Rightarrow> 'a server" where
  "onclose c s =
     s\<lparr>sv_ws := (if sv_ws s = Some c then None else sv_ws s), sv_open := filter (\<lambda>d. d \<noteq> c) (sv_open s)\<rparr>"

section \<open>The training thread\<close>

definition remove_nth :: "nat \<Rightarrow> 'b list \<Rightarrow> 'b list" where
  "remove_nth i xs = take i xs @ drop (Suc i) xs"

text \<open>The first line of the thread and the evaluation of the arguments of \<open>train\<close>.\<close>

definition thread_begin :: "nat \<Rightarrow> 'a server \<Rightarrow> 'a server" where
  "thread_begin i s =
     (case sv_jobs s ! i of
        Spawned f t e b \<Rightarrow>
          (case (sv_ws s, sv_nn s) of
             (Some c, Some N) \<Rightarrow> s\<lparr>sv_jobs := (sv_jobs s)[i := InTraining c f t e b]\<rparr>
           | _ \<Rightarrow> s\<lparr>sv_jobs := remove_nth i (sv_jobs s)\<rparr>)
      | InTraining c f t e b \<Rightarrow> s)"

text \<open>
  The rest of the thread. Messages go to the connection the thread was given; the final
  message goes to the connection that is current at the end. An exception in a detached
  thread ends the process; the error is the result. \<open>None\<close>: the training does not return.
\<close>

definition thread_end ::
  "'a cxx \<Rightarrow> nat \<Rightarrow> 'a::{zero,one,plus,minus,uminus,times,inverse,ord} server \<Rightarrow> 'a server res option" where
  "thread_end C i s =
     (case (sv_jobs s ! i, sv_nn s) of
        (InTraining c f t e b, Some N) \<Rightarrow>
          bind_opt (train C (sv_rnd s) N f t e b True) (\<lambda>(N', rnd', final_accuracy, messages).
          bind_res (fold_res (\<lambda>s msg. send_text c msg s)
              (s\<lparr>sv_nn := Some N', sv_rnd := rnd', sv_jobs := remove_nth i (sv_jobs s)\<rparr>) messages) (\<lambda>s.
            case sv_ws s of
              None \<Rightarrow> Inr s
            | Some d \<Rightarrow>
                bind_res (send_text d (''Training finished! Final Accuracy: '' @ c_to_string C final_accuracy) s) (close_ws d)))
      | _ \<Rightarrow> Some (Inr s))"

section \<open>\<open>POST /compile\<close> and \<open>GET /health\<close>\<close>

record 'a hyper =
  hp_sizes :: "int list"
  hp_rates :: "'a list"
  hp_activations :: "string list"
  hp_loss :: string
  hp_input :: int

definition parse_compile :: "'a cxx \<Rightarrow> rvalue \<Rightarrow> 'a::zero hyper res" where
  "parse_compile C body =
     bind_res (rv_field body ''hiddenLayerSizes'') (\<lambda>hiddenLayerSizes.
     bind_res (rv_field body ''learningRates'') (\<lambda>learningRates.
     bind_res (rv_field body ''layerActivations'') (\<lambda>layerActivations.
     bind_res (rv_list (\<lambda>v. map_sum id int_of_int64 (rv_i v)) hiddenLayerSizes) (\<lambda>sizes.
     bind_res (rv_list (rv_d C) learningRates) (\<lambda>rates.
     bind_res (rv_list rv_s layerActivations) (\<lambda>acts.
     bind_res (bind_res (rv_field body ''lossFunc'') rv_s) (\<lambda>lossFunc.
     bind_res (bind_res (rv_field body ''inputSize'') rv_i) (\<lambda>inputSize.
       Inr \<lparr> hp_sizes = sizes, hp_rates = rates, hp_activations = acts, hp_loss = lossFunc,
             hp_input = int_of_int64 inputSize \<rparr>))))))))"

text \<open>The library's exception handler, around the handler: undefined behaviour is not caught.\<close>

definition handle_exception :: "cxx_error \<Rightarrow> 'a server \<Rightarrow> ('a server \<times> response) res" where
  "handle_exception e s =
     (case e of Undefined u \<Rightarrow> Inl (Undefined u) | _ \<Rightarrow> Inr (s, response_text 500 ''''))"

text \<open>
  The layers are deleted and rebuilt without synchronisation: while a thread is inside
  \<open>train\<close>, whose loops read and write them, this is a data race.
\<close>

definition compile ::
  "'a cxx \<Rightarrow> 'a dist \<Rightarrow> string \<Rightarrow> 'a::{zero,one,uminus,inverse} server
   \<Rightarrow> ('a server \<times> response) res" where
  "compile C D req s =
     (case sv_nn s of
        None \<Rightarrow> Inr (s, response_text 500 ''Server Error: Neural Network not initialized.'')
      | Some N \<Rightarrow>
          (case load req of
             None \<Rightarrow> Inr (s, response_text 400 ''Invalid JSON'')
           | Some body \<Rightarrow>
               (case parse_compile C body of
                  Inl e \<Rightarrow> handle_exception e s
                | Inr h \<Rightarrow>
                    if \<exists>j\<in>set (sv_jobs s). case j of InTraining _ _ _ _ _ \<Rightarrow> True | Spawned _ _ _ _ \<Rightarrow> False
                    then Inl (Undefined Data_race)
                    else (let (N', r) = setModelHyperParameters C D (sv_draws s) (hp_sizes h) (hp_activations h)
                                (hp_loss h) (hp_rates h) [] [] (hp_input h) N
                          in case r of
                               Inl e \<Rightarrow> handle_exception e (s\<lparr>sv_nn := Some N'\<rparr>)
                             | Inr draws' \<Rightarrow> Inr (s\<lparr>sv_nn := Some N', sv_draws := draws'\<rparr>,
                                               response_json C 200 (getModelParameters N'))))))"

definition health :: "response" where
  "health = response_text 200 ''Server is alive!''"

section \<open>Runs of the server\<close>

datatype event =
    Open nat
  | Message nat string bool
  | Close nat
  | Compile string
  | Thread_begin nat
  | Thread_end nat

text \<open>
  One event. A connection is opened with a fresh identity; messages and closes come from
  live connections; a thread steps if it exists, and ends if its training returns.
\<close>

inductive step ::
  "'a cxx \<Rightarrow> 'a dist \<Rightarrow> 'a::{zero,one,plus,minus,uminus,times,inverse,ord} server
   \<Rightarrow> event \<Rightarrow> 'a server res \<Rightarrow> bool"
  for C D where
  open_step: "c \<notin> set (sv_open s) \<Longrightarrow> step C D s (Open c) (onopen c s)"
| message_step: "c \<in> set (sv_open s) \<Longrightarrow> step C D s (Message c data b) (onmessage C c data b s)"
| close_step: "c \<in> set (sv_open s) \<Longrightarrow> step C D s (Close c) (Inr (onclose c s))"
| compile_step: "step C D s (Compile req) (map_sum id fst (compile C D req s))"
| begin_step: "i < length (sv_jobs s) \<Longrightarrow> step C D s (Thread_begin i) (Inr (thread_begin i s))"
| end_step: "i < length (sv_jobs s) \<Longrightarrow> thread_end C i s = Some r \<Longrightarrow> step C D s (Thread_end i) r"

inductive_cases step_elims:
  "step C D s (Open c) r" "step C D s (Message c data b) r" "step C D s (Close c) r"
  "step C D s (Compile req) r" "step C D s (Thread_begin i) r" "step C D s (Thread_end i) r"

text \<open>The states a run of the server passes through.\<close>

inductive run ::
  "'a cxx \<Rightarrow> 'a dist \<Rightarrow> 'a::{zero,one,plus,minus,uminus,times,inverse,ord} server
   \<Rightarrow> event list \<Rightarrow> 'a server res \<Rightarrow> bool"
  for C D where
  run_start: "run C D s [] (Inr s)"
| run_step: "run C D s es (Inr t) \<Longrightarrow> step C D t e r \<Longrightarrow> run C D s (es @ [e]) r"

end
