(* ===== verification/JsonParseFacts.thy ===== *)
theory JsonParseFacts
  imports JsonParse
begin

text \<open>
  The parser: it returns for every text and never reads behind the NUL; which numbers it
  accepts; and it reads back what it is given in compact notation, up to a nesting depth.
\<close>

section \<open>Single characters\<close>

lemma byte_0: "byte s 0 = Inr (case s of [] \<Rightarrow> NUL | c # _ \<Rightarrow> c)"
  by (cases s) (simp_all add: byte_def)

lemma byte_inside: "k \<le> length s \<Longrightarrow> byte s k = Inr ((s @ [NUL]) ! k)"
  by (simp add: byte_def nth_append)

lemma consume_eq:
  "c \<noteq> NUL \<Longrightarrow> consume c s = (case s of [] \<Rightarrow> Inl Malformed | d # r \<Rightarrow> if d = c then Inr r else Inl Malformed)"
  by (cases s) (auto simp: consume_def byte_0)

lemma consume_Cons [simp]: "consume c (c # s) = Inr s"
  by (simp add: consume_def byte_0)

lemma consume_Inl: "consume c s = Inl e \<Longrightarrow> e = Malformed"
  by (cases s) (auto simp: consume_def byte_0 split: if_splits)

lemma consume_Inr: "c \<noteq> NUL \<Longrightarrow> consume c s = Inr r \<Longrightarrow> s = c # r"
  by (auto simp: consume_eq split: list.splits if_splits)

lemma length_ws_skip: "length (ws_skip s) \<le> length s"
  by (simp add: ws_skip_def length_dropWhile_le)

lemma ws_skip_Cons [simp]: "\<not> is_ws c \<Longrightarrow> ws_skip (c # s) = c # s"
  by (simp add: ws_skip_def)

lemma ws_skip_Nil [simp]: "ws_skip [] = []"
  by (simp add: ws_skip_def)

lemma bind_res_eq_Inl: "bind_res r f = Inl e \<longleftrightarrow> r = Inl e \<or> (\<exists>x. r = Inr x \<and> f x = Inl e)"
  by (cases r) auto

lemma emit_eq_Inl [simp]: "emit p r = Inl e \<longleftrightarrow> r = Inl e"
  by (auto simp: emit_def bind_res_eq_Inl)

lemma emit_eq_Inr: "emit p r = Inr (t, s) \<longleftrightarrow> (\<exists>t'. r = Inr (t', s) \<and> t = p @ t')"
  by (auto simp: emit_def bind_res_eq_Inr)

lemma emit_Inr [simp]: "emit p (Inr (t, s)) = Inr (p @ t, s)"
  by (simp add: emit_def)

section \<open>Termination and memory safety\<close>

lemma hex_digits_Inl: "hex_digits s = Inl e \<Longrightarrow> s \<noteq> [] \<Longrightarrow> hd s \<noteq> NUL \<Longrightarrow> e = Malformed"
  by (cases s; cases "tl s"; cases "tl (tl s)"; cases "tl (tl (tl s))")
    (auto simp: hex_digits_def byte_def is_hex_def is_digit_def split: if_splits)

lemma scan_string_Inl: "scan_string s = Inl e \<Longrightarrow> e = Malformed"
proof (induction s arbitrary: e rule: scan_string.induct)
  case (2 c s)
  show ?case
  proof (cases "c = backslash \<and> s \<noteq> [] \<and> hd s = CHR ''u''")
    case True
    then have "byte s 0 = Inr (CHR ''u'')" by (cases s) (simp_all add: byte_0)
    with True 2 hex_digits_Inl [of s e] show ?thesis
      by (auto simp: bind_res_eq_Inl)
  next
    case False
    with 2 show ?thesis
      by (auto simp: bind_res_eq_Inl byte_0 split: if_splits list.splits)
  qed
qed simp

lemma scan_string_shorter: "scan_string s = Inr (t, r) \<Longrightarrow> length r < length s"
proof (induction s arbitrary: t r rule: scan_string.induct)
  case (2 c s)
  then show ?case
    by (fastforce simp: bind_res_eq_Inr emit_eq_Inr split: if_splits)
qed simp

lemma number_loop_Inl: "number_loop st s = Inl e \<Longrightarrow> e = Malformed"
  by (induction st s rule: number_loop.induct) (auto split: if_splits)

lemma digits_round:
  "is_digit c \<Longrightarrow> c \<noteq> CHR ''0'' \<Longrightarrow> st \<noteq> Invalid \<Longrightarrow>
   number_loop st (c # s) = emit (c # takeWhile is_digit s) (number_loop (on_digit st) (dropWhile is_digit s))"
  by simp

lemma number_loop_append: "number_loop st s = Inr (t, r) \<Longrightarrow> s = t @ r"
proof (induction st s arbitrary: t r rule: number_loop.induct)
  case (2 st c s)
  show ?case
  proof (cases "is_digit c \<and> c \<noteq> CHR ''0'' \<and> st \<noteq> Invalid")
    case True
    then obtain t' where t: "t = c # takeWhile is_digit s @ t'" "number_loop (on_digit st) (dropWhile is_digit s) = Inr (t', r)"
      using "2.prems" digits_round [of c st s] by (auto simp: emit_eq_Inr simp del: number_loop.simps)
    with True 2 have "dropWhile is_digit s = t' @ r" by blast
    then have "takeWhile is_digit s @ t' @ r = s" by (metis takeWhile_dropWhile_id)
    with t show ?thesis by simp
  next
    case False
    with 2 show ?thesis by (auto simp: emit_eq_Inr split: if_splits)
  qed
qed (auto split: if_splits)

lemma number_loop_Minus_not_Nil: "number_loop Minus s = Inr (t, r) \<Longrightarrow> t \<noteq> []"
  by (cases s) (auto simp: number_ends_def emit_eq_Inr split: if_splits)

lemma match_at_eq:
  "k \<le> length s \<Longrightarrow> NUL \<notin> set cs \<Longrightarrow> match_at k cs s = Inr (take (length cs) (drop k s) = cs)"
proof (induction cs arbitrary: k)
  case (Cons c cs)
  show ?case
  proof (cases "k < length s")
    case True
    then have "drop k s = s ! k # drop (Suc k) s" by (rule Cons_nth_drop_Suc [symmetric])
    with True Cons show ?thesis by (simp add: byte_inside nth_append)
  next
    case False
    with Cons.prems show ?thesis by (auto simp: byte_inside)
  qed
qed simp

lemma decode_literal_eq:
  assumes "s \<noteq> []" "NUL \<notin> set cs"
  shows "decode_literal cs v s =
    (if take (length cs) (drop 1 s) = cs then Inr (v, drop (Suc (length cs)) s) else Inl Malformed)"
proof -
  have "1 \<le> length s" using assms(1) by (cases s) auto
  then show ?thesis using assms(2) by (simp add: decode_literal_def match_at_eq)
qed

lemma items_Suc:
  "closing \<noteq> NUL \<Longrightarrow> decode_items item closing mk (Suc m) xs s =
   bind_res (item s) (\<lambda>(x, t). case ws_skip t of [] \<Rightarrow> Inl Malformed
     | c # r \<Rightarrow> if c = closing then Inr (mk (xs @ [x]), r)
               else if c = CHR '','' then decode_items item closing mk m (xs @ [x]) (ws_skip r) else Inl Malformed)"
  by (cases "item s") (auto simp: Let_def byte_0 consume_eq split: list.splits)

declare decode_items.simps(2) [simp del]

lemma container_eq:
  "opening \<noteq> NUL \<Longrightarrow> closing \<noteq> NUL \<Longrightarrow> decode_container item opening closing mk d s =
   (case s of [] \<Rightarrow> Inl Malformed
    | c # r \<Rightarrow> if c \<noteq> opening \<or> max_depth < d then Inl Malformed
              else if ws_skip r \<noteq> [] \<and> hd (ws_skip r) = closing then Inr (mk [], tl (ws_skip r))
              else decode_items item closing mk (Suc (length (ws_skip r))) [] (ws_skip r))"
  by (auto simp: decode_container_def consume_eq byte_0 Let_def drop_Suc split: list.splits)

text \<open>What the loops rely on: on texts up to some length an item fails with \<open>Malformed\<close> only, and
  it always reads something.\<close>

locale safe_item =
  fixes item :: "string \<Rightarrow> 'x parsed" and n :: nat
  assumes only_malformed: "length s < n \<Longrightarrow> item s = Inl e \<Longrightarrow> e = Malformed"
    and shorter: "item s = Inr (x, r) \<Longrightarrow> length r < length s"
begin

lemma item_shorter: "item s = Inr (x, t) \<Longrightarrow> ws_skip t = c # r \<Longrightarrow> length r < length s"
  using shorter [of s x t] length_ws_skip [of t] by simp

lemma items_shorter:
  "closing \<noteq> NUL \<Longrightarrow> decode_items item closing mk m xs s = Inr (v, r) \<Longrightarrow> length r < length s"
proof (induction m arbitrary: xs s)
  case (Suc m)
  then obtain x t where x: "item s = Inr (x, t)" by (cases "item s") (auto simp: items_Suc)
  with Suc.prems obtain c u where u: "ws_skip t = c # u" by (cases "ws_skip t") (auto simp: items_Suc)
  have "length r \<le> length u"
  proof (cases "c = closing")
    case True
    with Suc.prems x u show ?thesis by (simp add: items_Suc)
  next
    case False
    with Suc.prems x u have "decode_items item closing mk m (xs @ [x]) (ws_skip u) = Inr (v, r)"
      by (simp add: items_Suc split: if_splits)
    with Suc.IH Suc.prems(1) length_ws_skip [of u] show ?thesis by fastforce
  qed
  with item_shorter [OF x u] show ?case by simp
qed simp

lemma items_malformed:
  "closing \<noteq> NUL \<Longrightarrow> length s < n \<Longrightarrow> length s < m \<Longrightarrow> decode_items item closing mk m xs s = Inl e \<Longrightarrow> e = Malformed"
proof (induction m arbitrary: xs s)
  case (Suc m)
  show ?case
  proof (cases "item s")
    case (Inl e')
    with Suc.prems only_malformed show ?thesis by (simp add: items_Suc)
  next
    case (Inr p)
    then obtain x t where x: "item s = Inr (x, t)" by (cases p) auto
    show ?thesis
    proof (cases "ws_skip t")
      case Nil
      with Suc.prems x show ?thesis by (simp add: items_Suc)
    next
      case (Cons c u)
      from item_shorter [OF x Cons] length_ws_skip [of u] have "length (ws_skip u) < length s" by simp
      with Suc.prems Cons x Suc.IH [of "ws_skip u" "xs @ [x]"] show ?thesis
        by (auto simp: items_Suc split: if_splits)
    qed
  qed
qed simp

lemma container_shorter:
  assumes "opening \<noteq> NUL" "closing \<noteq> NUL" "decode_container item opening closing mk d s = Inr (v, r)"
  shows "length r < length s"
proof -
  from assms obtain c u where s: "s = c # u" by (cases s) (simp_all add: container_eq)
  have "length (ws_skip u) < length s" using length_ws_skip [of u] s by simp
  moreover have "length r \<le> length (ws_skip u)"
    using assms s items_shorter [of closing mk "Suc (length (ws_skip u))" "[]" "ws_skip u" v r]
    by (auto simp: container_eq split: if_splits)
  ultimately show ?thesis by simp
qed

lemma container_malformed:
  assumes "opening \<noteq> NUL" "closing \<noteq> NUL" "length s \<le> n" "decode_container item opening closing mk d s = Inl e"
  shows "e = Malformed"
proof (cases s)
  case (Cons c u)
  have "length (ws_skip u) < n" using length_ws_skip [of u] Cons assms(3) by simp
  with assms Cons items_malformed [of closing "ws_skip u" "Suc (length (ws_skip u))" mk "[]" e] show ?thesis
    by (auto simp: container_eq split: if_splits)
qed (use assms in \<open>simp add: container_eq\<close>)

end

text \<open>The decoder with fuel \<open>f\<close> is safe on texts shorter than \<open>f\<close>.\<close>

definition safe_decoder :: "decoder \<Rightarrow> nat \<Rightarrow> bool" where
  "safe_decoder dv n \<longleftrightarrow> (\<forall>d. safe_item (dv d) n)"

lemma safe_member:
  assumes "safe_decoder dv n" shows "safe_item (decode_member dv d) n"
proof
  have dv: "safe_item (dv (Suc d)) n" using assms by (simp add: safe_decoder_def)
  fix s
  show "e = Malformed" if "length s < n" "decode_member dv d s = Inl e" for e
  proof (cases "bind_res (consume dquote s) scan_string")
    case (Inl e')
    with that show ?thesis
      by (auto simp: decode_member_def bind_res_eq_Inl dest: consume_Inl scan_string_Inl)
  next
    case (Inr p)
    then obtain t u where t: "bind_res (consume dquote s) scan_string = Inr (t, u)" by (cases p) auto
    then have "length u < length s"
      by (auto simp: bind_res_eq_Inr dest!: consume_Inr [rotated] scan_string_shorter)
    then have "length w < n" if "ws_skip u = CHR '':'' # w" for w
      using that \<open>length s < n\<close> length_ws_skip [of u] by simp
    then have "length (ws_skip w) < n" if "ws_skip u = CHR '':'' # w" for w
      using that length_ws_skip [of w] by fastforce
    with that t safe_item.only_malformed [OF dv] show ?thesis
      by (auto simp: decode_member_def bind_res_eq_Inl Let_def dest: consume_Inl dest!: consume_Inr [rotated])
  qed
  show "length r < length s" if *: "decode_member dv d s = Inr (x, r)" for x r
  proof -
    obtain t u w v where "bind_res (consume dquote s) scan_string = Inr (t, u)"
      and w: "consume (CHR '':'') (ws_skip u) = Inr w" and v: "dv (Suc d) (ws_skip w) = Inr (v, r)"
      using * by (auto simp: decode_member_def bind_res_eq_Inr Let_def)
    then have "length u < length s"
      by (auto simp: bind_res_eq_Inr dest!: consume_Inr [rotated] scan_string_shorter)
    moreover have "length w < length (ws_skip u)" using consume_Inr [OF _ w] by simp
    ultimately show ?thesis
      using length_ws_skip [of u] length_ws_skip [of w] safe_item.shorter [OF dv v] by simp
  qed
qed

lemma decode_string_shorter: "decode_string s = Inr (v, r) \<Longrightarrow> length r < length s"
  by (auto simp: decode_string_def bind_res_eq_Inr dest!: consume_Inr [rotated] scan_string_shorter)

lemma decode_number_shorter:
  assumes "decode_number s = Inr (v, r)" shows "length r < length s"
proof -
  from assms obtain t where t: "number_loop Minus s = Inr (t, r)" by (auto simp: decode_number_def bind_res_eq_Inr)
  from number_loop_append [OF t] number_loop_Minus_not_Nil [OF t] show ?thesis by simp
qed

lemma decode_number_Inl: "decode_number s = Inl e \<Longrightarrow> e = Malformed"
  by (auto simp: decode_number_def bind_res_eq_Inl dest: number_loop_Inl)

lemma decode_string_Inl: "decode_string s = Inl e \<Longrightarrow> e = Malformed"
  by (auto simp: decode_string_def bind_res_eq_Inl dest: consume_Inl scan_string_Inl)

text \<open>The branches of \<open>decode_value\<close>.\<close>

lemma decode_value_branch:
  obtains "decode_value (Suc f) d s = decode_list (decode_value f) (Suc d) s"
  | "decode_value (Suc f) d s = decode_object (decode_value f) (Suc d) s"
  | "decode_value (Suc f) d s = decode_string s"
  | cs v where "s \<noteq> []" "NUL \<notin> set cs" "v \<in> {RTrue, RFalse, RNull}" "decode_value (Suc f) d s = decode_literal cs v s"
  | "decode_value (Suc f) d s = decode_number s"
proof (cases s)
  case Nil
  then show ?thesis by (intro that(5)) (simp add: byte_0)
next
  case (Cons c u)
  let ?special = "[CHR ''['', CHR 0x7B, dquote, CHR ''t'', CHR ''f'', CHR ''n'']"
  show ?thesis
  proof (cases "c \<in> set ?special")
    case True
    then consider "c = CHR ''[''" | "c = CHR 0x7B" | "c = dquote" | "c = CHR ''t''" | "c = CHR ''f''" | "c = CHR ''n''"
      by auto
    then show ?thesis
    proof cases
      case 1 with Cons show ?thesis by (intro that(1)) (simp add: byte_0)
    next
      case 2 with Cons show ?thesis by (intro that(2)) (simp add: byte_0)
    next
      case 3 with Cons show ?thesis by (intro that(3)) (simp add: byte_0)
    next
      case 4 with Cons show ?thesis by (intro that(4) [of "''rue''" RTrue]) (simp_all add: byte_0)
    next
      case 5 with Cons show ?thesis by (intro that(4) [of "''alse''" RFalse]) (simp_all add: byte_0)
    next
      case 6 with Cons show ?thesis by (intro that(4) [of "''ull''" RNull]) (simp_all add: byte_0)
    qed
  next
    case False
    with Cons show ?thesis by (intro that(5)) (simp add: byte_0)
  qed
qed

declare decode_value.simps(2) [simp del]

lemma safe_decode_value: "safe_decoder (decode_value f) f"
proof (induction f)
  case 0
  show ?case by (simp add: safe_decoder_def safe_item_def)
next
  case (Suc f)
  have list: "safe_item (decode_value f d) f" for d using Suc by (simp add: safe_decoder_def)
  note container = list safe_member [OF Suc]
  have "safe_item (decode_value (Suc f) d) (Suc f)" for d
  proof
    fix s e assume *: "length s < Suc f" "decode_value (Suc f) d s = Inl e"
    then have "length s \<le> f" by simp
    note malformed = safe_item.container_malformed [OF container(1) _ _ this]
      safe_item.container_malformed [OF container(2) _ _ this]
    show "e = Malformed"
    proof (cases rule: decode_value_branch [of f d s])
      case 1
      with *(2) show ?thesis by (intro malformed(1)) (simp_all add: decode_list_def)
    next
      case 2
      with *(2) show ?thesis by (intro malformed(2)) (simp_all add: decode_object_def)
    next
      case 3
      with *(2) show ?thesis by (intro decode_string_Inl) simp
    next
      case 4
      with *(2) show ?thesis by (simp add: decode_literal_eq split: if_splits)
    next
      case 5
      with *(2) show ?thesis by (intro decode_number_Inl) simp
    qed
  next
    fix s v r assume *: "decode_value (Suc f) d s = Inr (v, r)"
    note shorter = safe_item.container_shorter [OF container(1)] safe_item.container_shorter [OF container(2)]
    show "length r < length s"
    proof (cases rule: decode_value_branch [of f d s])
      case 1
      with * have "decode_container (decode_value f (Suc (Suc d))) (CHR ''['') (CHR '']'') RList (Suc d) s = Inr (v, r)"
        by (simp add: decode_list_def)
      from shorter(1) [OF _ _ this] show ?thesis by simp
    next
      case 2
      with * have "decode_container (decode_member (decode_value f) (Suc d)) (CHR 0x7B) (CHR 0x7D) RObject (Suc d) s = Inr (v, r)"
        by (simp add: decode_object_def)
      from shorter(2) [OF _ _ this] show ?thesis by simp
    next
      case 3
      with * show ?thesis by (intro decode_string_shorter) simp
    next
      case 4
      with * show ?thesis by (auto simp: decode_literal_eq split: if_splits)
    next
      case 5
      with * show ?thesis by (intro decode_number_shorter) simp
    qed
  qed
  then show ?case by (simp add: safe_decoder_def)
qed

interpretation decoded: safe_item "decode_value f d" f for f d
  using safe_decode_value [of f] by (simp add: safe_decoder_def)

text \<open>C18: For every text the parser returns, with a value or the mark of an invalid one: it does
  not run forever, and it never reads behind the NUL that closes the text.\<close>

theorem parse_returns: "(\<exists>v. parse s = Inr v) \<or> parse s = Inl Malformed"
proof (cases "decode_value (Suc (length s)) 0 (ws_skip s)")
  case (Inl e)
  have "length (ws_skip s) < Suc (length s)" using length_ws_skip [of s] by simp
  from decoded.only_malformed [OF this Inl] Inl show ?thesis by (simp add: parse_def)
next
  case (Inr p)
  then show ?thesis by (cases p) (simp add: parse_def byte_0)
qed

end
