(* ===== verification/JsonNumbers.thy ===== *)
theory JsonNumbers
  imports JsonParseFacts
begin

text \<open>The numbers the parser accepts, by what each state of its machine still reads.\<close>

section \<open>Runs of the number machine\<close>

lemma emit_emit [simp]: "emit p (emit q r) = emit (p @ q) r"
  by (cases r) (auto simp: emit_def)

lemma emit_Nil [simp]: "emit [] r = r"
  by (cases r) (auto simp: emit_def)

lemma number_loop_Invalid [simp]: "number_loop Invalid s = Inl Malformed"
  by (cases s) (simp_all add: number_ends_def)

lemma digit_zero [simp]: "is_digit (CHR ''0'')"
  by (simp add: is_digit_def)

lemma number_signs [simp]:
  "\<not> is_digit (CHR ''.'')" "\<not> is_digit (CHR ''-'')" "\<not> is_digit (CHR ''+'')" "\<not> is_digit (CHR ''e'')" "\<not> is_digit (CHR ''E'')"
  by (simp_all add: is_digit_def)

lemma digits_skip:
  assumes "st \<in> {Digits, DigitsAfterPoints, DigitsAfterE}"
  shows "number_loop st s = emit (takeWhile is_digit s) (number_loop st (dropWhile is_digit s))"
proof (induction s)
  case (Cons c s)
  have st: "st \<noteq> Invalid" "on_zero st = st" "on_digit st = st" using assms by auto
  show ?case
  proof (cases "is_digit c")
    case True
    with st Cons show ?thesis by (cases "c = CHR ''0''") simp_all
  qed simp
qed simp

definition reads_all :: "num_state \<Rightarrow> string \<Rightarrow> bool" where
  "reads_all st s \<longleftrightarrow> number_loop st s = Inr (s, [])"

lemma reads_allI: "number_loop st s = Inr (t, []) \<Longrightarrow> reads_all st s"
  using number_loop_append [of st s t "[]"] by (simp add: reads_all_def)

lemma reads_all_emit: "number_loop st s = emit p (number_loop st' r) \<Longrightarrow> s = p @ r \<Longrightarrow> reads_all st s \<longleftrightarrow> reads_all st' r"
  by (auto simp: reads_all_def emit_eq_Inr)

lemma reads_all_digits:
  assumes "st \<in> {Digits, DigitsAfterPoints, DigitsAfterE}"
  shows "reads_all st s \<longleftrightarrow> reads_all st (dropWhile is_digit s)"
  by (rule reads_all_emit [OF digits_skip [OF assms]]) simp

lemma reads_all_Nil: "reads_all st [] \<longleftrightarrow> number_ends st"
  by (simp add: reads_all_def)

definition exp_mark :: "char \<Rightarrow> bool" where
  "exp_mark c \<longleftrightarrow> c = CHR ''e'' \<or> c = CHR ''E''"

lemma reads_all_Cons:
  "reads_all st (c # s) \<longleftrightarrow> st \<noteq> Invalid \<and>
    (c = CHR ''0'' \<and> reads_all (on_zero st) s \<or>
     is_digit c \<and> c \<noteq> CHR ''0'' \<and> reads_all (on_digit st) (dropWhile is_digit s) \<or>
     c = CHR ''.'' \<and> reads_all (on_point st) s \<or> c = CHR ''-'' \<and> reads_all (on_minus st) s \<or>
     c = CHR ''+'' \<and> reads_all (on_plus st) s \<or> exp_mark c \<and> reads_all (on_e st) s)"
proof -
  have digits: "(\<exists>t. number_loop q (dropWhile is_digit s) = Inr (t, []) \<and> s = takeWhile is_digit s @ t) \<longleftrightarrow>
      reads_all q (dropWhile is_digit s)" for q
    by (metis reads_allI reads_all_def takeWhile_dropWhile_id)
  show ?thesis
    using digits [of "on_digit st"]
    by (auto simp: reads_all_def emit_eq_Inr exp_mark_def split: if_splits)
qed

lemma reads_all_Invalid [simp]: "\<not> reads_all Invalid s"
  by (simp add: reads_all_def)

section \<open>The language of each state\<close>

definition digits :: "string \<Rightarrow> bool" where
  "digits s \<longleftrightarrow> (\<forall>c\<in>set s. is_digit c)"

lemma digits_simps [simp]: "digits []" "digits (c # s) \<longleftrightarrow> is_digit c \<and> digits s"
  by (simp_all add: digits_def)

text \<open>A text splits into its leading digits and a rest that starts with no digit.\<close>

lemma leading_digits:
  "digits ds \<Longrightarrow> r = [] \<or> \<not> is_digit (hd r) \<Longrightarrow> dropWhile is_digit (ds @ r) = r"
  by (induction ds) (cases r; simp)+

lemma reads_digits:
  assumes "st \<in> {Digits, DigitsAfterPoints, DigitsAfterE}"
    and "\<And>c r. P (c # r) \<Longrightarrow> \<not> is_digit c"
    and "\<And>c r. \<not> is_digit c \<Longrightarrow> reads_all st (c # r) \<longleftrightarrow> P (c # r)"
  shows "reads_all st s \<longleftrightarrow> (\<exists>ds r. s = ds @ r \<and> digits ds \<and> (r = [] \<or> r \<noteq> [] \<and> P r))"
proof -
  have ends: "number_ends st" using assms(1) by (auto simp: number_ends_def)
  have tail: "reads_all st r \<longleftrightarrow> r = [] \<or> P r" if "r = [] \<or> \<not> is_digit (hd r)" for r
    using that ends assms(3) by (cases r) (auto simp: reads_all_Nil)
  show ?thesis
  proof
    assume "reads_all st s"
    then have "reads_all st (dropWhile is_digit s)" using reads_all_digits [OF assms(1)] by simp
    then have "dropWhile is_digit s = [] \<or> P (dropWhile is_digit s)"
      using tail hd_dropWhile [of is_digit s] by blast
    moreover have "digits (takeWhile is_digit s)" by (auto simp: digits_def dest: set_takeWhileD)
    ultimately show "\<exists>ds r. s = ds @ r \<and> digits ds \<and> (r = [] \<or> r \<noteq> [] \<and> P r)"
      by (intro exI [of _ "takeWhile is_digit s"] exI [of _ "dropWhile is_digit s"]) auto
  next
    assume "\<exists>ds r. s = ds @ r \<and> digits ds \<and> (r = [] \<or> r \<noteq> [] \<and> P r)"
    then obtain ds r where s: "s = ds @ r" "digits ds" "r = [] \<or> P r" by blast
    then have r: "r = [] \<or> \<not> is_digit (hd r)" using assms(2) by (cases r) auto
    have "dropWhile is_digit s = r" using s leading_digits [OF s(2) r] by simp
    with tail [OF r] s show "reads_all st s" using reads_all_digits [OF assms(1), of s] by simp
  qed
qed

lemma reads_after_e: "reads_all DigitsAfterE s \<longleftrightarrow> digits s"
proof -
  have "reads_all DigitsAfterE s \<longleftrightarrow> (\<exists>ds r. s = ds @ r \<and> digits ds \<and> (r = [] \<or> r \<noteq> [] \<and> False))"
    by (rule reads_digits) (auto simp: reads_all_Cons)
  then show ?thesis by auto
qed

lemma reads_exp:
  "reads_all Exp s \<longleftrightarrow> (\<exists>x ds. s = x # ds \<and> (is_digit x \<or> x = CHR ''+'' \<or> x = CHR ''-'') \<and> digits ds)"
proof (cases s)
  case (Cons x ds)
  have "reads_all DigitsAfterE (dropWhile is_digit ds) \<longleftrightarrow> digits ds"
    using reads_all_digits [of DigitsAfterE ds] by (simp add: reads_after_e)
  with Cons show ?thesis by (auto simp: reads_all_Cons reads_after_e)
qed (simp add: reads_all_Nil number_ends_def)

definition exponent :: "string \<Rightarrow> bool" where
  "exponent s \<longleftrightarrow> (\<exists>e x ds. s = e # x # ds \<and> exp_mark e \<and> (is_digit x \<or> x = CHR ''+'' \<or> x = CHR ''-'') \<and> digits ds)"

lemma exponent_Nil [simp]: "\<not> exponent []"
  by (simp add: exponent_def)

lemma exponent_not_Nil: "r \<noteq> [] \<and> exponent r \<longleftrightarrow> exponent r"
  by auto

lemma exp_mark_not_digit: "exp_mark c \<Longrightarrow> \<not> is_digit c \<and> c \<noteq> CHR ''.'' \<and> c \<noteq> CHR ''-'' \<and> c \<noteq> CHR ''+'' \<and> c \<noteq> CHR ''0''"
  by (auto simp: exp_mark_def)

lemma reads_e_exponent: "exp_mark c \<and> reads_all Exp s \<longleftrightarrow> exponent (c # s)"
  by (auto simp: exponent_def reads_exp)

lemma reads_points:
  "reads_all DigitsAfterPoints s \<longleftrightarrow> (\<exists>ds ex. s = ds @ ex \<and> digits ds \<and> (ex = [] \<or> exponent ex))"
proof -
  have "reads_all DigitsAfterPoints s \<longleftrightarrow> (\<exists>ds r. s = ds @ r \<and> digits ds \<and> (r = [] \<or> r \<noteq> [] \<and> exponent r))"
    by (rule reads_digits) (auto simp: reads_all_Cons simp flip: reads_e_exponent dest: exp_mark_not_digit)
  then show ?thesis by (simp only: exponent_not_Nil)
qed

definition fraction :: "string \<Rightarrow> bool" where
  "fraction s \<longleftrightarrow> (\<exists>ds. s = CHR ''.'' # ds \<and> digits ds)"

text \<open>What may follow the integer part, which tells whether an exponent may follow at once.\<close>

definition decimals :: "bool \<Rightarrow> string \<Rightarrow> bool" where
  "decimals zero s \<longleftrightarrow> (\<exists>fr ex. s = fr @ ex \<and> (fr = [] \<or> fraction fr) \<and> (ex = [] \<or> exponent ex \<and> (zero \<longrightarrow> fr \<noteq> [])))"

lemma reads_point_decimals:
  "(\<exists>y. s = CHR ''.'' # y \<and> reads_all DigitsAfterPoints y) \<longleftrightarrow> (\<exists>fr ex. s = fr @ ex \<and> fraction fr \<and> (ex = [] \<or> exponent ex))"
  unfolding reads_points fraction_def by (metis append_Cons)

lemma decimals_zero: "reads_all ZeroFirst s \<longleftrightarrow> decimals True s"
proof -
  have "reads_all ZeroFirst s \<longleftrightarrow> s = [] \<or> (\<exists>y. s = CHR ''.'' # y \<and> reads_all DigitsAfterPoints y)"
    by (cases s) (auto simp: reads_all_Cons reads_all_Nil number_ends_def)
  then show ?thesis
    unfolding reads_point_decimals decimals_def by (auto simp: fraction_def)
qed

lemma reads_integer:
  "reads_all Digits s \<longleftrightarrow> (\<exists>ds r. s = ds @ r \<and> digits ds \<and> decimals False r)"
proof -
  let ?P = "\<lambda>r. (\<exists>y. r = CHR ''.'' # y \<and> reads_all DigitsAfterPoints y) \<or> exponent r"
  have "reads_all Digits s \<longleftrightarrow> (\<exists>ds r. s = ds @ r \<and> digits ds \<and> (r = [] \<or> r \<noteq> [] \<and> ?P r))"
    by (rule reads_digits) (auto simp: reads_all_Cons simp flip: reads_e_exponent dest: exp_mark_not_digit)
  moreover have "decimals False r \<longleftrightarrow> r = [] \<or> r \<noteq> [] \<and> ?P r" for r
    unfolding reads_point_decimals by (cases "r = []") (auto simp: decimals_def)
  ultimately show ?thesis by simp
qed

section \<open>Numbers\<close>

text \<open>
  The numbers of the parser. Against the JSON grammar, the digits after the point may be
  missing, those after a signed exponent mark too, and a single zero takes no exponent.
\<close>

definition unsigned_number :: "string \<Rightarrow> bool" where
  "unsigned_number s \<longleftrightarrow> (\<exists>ip fr ex. s = ip @ fr @ ex \<and>
     (ip = ''0'' \<or> (\<exists>c ds. ip = c # ds \<and> is_digit c \<and> c \<noteq> CHR ''0'' \<and> digits ds)) \<and>
     (fr = [] \<or> fraction fr) \<and> (ex = [] \<or> exponent ex \<and> (ip = ''0'' \<longrightarrow> fr \<noteq> [])))"

definition parser_number :: "string \<Rightarrow> bool" where
  "parser_number t \<longleftrightarrow> unsigned_number t \<or> (\<exists>s. t = CHR ''-'' # s \<and> unsigned_number s)"

lemma reads_after_minus:
  "reads_all AfterMinus s \<longleftrightarrow> (\<exists>r. s = CHR ''0'' # r \<and> decimals True r) \<or>
    (\<exists>c r. s = c # r \<and> is_digit c \<and> c \<noteq> CHR ''0'' \<and> reads_all Digits r)"
proof (cases s)
  case (Cons c r)
  have "reads_all Digits (dropWhile is_digit r) \<longleftrightarrow> reads_all Digits r"
    using reads_all_digits [of Digits r] by simp
  with Cons show ?thesis by (auto simp: reads_all_Cons decimals_zero)
qed (simp add: reads_all_Nil number_ends_def)

lemma reads_minus:
  "reads_all Minus s \<longleftrightarrow> reads_all AfterMinus s \<or> (\<exists>r. s = CHR ''-'' # r \<and> reads_all AfterMinus r)"
  by (cases s) (auto simp: reads_all_Cons reads_all_Nil number_ends_def)

lemma decode_number_parser: "decode_number t = Inr (RNumber t, []) \<longleftrightarrow> parser_number t"
proof -
  have body: "reads_all AfterMinus s \<longleftrightarrow> unsigned_number s" for s
  proof
    assume "reads_all AfterMinus s"
    then consider r where "s = CHR ''0'' # r" "decimals True r"
      | c ds r where "s = c # ds @ r" "is_digit c" "c \<noteq> CHR ''0''" "digits ds" "decimals False r"
      unfolding reads_after_minus reads_integer by blast
    then show "unsigned_number s"
    proof cases
      case 1
      then obtain fr ex where "s = ''0'' @ fr @ ex" "fr = [] \<or> fraction fr" "ex = [] \<or> exponent ex \<and> fr \<noteq> []"
        unfolding decimals_def by auto
      then show ?thesis unfolding unsigned_number_def by blast
    next
      case 2
      then obtain fr ex where "s = (c # ds) @ fr @ ex" "fr = [] \<or> fraction fr" "ex = [] \<or> exponent ex"
        unfolding decimals_def by auto
      moreover have "c # ds \<noteq> ''0''" using 2(3) by simp
      ultimately show ?thesis using 2(2-4) unfolding unsigned_number_def by blast
    qed
  next
    assume "unsigned_number s"
    then obtain ip fr ex where s: "s = ip @ fr @ ex"
      and ip: "ip = ''0'' \<or> (\<exists>c ds. ip = c # ds \<and> is_digit c \<and> c \<noteq> CHR ''0'' \<and> digits ds)"
      and rest: "fr = [] \<or> fraction fr" "ex = [] \<or> exponent ex \<and> (ip = ''0'' \<longrightarrow> fr \<noteq> [])"
      unfolding unsigned_number_def by blast
    then have "decimals (ip = ''0'') (fr @ ex)" unfolding decimals_def by blast
    then show "reads_all AfterMinus s"
      using s ip unfolding reads_after_minus reads_integer by auto
  qed
  have "decode_number t = Inr (RNumber t, []) \<longleftrightarrow> reads_all Minus t"
    by (auto simp: decode_number_def reads_all_def bind_res_eq_Inr)
  also have "\<dots> \<longleftrightarrow> parser_number t"
    unfolding reads_minus body parser_number_def by auto
  finally show ?thesis .
qed

text \<open>C38: The number machine accepts a text as one number exactly if it is an optional minus, a zero
  or digits that start with none, optionally a point and any digits, and optionally an
  exponent mark with a sign or digit and any digits, where a zero alone takes no exponent. So
  \<open>1.\<close> and \<open>1e-\<close> are accepted, which JSON does not allow, and \<open>0e1\<close>, which it does, is not.\<close>

theorem decode_number_language:
  "decode_number t = Inr (RNumber t, []) \<longleftrightarrow> parser_number t"
  by (rule decode_number_parser)

end
