(* ===== verification/JsonRoundtrip.thy ===== *)
theory JsonRoundtrip
  imports JsonNumbers
begin

text \<open>Values in compact notation, and what the parser makes of them.\<close>

section \<open>Numbers and strings with text behind them\<close>

lemma takeWhile_stop: "\<not> P c \<Longrightarrow> takeWhile P (s @ c # u) = takeWhile P s"
  by (induction s) simp_all

lemma dropWhile_stop: "\<not> P c \<Longrightarrow> dropWhile P (s @ c # u) = dropWhile P s @ c # u"
  by (induction s) simp_all

definition number_char :: "char \<Rightarrow> bool" where
  "number_char c \<longleftrightarrow> is_digit c \<or> c = CHR ''.'' \<or> c = CHR ''-'' \<or> c = CHR ''+'' \<or> exp_mark c"

text \<open>A text that ends a number.\<close>

definition stops :: "string \<Rightarrow> bool" where
  "stops u \<longleftrightarrow> u = [] \<or> \<not> number_char (hd u)"

lemma number_loop_end: "number_ends st \<Longrightarrow> stops u \<Longrightarrow> number_loop st u = Inr ([], u)"
proof (cases u)
  case (Cons c s)
  assume "number_ends st" "stops u"
  then have st: "st \<noteq> Invalid" and c: "\<not> number_char c" using Cons by (auto simp: number_ends_def stops_def)
  then have "\<not> is_digit c" "c \<noteq> CHR ''.''" "c \<noteq> CHR ''-''" "c \<noteq> CHR ''+''" "c \<noteq> CHR ''e''" "c \<noteq> CHR ''E''"
    by (simp_all add: number_char_def exp_mark_def)
  moreover then have "c \<noteq> CHR ''0''" by (intro notI) simp
  ultimately show ?thesis using Cons st \<open>number_ends st\<close> by simp
qed simp

lemma one_round:
  "st \<noteq> Invalid \<Longrightarrow> number_char c \<Longrightarrow> c = CHR ''0'' \<or> \<not> is_digit c \<Longrightarrow>
   \<exists>st'. \<forall>s. number_loop st (c # s) = emit [c] (number_loop st' s)"
proof -
  assume st: "st \<noteq> Invalid" and c: "number_char c" "c = CHR ''0'' \<or> \<not> is_digit c"
  then consider "c = CHR ''0''" | "c = CHR ''.''" | "c = CHR ''-''" | "c = CHR ''+''" | "c = CHR ''e''" | "c = CHR ''E''"
    unfolding number_char_def exp_mark_def by blast
  then show ?thesis
  proof cases
    case 1 with st show ?thesis by (intro exI [of _ "on_zero st"]) simp
  next
    case 2 with st show ?thesis by (intro exI [of _ "on_point st"]) simp
  next
    case 3 with st show ?thesis by (intro exI [of _ "on_minus st"]) simp
  next
    case 4 with st show ?thesis by (intro exI [of _ "on_plus st"]) simp
  next
    case 5 with st show ?thesis by (intro exI [of _ "on_e st"]) simp
  next
    case 6 with st show ?thesis by (intro exI [of _ "on_e st"]) simp
  qed
qed

lemma number_loop_stops: "number_loop st t = Inr (t, []) \<Longrightarrow> stops u \<Longrightarrow> number_loop st (t @ u) = Inr (t, u)"
proof (induction "length t" arbitrary: st t rule: less_induct)
  case less
  show ?case
  proof (cases t)
    case Nil
    with less.prems show ?thesis by (simp add: number_loop_end split: if_splits)
  next
    case (Cons c s)
    have st: "st \<noteq> Invalid" using less.prems(1) Cons by auto
    have c: "number_char c"
    proof (rule ccontr)
      assume "\<not> number_char c"
      then have "stops t" by (simp add: stops_def Cons)
      then show False
        using less.prems(1) number_loop_end [of st t] Cons st \<open>\<not> number_char c\<close>
        by (cases "number_ends st") (auto simp: number_char_def exp_mark_def split: if_splits)
    qed
    show ?thesis
    proof (cases "c = CHR ''0'' \<or> \<not> is_digit c")
      case True
      then obtain st' where "\<And>s. number_loop st (c # s) = emit [c] (number_loop st' s)"
        using one_round [OF st c] by blast
      with less Cons show ?thesis by (simp add: emit_eq_Inr del: number_loop.simps)
    next
      case False
      then have round: "number_loop st (c # s) = emit (c # takeWhile is_digit s) (number_loop (on_digit st) (dropWhile is_digit s))"
        for s using st digits_round by blast
      from less.prems(1) Cons round obtain t' where t': "number_loop (on_digit st) (dropWhile is_digit s) = Inr (t', [])"
        by (auto simp: emit_eq_Inr simp del: number_loop.simps)
      then have "dropWhile is_digit s = t'" using number_loop_append [OF t'] by simp
      moreover have "length (dropWhile is_digit s) < length t" using length_dropWhile_le [of is_digit s] Cons by simp
      ultimately have "number_loop (on_digit st) (dropWhile is_digit s @ u) = Inr (dropWhile is_digit s, u)"
        using less t' by simp
      moreover have "takeWhile is_digit (s @ u) = takeWhile is_digit s \<and> dropWhile is_digit (s @ u) = dropWhile is_digit s @ u"
        using less.prems(2) by (cases u) (auto simp: takeWhile_stop dropWhile_stop stops_def number_char_def)
      ultimately show ?thesis using Cons round by (simp del: number_loop.simps)
    qed
  qed
qed

lemma decode_number_stops: "parser_number t \<Longrightarrow> stops u \<Longrightarrow> decode_number (t @ u) = Inr (RNumber t, u)"
  using decode_number_parser [of t] number_loop_stops [of Minus t u]
  by (auto simp: decode_number_def bind_res_eq_Inr)

lemma byte_append: "k < length s \<Longrightarrow> byte (s @ u) k = byte s k"
  by (simp add: byte_def nth_append)

lemma hex_digits_append:
  assumes "hex_digits s = Inr ()" "hd s = CHR ''u''" "s \<noteq> []"
  shows "hex_digits (s @ u) = Inr () \<and> 5 \<le> length s"
proof -
  have hex: "byte s k = Inr c \<Longrightarrow> is_hex c \<Longrightarrow> k < length s" for k c
    by (auto simp: byte_def is_hex_def is_digit_def split: if_splits)
  from assms(1) obtain c1 c2 c3 c4 where c: "byte s 1 = Inr c1" "byte s 2 = Inr c2" "byte s 3 = Inr c3" "byte s 4 = Inr c4"
    "is_hex c1" "is_hex c2" "is_hex c3" "is_hex c4"
    by (auto simp: hex_digits_def bind_res_eq_Inr split: if_splits)
  then have len: "1 < length s" "2 < length s" "3 < length s" "4 < length s" using hex by blast+
  with c show ?thesis by (simp add: hex_digits_def byte_append)
qed

lemma scan_string_append: "scan_string s = Inr (t, r) \<Longrightarrow> scan_string (s @ u) = Inr (t, r @ u)"
proof (induction s arbitrary: t r rule: scan_string.induct)
  case (2 c s)
  show ?case
  proof (cases "c = backslash")
    case True
    with "2.prems" have "s \<noteq> []" by (auto simp: byte_0)
    then obtain e v where s: "s = e # v" by (cases s) auto
    show ?thesis
    proof (cases "e = CHR ''u''")
      case u: True
      with True s "2.prems" obtain t' where h: "hex_digits s = Inr ()" and t': "scan_string (drop 5 s) = Inr (t', r)"
        "t = c # take 5 s @ t'"
        by (auto simp: byte_0 bind_res_eq_Inr emit_eq_Inr split: if_splits)
      from hex_digits_append [OF h, of u] s u have len: "hex_digits (s @ u) = Inr ()" "5 \<le> length s" by auto
      from "2.IH"(2) [OF _ _ True _ u h t'(1)] True s have "scan_string (drop 5 s @ u) = Inr (t', r @ u)"
        by (simp add: byte_0)
      with len t'(2) True s u show ?thesis by (simp add: byte_0)
    next
      case False
      with True s "2.prems" obtain t' where t': "scan_string v = Inr (t', r)" "t = c # e # t'"
        and e: "e \<in> {dquote, backslash, CHR ''/'', CHR ''b'', CHR ''f'', CHR ''n'', CHR ''r'', CHR ''t''}"
        by (auto simp: byte_0 bind_res_eq_Inr emit_eq_Inr split: if_splits)
      from "2.IH"(3) [OF _ _ True _ False e] t' True s have "scan_string (v @ u) = Inr (t', r @ u)"
        by (simp add: byte_0)
      with t' True s e False show ?thesis by (simp add: byte_0 del: insert_iff)
    qed
  next
    case False
    with 2 show ?thesis by (auto simp: emit_eq_Inr split: if_splits)
  qed
qed simp

lemma is_hex_to_hex: "k < 16 \<Longrightarrow> is_hex (to_hex k)"
  by (simp add: is_hex_def is_digit_def of_char_to_hex)

lemma scan_escape_char: "scan_string (escape_char c @ u) = emit (escape_char c) (scan_string u)"
proof (cases "c \<in> {CHR 0x0A, CHR 0x08, CHR 0x0C, CHR 0x0D, CHR 0x09, dquote, backslash}")
  case True
  then show ?thesis by (auto simp: escape_char_def byte_0)
next
  case False
  show ?thesis
  proof (cases "of_char c < (32 :: nat)")
    case True
    have "(of_char c :: nat) div 16 < 16" using True by linarith
    then have hex: "is_hex (to_hex (of_char c div 16))" "is_hex (to_hex (of_char c mod 16))" "is_hex (CHR ''0'')"
      by (simp_all add: is_hex_to_hex, simp add: is_hex_def)
    have esc: "escape_char c = backslash # CHR ''u'' # CHR ''0'' # CHR ''0'' # to_hex (of_char c div 16) # to_hex (of_char c mod 16) # []"
      using False True by (simp add: escape_char_def)
    show ?thesis using hex by (simp add: esc byte_0) (simp add: hex_digits_def byte_def)
  next
    case large: False
    with False have "escape_char c = [c]" by (simp add: escape_char_def)
    moreover have "c \<noteq> NUL" using large by (intro notI) simp
    ultimately show ?thesis using False by simp
  qed
qed

lemma scan_escape: "scan_string (escape s @ dquote # u) = Inr (escape s, u)"
proof (induction s)
  case (Cons c s)
  then show ?case by (simp add: escape_def scan_escape_char)
qed (simp add: escape_def)

section \<open>Values in compact notation\<close>

fun json_text :: "rvalue \<Rightarrow> string" where
  "json_text RNull = ''null''"
| "json_text RFalse = ''false''"
| "json_text RTrue = ''true''"
| "json_text (RNumber s) = s"
| "json_text (RString raw) = dquote # raw @ [dquote]"
| "json_text (RList vs) = CHR ''['' # separated (CHR '','') (map json_text vs) @ [CHR '']'']"
| "json_text (RObject kvs) =
     CHR 0x7B # separated (CHR '','') (map (\<lambda>(k, v). dquote # escape k @ dquote # CHR '':'' # json_text v) kvs) @ [CHR 0x7D]"

text \<open>Values whose numbers and strings the parser can have read; keys are kept resolved.\<close>

fun well_formed :: "rvalue \<Rightarrow> bool" where
  "well_formed (RNumber s) = parser_number s"
| "well_formed (RString raw) = (scan_string (raw @ [dquote]) = Inr (raw, []))"
| "well_formed (RList vs) = (\<forall>v\<in>set vs. well_formed v)"
| "well_formed (RObject kvs) = (\<forall>kv\<in>set kvs. well_formed (snd kv))"
| "well_formed _ = True"

text \<open>How deep lists and objects are nested.\<close>

fun levels :: "rvalue \<Rightarrow> nat" where
  "levels (RList vs) = Suc (foldr max (map levels vs) 0)"
| "levels (RObject kvs) = Suc (foldr max (map (\<lambda>kv. levels (snd kv)) kvs) 0)"
| "levels _ = 0"

lemma foldr_max: "x \<in> set xs \<Longrightarrow> (x :: nat) \<le> foldr max xs 0"
  by (induction xs) (auto simp: le_max_iff_disj)

lemma foldr_max_zero [simp]: "foldr max (map (\<lambda>x. 0) xs) 0 = (0 :: nat)"
  by (induction xs) simp_all

lemma levels_element: "v \<in> set vs \<Longrightarrow> levels v < levels (RList vs)"
  using foldr_max [of "levels v" "map levels vs"] by simp

lemma levels_member: "kv \<in> set kvs \<Longrightarrow> levels (snd kv) < levels (RObject kvs)"
  using foldr_max [of "levels (snd kv)" "map (\<lambda>kv. levels (snd kv)) kvs"] by force

section \<open>The loops over items\<close>

definition starts :: "string \<Rightarrow> bool" where
  "starts s \<longleftrightarrow> s \<noteq> [] \<and> \<not> is_ws (hd s)"

lemma ws_skip_starts: "starts s \<Longrightarrow> ws_skip (s @ u) = s @ u"
  by (cases s) (simp_all add: starts_def)

lemma separated_Cons: "xs \<noteq> [] \<Longrightarrow> separated d (x # xs) = x @ d # separated d xs"
  by (cases xs) simp_all

lemma items_read:
  assumes closing: "\<not> is_ws closing" "closing \<noteq> CHR '',''" "closing \<noteq> NUL"
    and item: "\<And>x c u. x \<in> set xs \<Longrightarrow> c = closing \<or> c = CHR '','' \<Longrightarrow> length (p x @ c # u) < n \<Longrightarrow>
      item (p x @ c # u) = Inr (x, c # u)"
    and starts: "\<And>x. x \<in> set xs \<Longrightarrow> starts (p x)"
    and "xs \<noteq> []" "length xs \<le> m" "length (separated (CHR '','') (map p xs) @ closing # u) < n"
  shows "decode_items item closing mk m ys (separated (CHR '','') (map p xs) @ closing # u) = Inr (mk (ys @ xs), u)"
  using assms(4-)
proof (induction xs arbitrary: m ys)
  case (Cons x xs)
  then obtain k where m: "m = Suc k" by (cases m) auto
  show ?case
  proof (cases "xs = []")
    case True
    with Cons.prems(1) [of x closing u] Cons.prems(5) have "item (p x @ closing # u) = Inr (x, closing # u)" by simp
    with True closing show ?thesis by (simp add: m items_Suc)
  next
    case False
    let ?rest = "separated (CHR '','') (map p xs) @ closing # u"
    have eq: "separated (CHR '','') (map p (x # xs)) @ closing # u = p x @ CHR '','' # ?rest"
      using False by (simp add: separated_Cons)
    have now: "item (p x @ CHR '','' # ?rest) = Inr (x, CHR '','' # ?rest)"
      using Cons.prems(1) [of x "CHR '',''" ?rest] Cons.prems(5) unfolding eq by simp
    obtain y ys' where "xs = y # ys'" using False by (cases xs) auto
    then have "starts (separated (CHR '','') (map p xs))"
      using Cons.prems(2) [of y] by (cases ys') (auto simp: starts_def)
    then have ws: "ws_skip ?rest = ?rest" by (rule ws_skip_starts)
    have "decode_items item closing mk k (ys @ [x]) ?rest = Inr (mk ((ys @ [x]) @ xs), u)"
    proof (rule Cons.IH)
      show "length xs \<le> k" using Cons.prems(4) m by simp
      show "length ?rest < n" using Cons.prems(5) unfolding eq by simp
    qed (use Cons.prems(1,2) False in auto)
    with closing now ws show ?thesis unfolding eq by (simp add: m items_Suc is_ws_def)
  qed
qed simp

lemma length_separated: "(\<And>x. x \<in> set xs \<Longrightarrow> p x \<noteq> []) \<Longrightarrow> length xs \<le> length (separated d (map p xs))"
proof (induction xs)
  case (Cons x xs)
  then have "0 < length (p x)" "length xs \<le> length (separated d (map p xs))" by auto
  then show ?case by (cases "xs = []") (simp_all add: separated_Cons Suc_leI)
qed simp

lemma container_read:
  assumes closing: "\<not> is_ws closing" "closing \<noteq> CHR '',''" "closing \<noteq> NUL" and "opening \<noteq> NUL" "d \<le> max_depth"
    and item: "\<And>x c u. x \<in> set xs \<Longrightarrow> c = closing \<or> c = CHR '','' \<Longrightarrow> length (p x @ c # u) < n \<Longrightarrow>
      item (p x @ c # u) = Inr (x, c # u)"
    and starts: "\<And>x. x \<in> set xs \<Longrightarrow> starts (p x) \<and> hd (p x) \<noteq> closing"
    and len: "length (separated (CHR '','') (map p xs) @ closing # u) < n"
  shows "decode_container item opening closing mk d (opening # separated (CHR '','') (map p xs) @ closing # u) = Inr (mk xs, u)"
proof (cases "xs = []")
  case True
  with assms show ?thesis by (simp add: container_eq)
next
  case False
  let ?t = "separated (CHR '','') (map p xs)"
  obtain x xs' where xs: "xs = x # xs'" using False by (cases xs) auto
  then have "starts ?t" "hd ?t \<noteq> closing"
    using starts [of x] by (cases xs'; auto simp: starts_def)+
  moreover have "decode_items item closing mk (Suc (length (?t @ closing # u))) [] (?t @ closing # u) = Inr (mk ([] @ xs), u)"
  proof (rule items_read [OF closing item _ False _ len])
    show "starts (p x)" if "x \<in> set xs" for x using starts that by blast
    have "p x \<noteq> []" if "x \<in> set xs" for x using starts [OF that] by (simp add: starts_def)
    from length_separated [of xs p "CHR '',''", OF this] show "length xs \<le> Suc (length (?t @ closing # u))" by simp
  qed
  ultimately show ?thesis
    using assms(3-5) by (simp add: container_eq ws_skip_starts starts_def)
qed

section \<open>Values\<close>

lemma starts_number: "parser_number s \<Longrightarrow> \<exists>c r. s = c # r \<and> (is_digit c \<or> c = CHR ''-'')"
  by (auto simp: parser_number_def unsigned_number_def is_digit_def)

lemma digit_not_special:
  "is_digit c \<or> c = CHR ''-'' \<Longrightarrow>
   c \<noteq> CHR ''['' \<and> c \<noteq> CHR '']'' \<and> c \<noteq> CHR 0x7B \<and> c \<noteq> CHR 0x7D \<and> c \<noteq> dquote \<and>
   c \<noteq> CHR ''t'' \<and> c \<noteq> CHR ''f'' \<and> c \<noteq> CHR ''n'' \<and> \<not> is_ws c"
  by (auto simp: is_digit_def is_ws_def)

lemma compact_starts: "well_formed v \<Longrightarrow> starts (json_text v) \<and> hd (json_text v) \<noteq> CHR '']''"
proof (cases v)
  case (RNumber s)
  assume "well_formed v"
  then obtain c r where "s = c # r" "is_digit c \<or> c = CHR ''-''" using RNumber starts_number [of s] by fastforce
  then show ?thesis using RNumber digit_not_special [of c] by (simp add: starts_def)
qed (simp_all add: starts_def is_ws_def)

lemma decode_value_number:
  assumes "parser_number s" "stops u"
  shows "decode_value (Suc f) d (s @ u) = Inr (RNumber s, u)"
proof -
  obtain c r where c: "s = c # r" "is_digit c \<or> c = CHR ''-''" using assms(1) starts_number by blast
  have "decode_value (Suc f) d (s @ u) = decode_number (s @ u)"
    using digit_not_special [OF c(2)] c(1) by (simp add: decode_value.simps(2) byte_0)
  then show ?thesis using decode_number_stops [OF assms] by simp
qed

lemma decode_value_string:
  assumes "scan_string (raw @ [dquote]) = Inr (raw, [])"
  shows "decode_value (Suc f) d (dquote # raw @ dquote # u) = Inr (RString raw, u)"
  using scan_string_append [OF assms, of u] by (simp add: decode_value.simps(2) byte_0 decode_string_def)

lemma decode_value_list:
  "decode_value (Suc f) d (CHR ''['' # s) = decode_list (decode_value f) (Suc d) (CHR ''['' # s)"
  by (simp add: decode_value.simps(2) byte_0)

lemma decode_value_object:
  "decode_value (Suc f) d (CHR 0x7B # s) = decode_object (decode_value f) (Suc d) (CHR 0x7B # s)"
  by (simp add: decode_value.simps(2) byte_0)

text \<open>Every level counts twice against the bound.\<close>

lemma decode_value_compact:
  "well_formed v \<Longrightarrow> levels v = 0 \<or> d + 2 * levels v \<le> max_depth + 1 \<Longrightarrow> stops u \<Longrightarrow>
   length (json_text v @ u) < f \<Longrightarrow> decode_value f d (json_text v @ u) = Inr (v, u)"
proof (induction f arbitrary: v d u)
  case (Suc f)
  have stops: "stops (c # w)" if "c \<in> {CHR '']'', CHR 0x7D, CHR '',''}" for c w
    using that by (auto simp: stops_def number_char_def exp_mark_def is_digit_def)
  show ?case
  proof (cases v)
    case (RNumber s)
    with Suc.prems show ?thesis by (simp add: decode_value_number)
  next
    case (RString raw)
    with Suc.prems decode_value_string [of raw f d u] show ?thesis by simp
  next
    case (RList vs)
    have "decode_container (decode_value f (Suc d + 1)) (CHR ''['') (CHR '']'') RList (Suc d)
        (CHR ''['' # separated (CHR '','') (map json_text vs) @ CHR '']'' # u) = Inr (RList vs, u)"
    proof (rule container_read [where n = f])
      show "Suc d \<le> max_depth" using Suc.prems(2) RList by auto
      show "length (separated (CHR '','') (map json_text vs) @ CHR '']'' # u) < f" using Suc.prems(4) RList by simp
    next
      fix x c w
      assume "x \<in> set vs" "c = CHR '']'' \<or> c = CHR '',''" "length (json_text x @ c # w) < f"
      then show "decode_value f (Suc d + 1) (json_text x @ c # w) = Inr (x, c # w)"
        using Suc.prems(1,2) RList levels_element [of x vs] stops [of c w] by (intro Suc.IH) auto
    next
      show "starts (json_text x) \<and> hd (json_text x) \<noteq> CHR '']''" if "x \<in> set vs" for x
        using that Suc.prems(1) RList compact_starts by auto
    qed (simp_all add: is_ws_def)
    then show ?thesis by (simp add: RList decode_value_list decode_list_def)
  next
    case (RObject kvs)
    let ?p = "\<lambda>(k, v). dquote # escape k @ dquote # CHR '':'' # json_text v"
    have "decode_container (decode_member (decode_value f) (Suc d)) (CHR 0x7B) (CHR 0x7D) RObject (Suc d)
        (CHR 0x7B # separated (CHR '','') (map ?p kvs) @ CHR 0x7D # u) = Inr (RObject kvs, u)"
    proof (rule container_read [where n = f])
      show "Suc d \<le> max_depth" using Suc.prems(2) RObject by auto
      show "length (separated (CHR '','') (map ?p kvs) @ CHR 0x7D # u) < f" using Suc.prems(4) RObject by simp
    next
      fix x c w
      assume x: "x \<in> set kvs" and c: "c = CHR 0x7D \<or> c = CHR '',''" and len: "length (?p x @ c # w) < f"
      obtain k v' where kv: "x = (k, v')" by (cases x)
      have wf: "well_formed v'" using Suc.prems(1) x kv RObject by auto
      have "decode_value f (Suc d + 1) (json_text v' @ c # w) = Inr (v', c # w)"
        using Suc.prems(2) x kv RObject levels_member [of x kvs] stops [of c w] c len wf by (intro Suc.IH) auto
      moreover have "ws_skip (json_text v' @ c # w) = json_text v' @ c # w"
        using compact_starts [OF wf] ws_skip_starts by blast
      ultimately show "decode_member (decode_value f) (Suc d) (?p x @ c # w) = Inr (x, c # w)"
        using unescape_escape [of k "[]"] by (simp add: decode_member_def kv scan_escape is_ws_def)
    next
      show "starts (?p x) \<and> hd (?p x) \<noteq> CHR 0x7D" for x by (cases x) (simp add: starts_def is_ws_def)
    qed (simp_all add: is_ws_def)
    then show ?thesis by (simp add: RObject decode_value_object decode_object_def)
  qed (use Suc.prems in \<open>simp_all add: decode_value.simps(2) byte_0 decode_literal_eq\<close>)
qed simp

lemma load_compact: "well_formed v \<Longrightarrow> levels v \<le> 5000 \<Longrightarrow> load (json_text v) = Some v"
proof -
  assume v: "well_formed v" "levels v \<le> 5000"
  then have "decode_value (Suc (length (json_text v))) 0 (json_text v) = Inr (v, [])"
    using decode_value_compact [of v 0 "[]" "Suc (length (json_text v))"] by (simp add: max_depth_def stops_def)
  moreover have "ws_skip (json_text v) = json_text v"
    using compact_starts [OF v(1)] ws_skip_starts [of "json_text v" "[]"] by simp
  ultimately show ?thesis by (simp add: load_def parse_def byte_0)
qed

text \<open>C36: The parser reads back every value in compact notation whose numbers and strings it can
  have read itself and whose lists and objects are nested at most 5000 deep: escape sequences
  in strings are kept as they are, those in keys are resolved.\<close>

theorem load_reads_compact_values:
  assumes "well_formed v" "levels v \<le> 5000"
  shows "load (json_text v) = Some v"
  using assms by (rule load_compact)

theorem load_reads_compact_values_witness:
  "load (json_text (RObject [(''a'', RList [RString ''x'', RNull])])) = Some (RObject [(''a'', RList [RString ''x'', RNull])])"
  by (rule load_reads_compact_values) simp_all

section \<open>The depth of what is read\<close>

lemma items_elements:
  "decode_items item closing mk m xs s = Inr (v, r) \<Longrightarrow> closing \<noteq> NUL \<Longrightarrow>
   \<exists>zs. v = mk (xs @ zs) \<and> (\<forall>z\<in>set zs. \<exists>s t. item s = Inr (z, t))"
proof (induction m arbitrary: xs s)
  case (Suc m)
  then obtain x t where x: "item s = Inr (x, t)" by (cases "item s") (auto simp: items_Suc)
  with Suc.prems obtain c u where c: "ws_skip t = c # u" by (cases "ws_skip t") (auto simp: items_Suc)
  show ?case
  proof (cases "c = closing")
    case True
    with Suc.prems x c show ?thesis by (intro exI [of _ "[x]"]) (auto simp: items_Suc)
  next
    case False
    with Suc.prems x c have "decode_items item closing mk m (xs @ [x]) (ws_skip u) = Inr (v, r)"
      by (auto simp: items_Suc split: if_splits)
    from Suc.IH [OF this Suc.prems(2)] obtain zs where "v = mk (xs @ x # zs)" "\<forall>z\<in>set zs. \<exists>s t. item s = Inr (z, t)"
      by auto
    with x show ?thesis by (intro exI [of _ "x # zs"]) auto
  qed
qed simp

lemma container_elements:
  assumes "decode_container item opening closing mk d s = Inr (v, r)" "opening \<noteq> NUL" "closing \<noteq> NUL"
  shows "d \<le> max_depth \<and> (\<exists>zs. v = mk zs \<and> (\<forall>z\<in>set zs. \<exists>s t. item s = Inr (z, t)))"
proof -
  obtain c u where s: "s = c # u" using assms by (cases s) (auto simp: container_eq)
  show ?thesis
  proof (cases "ws_skip u \<noteq> [] \<and> hd (ws_skip u) = closing")
    case True
    with assms s show ?thesis by (auto simp: container_eq split: if_splits intro: exI [of _ "[]"])
  next
    case False
    with assms s have "d \<le> max_depth" "decode_items item closing mk (Suc (length (ws_skip u))) [] (ws_skip u) = Inr (v, r)"
      by (auto simp: container_eq split: if_splits)
    with items_elements [OF this(2)] assms(3) show ?thesis by auto
  qed
qed

lemma foldr_max_le: "(\<And>x. x \<in> set xs \<Longrightarrow> x \<le> (b :: nat)) \<Longrightarrow> foldr max xs 0 \<le> b"
  by (induction xs) auto

lemma decode_value_levels:
  "decode_value f d s = Inr (v, r) \<Longrightarrow> levels v = 0 \<or> d + 2 * levels v \<le> max_depth + 1"
proof (induction f arbitrary: d s v r)
  case (Suc f)
  have inner: "2 * foldr max ks 0 + d + 2 \<le> max_depth + 1"
    if "Suc d \<le> max_depth" "\<And>k. k \<in> set ks \<Longrightarrow> k = 0 \<or> Suc (Suc d) + 2 * k \<le> max_depth + 1" for ks
  proof -
    have "foldr max ks 0 \<le> (max_depth + 1 - d - 2) div 2"
      by (rule foldr_max_le) (use that(2) in force)
    then show ?thesis using that(1) by linarith
  qed
  show ?case
  proof (cases rule: decode_value_branch [of f d s])
    case 1
    with Suc.prems obtain zs where "Suc d \<le> max_depth" "v = RList zs"
      "\<forall>z\<in>set zs. \<exists>s t. decode_value f (Suc (Suc d)) s = Inr (z, t)"
      using container_elements [of "decode_value f (Suc d + 1)" "CHR ''[''" "CHR '']''" RList "Suc d" s v r]
      by (auto simp: decode_list_def)
    then show ?thesis using inner [of "map levels zs"] Suc.IH by fastforce
  next
    case 2
    with Suc.prems obtain zs where "Suc d \<le> max_depth" "v = RObject zs" and zs:
      "\<forall>z\<in>set zs. \<exists>s t. decode_member (decode_value f) (Suc d) s = Inr (z, t)"
      using container_elements [of "decode_member (decode_value f) (Suc d)" "CHR 0x7B" "CHR 0x7D" RObject "Suc d" s v r]
      by (auto simp: decode_object_def)
    have "\<exists>s t. decode_value f (Suc (Suc d)) s = Inr (snd z, t)"
      if "decode_member (decode_value f) (Suc d) s = Inr (z, t)" for s z t
      using that by (auto simp: decode_member_def bind_res_eq_Inr Let_def, blast)
    with zs have "\<exists>s t. decode_value f (Suc (Suc d)) s = Inr (snd z, t)" if "z \<in> set zs" for z
      using that by blast
    then have "k = 0 \<or> Suc (Suc d) + 2 * k \<le> max_depth + 1" if "k \<in> set (map (\<lambda>kv. levels (snd kv)) zs)" for k
      using that Suc.IH by force
    then have "2 * foldr max (map (\<lambda>kv. levels (snd kv)) zs) 0 + d + 2 \<le> max_depth + 1"
      by (rule inner [OF \<open>Suc d \<le> max_depth\<close>])
    with \<open>v = RObject zs\<close> show ?thesis by simp
  next
    case 3
    with Suc.prems show ?thesis by (auto simp: decode_string_def bind_res_eq_Inr)
  next
    case (4 cs w)
    with Suc.prems have "v = w" by (auto simp: decode_literal_eq split: if_splits)
    with 4(3) show ?thesis by auto
  next
    case 5
    with Suc.prems show ?thesis by (auto simp: decode_number_def bind_res_eq_Inr)
  qed
qed simp

text \<open>C37: Every value the parser returns is nested at most 5000 deep: the bound of 10000 counts
  every level twice, once where a value opens a container and once where the container reads
  an item.\<close>

theorem loaded_values_are_shallow: "load s = Some v \<Longrightarrow> levels v \<le> 5000"
  by (auto simp: load_def parse_def bind_res_eq_Inr max_depth_def split: sum.splits if_splits dest!: decode_value_levels)

theorem loaded_values_are_shallow_witness:
  "load ''[[]]'' = Some (RList [RList []]) \<and> levels (RList [RList []]) \<le> 5000"
proof -
  have "load ''[[]]'' = Some (RList [RList []])" by code_simp
  from this loaded_values_are_shallow [OF this] show ?thesis by blast
qed

end
