(* ===== verification/JsonDumpFacts.thy ===== *)
theory JsonDumpFacts
  imports JsonDump JsonRoundtrip
begin

text \<open>What is written can be read: numbers, strings and whole values.\<close>

section \<open>Trailing zeros\<close>

lemma digit_0: "digit 0 = CHR ''0''"
  by (simp add: digit_def char_of_eq_iff)

lemma of_char_digit: "d < 10 \<Longrightarrow> of_char (digit d) = (48 + d :: nat)"
  by (simp add: digit_def of_char_code)

definition zeros :: "string \<Rightarrow> bool" where
  "zeros s \<longleftrightarrow> (\<forall>c\<in>set s. c = CHR ''0'')"

lemma zeros_simps [simp]: "zeros []" "zeros (c # s) \<longleftrightarrow> c = CHR ''0'' \<and> zeros s"
  by (simp_all add: zeros_def)

lemma without_zeros_Nil_iff: "without_zeros s = [] \<longleftrightarrow> zeros s"
  by (simp add: without_zeros_def digit_0 zeros_def dropWhile_eq_Nil_conv)

lemma without_zeros_zeros [simp]: "zeros s \<Longrightarrow> without_zeros s = []"
  by (simp add: without_zeros_Nil_iff)

lemma without_zeros_append:
  "without_zeros (s @ t) = (if zeros t then without_zeros s else s @ without_zeros t)"
proof (cases "zeros t")
  case True
  then have "\<And>u. dropWhile (\<lambda>c. c = CHR ''0'') (rev t @ u) = dropWhile (\<lambda>c. c = CHR ''0'') u"
    by (intro dropWhile_append2) (simp add: zeros_def)
  then show ?thesis using True by (simp add: without_zeros_def digit_0)
next
  case False
  then obtain c where "c \<in> set (rev t)" "\<not> c = CHR ''0''" by (auto simp: zeros_def)
  then show ?thesis using False by (simp add: without_zeros_def digit_0 dropWhile_append1)
qed

lemma without_zeros_Cons [simp]:
  "without_zeros (c # s) = (if c = CHR ''0'' \<and> zeros s then [] else c # without_zeros s)"
proof -
  have "without_zeros [c] = (if c = CHR ''0'' then [] else [c])" by (simp add: without_zeros_def digit_0)
  then show ?thesis using without_zeros_append [of "[c]" s] by simp
qed

lemma take_without_zeros: "take (length (without_zeros s)) s = without_zeros s"
  by (induction s) simp_all

lemma zero_loop_states:
  "zero_loop Decp None p s = (if without_zeros s = s then None else Some (p + length (without_zeros s))) \<and>
   zero_loop Zero (Some q) p s =
     (if zeros s then Some q else if without_zeros s = s then None else Some (p + length (without_zeros s)))"
proof (induction s arbitrary: p q)
  case (Cons c s)
  have "\<not> zeros s \<or> without_zeros s = []" using without_zeros_zeros by blast
  with Cons show ?case by auto
qed simp

lemma zero_loop_start: "CHR ''.'' \<notin> set a \<Longrightarrow> zero_loop Start pos p (a @ s) = zero_loop Start pos (p + length a) s"
  by (induction a arbitrary: p) auto

lemma drop_zeros_whole: "CHR ''.'' \<notin> set a \<Longrightarrow> drop_zeros a = a"
  using zero_loop_start [of a None 0 "[]"] by (simp add: drop_zeros_def)

text \<open>The part behind the point, whose first digit is kept.\<close>

fun behind_point :: "string \<Rightarrow> string" where
  "behind_point [] = []"
| "behind_point (c # s) = (if c = CHR ''0'' then c # without_zeros s else without_zeros (c # s))"

lemma behind_point_digit: "c \<noteq> CHR ''0'' \<Longrightarrow> behind_point (c # s) = c # without_zeros s"
  by simp

lemma drop_zeros_point: "CHR ''.'' \<notin> set a \<Longrightarrow> drop_zeros (a @ CHR ''.'' # b) = a @ CHR ''.'' # behind_point b"
proof -
  assume a: "CHR ''.'' \<notin> set a"
  have loop: "zero_loop Start None 0 (a @ CHR ''.'' # b) = zero_loop Start None (length a) (CHR ''.'' # b)"
    using zero_loop_start [OF a] by simp
  show ?thesis
  proof (cases b)
    case Nil
    with loop show ?thesis by (simp add: drop_zeros_def)
  next
    case (Cons c s)
    let ?k = "if c = CHR ''0'' then 2 else 1"
    let ?t = "if c = CHR ''0'' then s else c # s"
    have "zero_loop Start None 0 (a @ CHR ''.'' # b) =
        (if without_zeros ?t = ?t then None else Some (length a + ?k + length (without_zeros ?t)))"
      using loop Cons zero_loop_states by simp
    then show ?thesis
      using Cons take_without_zeros [of s] take_without_zeros [of "c # s"] by (auto simp: drop_zeros_def)
  qed
qed

text \<open>C39: The loop that strips trailing zeros from a printed number, a machine of three states over a
  pointer, leaves the part up to the point and the first digit behind it, and drops the zeros
  at the end of the rest.\<close>

theorem trailing_zeros_are_dropped:
  assumes "CHR ''.'' \<notin> set a"
  shows "drop_zeros (a @ CHR ''.'' # c # s) =
    a @ CHR ''.'' # (if c = CHR ''0'' then c # without_zeros s else without_zeros (c # s))"
  using drop_zeros_point [OF assms, of "c # s"] by simp

theorem trailing_zeros_are_dropped_witness: "drop_zeros ''-1.000'' = ''-1.0''"
  using trailing_zeros_are_dropped [of "''-1''" "CHR ''0''" "''00''"] by simp

section \<open>Printed numbers are numbers of the parser\<close>

text \<open>What \<open>printf\<close> prints of a finite number.\<close>

definition whole_part :: "string \<Rightarrow> bool" where
  "whole_part ip \<longleftrightarrow> ip = ''0'' \<or> (\<exists>c ds. ip = c # ds \<and> is_digit c \<and> c \<noteq> CHR ''0'' \<and> digits ds)"

definition printed_exponent :: "string \<Rightarrow> bool" where
  "printed_exponent s \<longleftrightarrow> (\<exists>c ds. s = CHR ''e'' # c # ds \<and> c \<in> {CHR ''+'', CHR ''-''} \<and> digits ds)"

definition printed_unsigned :: "string \<Rightarrow> bool" where
  "printed_unsigned s \<longleftrightarrow> (\<exists>ip fr ex. s = ip @ fr @ ex \<and> whole_part ip \<and> (fr = [] \<or> fraction fr) \<and>
     (ex = [] \<or> printed_exponent ex \<and> ip \<noteq> ''0''))"

definition printed :: "string \<Rightarrow> bool" where
  "printed t \<longleftrightarrow> printed_unsigned t \<or> (\<exists>s. t = CHR ''-'' # s \<and> printed_unsigned s)"

lemma no_point_digits: "digits s \<Longrightarrow> CHR ''.'' \<notin> set s"
  by (auto simp: digits_def)

lemma no_point_whole: "whole_part ip \<Longrightarrow> CHR ''.'' \<notin> set ip"
  using no_point_digits by (auto simp: whole_part_def)

lemma no_point_exponent: "printed_exponent ex \<Longrightarrow> CHR ''.'' \<notin> set ex"
  using no_point_digits by (auto simp: printed_exponent_def)

lemma digits_without_zeros: "digits s \<Longrightarrow> digits (without_zeros s)"
proof -
  assume "digits s"
  then have "digits (take (length (without_zeros s)) s)" by (auto simp: digits_def dest: in_set_takeD)
  then show ?thesis by (simp add: take_without_zeros)
qed

lemma printed_exponent_parser: "printed_exponent ex \<Longrightarrow> exponent ex"
proof -
  assume "printed_exponent ex"
  then obtain c ds where "ex = CHR ''e'' # c # ds" "c = CHR ''+'' \<or> c = CHR ''-''" "digits ds"
    by (auto simp: printed_exponent_def)
  then show ?thesis
    unfolding exponent_def by (intro exI [of _ "CHR ''e''"] exI [of _ c] exI [of _ ds]) (simp add: exp_mark_def)
qed

lemma without_zeros_exponent:
  assumes "printed_exponent ex"
  shows "\<not> zeros ex \<and> printed_exponent (without_zeros ex)"
proof -
  obtain c ds where "ex = CHR ''e'' # c # ds" "c \<in> {CHR ''+'', CHR ''-''}" "digits ds"
    using assms by (auto simp: printed_exponent_def)
  then show ?thesis using digits_without_zeros [of ds] by (auto simp: printed_exponent_def)
qed

lemma behind_point_split:
  assumes "digits ds" "ex = [] \<or> printed_exponent ex"
  shows "\<exists>ds' ex'. behind_point (ds @ ex) = ds' @ ex' \<and> digits ds' \<and> (ex' = [] \<or> printed_exponent ex' \<and> ex \<noteq> [])"
proof (cases ds)
  case Nil
  show ?thesis
  proof (cases "ex = []")
    case True
    with Nil show ?thesis by (intro exI [of _ "[]"]) simp
  next
    case False
    then have ex: "printed_exponent ex" using assms(2) by simp
    then obtain c s where "ex = c # s" "c \<noteq> CHR ''0''" by (auto simp: printed_exponent_def)
    then have "behind_point ex = without_zeros ex" by simp
    with Nil False without_zeros_exponent [OF ex] show ?thesis
      by (intro exI [of _ "[]"] exI [of _ "without_zeros ex"]) simp
  qed
next
  case (Cons c s)
  have s: "digits s" "is_digit c" using assms(1) Cons by simp_all
  show ?thesis
  proof (cases "ex = []")
    case True
    have "digits (behind_point (c # s))" using s digits_without_zeros [of s] by auto
    with Cons True show ?thesis by (intro exI [of _ "behind_point (c # s)"] exI [of _ "[]"]) simp
  next
    case False
    then have ex: "\<not> zeros ex" "printed_exponent (without_zeros ex)" using assms(2) without_zeros_exponent by auto
    then have "\<not> zeros (s @ ex)" by (auto simp: zeros_def)
    then have "behind_point (ds @ ex) = (c # s) @ without_zeros ex"
      using Cons ex by (simp add: without_zeros_append)
    with s ex False show ?thesis by (intro exI [of _ "c # s"] exI [of _ "without_zeros ex"]) simp
  qed
qed

lemma drop_zeros_printed_unsigned:
  assumes "printed_unsigned s" "CHR ''.'' \<notin> set p"
  shows "\<exists>t. drop_zeros (p @ s) = p @ t \<and> unsigned_number t"
proof -
  obtain ip fr ex where s: "s = ip @ fr @ ex" "whole_part ip" "fr = [] \<or> fraction fr"
    "ex = [] \<or> printed_exponent ex \<and> ip \<noteq> ''0''"
    using assms(1) by (auto simp: printed_unsigned_def)
  show ?thesis
  proof (cases "fr = []")
    case True
    then have "CHR ''.'' \<notin> set (p @ s)" using s assms(2) no_point_whole no_point_exponent by auto
    moreover have "unsigned_number s"
      using True s printed_exponent_parser unfolding unsigned_number_def whole_part_def
      by (intro exI [of _ ip] exI [of _ "[]"] exI [of _ ex]) auto
    ultimately show ?thesis using drop_zeros_whole by blast
  next
    case False
    then obtain ds where ds: "fr = CHR ''.'' # ds" "digits ds" using s(3) by (auto simp: fraction_def)
    obtain ds' ex' where b: "behind_point (ds @ ex) = ds' @ ex'" "digits ds'" "ex' = [] \<or> printed_exponent ex' \<and> ex \<noteq> []"
      using behind_point_split [OF ds(2)] s(4) by blast
    have "drop_zeros (p @ s) = p @ ip @ CHR ''.'' # ds' @ ex'"
      using drop_zeros_point [of "p @ ip" "ds @ ex"] assms(2) no_point_whole [OF s(2)] s(1) ds(1) b(1) by simp
    moreover have "unsigned_number (ip @ CHR ''.'' # ds' @ ex')"
      using s(2) b printed_exponent_parser unfolding unsigned_number_def whole_part_def
      by (intro exI [of _ ip] exI [of _ "CHR ''.'' # ds'"] exI [of _ ex']) (auto simp: fraction_def)
    ultimately show ?thesis by blast
  qed
qed

lemma drop_zeros_printed: "printed t \<Longrightarrow> parser_number (drop_zeros t)"
  using drop_zeros_printed_unsigned [of t "[]"] drop_zeros_printed_unsigned [of "tl t" "''-''"]
  unfolding printed_def parser_number_def by auto

lemma show_nat_whole: "whole_part (show_nat n)"
proof (induction n rule: show_nat.induct)
  case (1 n)
  show ?case
  proof (cases "n < 10")
    case True
    then have "digit n = CHR ''0'' \<or> digit n \<noteq> CHR ''0'' \<and> is_digit (digit n)" by (simp add: digit_is_digit)
    moreover have "n = 0 \<Longrightarrow> ?thesis" by (subst show_nat.simps) (simp add: whole_part_def digit_0)
    moreover have "n \<noteq> 0 \<Longrightarrow> digit n \<noteq> CHR ''0''" using of_char_digit [OF True] by (intro notI) simp
    ultimately show ?thesis using True by (subst show_nat.simps) (auto simp: whole_part_def)
  next
    case False
    have "show_nat (n div 10) \<noteq> ''0''"
      using show_nat_inject [of "n div 10" 0] False by (simp add: show_nat.simps [of 0] digit_0)
    then obtain c ds where "show_nat (n div 10) = c # ds" "is_digit c" "c \<noteq> CHR ''0''" "digits ds"
      using 1 [OF False] by (auto simp: whole_part_def)
    then show ?thesis
      using False by (subst show_nat.simps) (auto simp: whole_part_def digits_def digit_is_digit)
  qed
qed

lemma printed_whole: "whole_part ip \<Longrightarrow> printed_unsigned ip"
  unfolding printed_unsigned_def by (intro exI [of _ ip] exI [of _ "[]"]) simp

lemma show_int_number: "parser_number (show_int n)"
proof -
  have "unsigned_number (show_nat k)" for k
    using show_nat_whole [of k] unfolding unsigned_number_def whole_part_def
    by (intro exI [of _ "show_nat k"] exI [of _ "[]"]) simp
  then show ?thesis by (auto simp: show_int_def parser_number_def)
qed

section \<open>Whole values\<close>

text \<open>What reading the text of a value gives.\<close>

fun read_back :: "'a cxx \<Rightarrow> 'a wvalue \<Rightarrow> rvalue" where
  "read_back C WNull = RNull"
| "read_back C WFalse = RFalse"
| "read_back C WTrue = RTrue"
| "read_back C (WFloat d) = (if c_special C d then RNull else RNumber (dump_number C (WFloat d)))"
| "read_back C (WNumber d) = (if c_special C d then RNull else RNumber (dump_number C (WNumber d)))"
| "read_back C (WSigned n) = RNumber (show_int (sint n))"
| "read_back C (WUnsigned n) = RNumber (show_int (uint n))"
| "read_back C (WString s) = RString (escape s)"
| "read_back C (WList l) = RList (map (read_back C) l)"
| "read_back C (WObject kws) = RObject (map (\<lambda>kw. (fst kw, read_back C (snd kw))) kws)"

text \<open>Every finite number in it is printed the way \<open>printf\<close> does.\<close>

fun prints :: "'a cxx \<Rightarrow> 'a wvalue \<Rightarrow> bool" where
  "prints C (WFloat d) = (c_special C d \<or> printed (take 127 (c_to_string C d)))"
| "prints C (WNumber d) = (c_special C d \<or> printed (c_general C d))"
| "prints C (WList l) = (\<forall>w\<in>set l. prints C w)"
| "prints C (WObject kws) = (\<forall>kw\<in>set kws. prints C (snd kw))"
| "prints C _ = True"

lemma well_formed_read_back: "prints C w \<Longrightarrow> well_formed (read_back C w)"
  by (induction C w rule: prints.induct) (auto simp: drop_zeros_printed show_int_number scan_escape)

lemma joined_comma: "joined [CHR '',''] ps = separated (CHR '','') ps"
  by (induction "[CHR '','']" ps rule: joined.induct) simp_all

lemma dump_is_compact: "indent < 0 \<Longrightarrow> dump_internal C indent sep lvl w = json_text (read_back C w)"
proof (induction C indent sep lvl w rule: dump_internal.induct)
  case (5 C indent separator lvl l)
  have "map (dump_internal C indent separator (lvl + 1)) l = map (\<lambda>x. json_text (read_back C x)) l"
    using 5 by (intro map_cong) simp_all
  with "5.prems" show ?case by (simp add: dump_indentation_part_def joined_comma o_def del: map_eq_conv)
next
  case (6 C indent separator lvl kws)
  have "map (\<lambda>kw. dump_string (fst kw) @ CHR '':'' # dump_internal C indent separator (lvl + 1) (snd kw)) kws =
      map (\<lambda>kw. dquote # escape (fst kw) @ dquote # CHR '':'' # json_text (read_back C (snd kw))) kws"
    using 6 by (intro map_cong) (simp_all add: dump_string_def)
  with "6.prems" show ?case by (simp add: dump_indentation_part_def joined_comma o_def del: map_eq_conv)
qed (simp_all add: dump_string_def)

lemma load_dump: "prints C w \<Longrightarrow> levels (read_back C w) \<le> 5000 \<Longrightarrow> load (dump C w) = Some (read_back C w)"
  by (simp add: dump_def dump_is_compact load_compact well_formed_read_back)

text \<open>C7: The text of every value with at most 5000 levels, whose numbers print as \<open>printf\<close> prints
  them, is accepted by the parser, which returns the same structure: lists and members in
  order, keys as they were, strings with their escape sequences, numbers by their text.\<close>

theorem dumped_values_load:
  assumes "prints C w" "levels (read_back C w) \<le> 5000"
  shows "load (dump C w) = Some (read_back C w)"
  using assms by (rule load_dump)

theorem dumped_values_load_witness:
  "load (dump real_cxx (WObject [(''k'', WList [WSigned 3, WString ''x'', WNull])])) =
    Some (RObject [(''k'', RList [RNumber ''3'', RString ''x'', RNull])])"
  using dumped_values_load [of real_cxx "WObject [(''k'', WList [WSigned 3, WString ''x'', WNull])]"]
  by (simp add: show_int_def show_nat.simps digit_def char_of_eq_iff escape_plain)

text \<open>Every string, whatever its bytes, survives being written as JSON and read again.\<close>

theorem strings_survive:
  "\<exists>v. load (dump C (WString s)) = Some v \<and> rv_s v = Inr s"
  using load_dump [of C "WString s"] unescape_escape [of s "[]"] by simp

section \<open>The numbers of the model\<close>

lemma printed_minus: "printed_unsigned s \<Longrightarrow> printed ((if b then ''-'' else '''') @ s)"
  by (auto simp: printed_def)

lemma pointed_printed:
  assumes "whole_part ip" "digits fr" "ex = [] \<or> printed_exponent ex \<and> ip \<noteq> ''0''"
  shows "printed_unsigned (pointed ip fr @ ex)"
proof (cases "without_zeros fr = []")
  case True
  with assms show ?thesis
    unfolding printed_unsigned_def pointed_def by (intro exI [of _ ip] exI [of _ "[]"] exI [of _ ex]) simp
next
  case False
  with assms digits_without_zeros [of fr] show ?thesis
    unfolding printed_unsigned_def pointed_def
    by (intro exI [of _ ip] exI [of _ "CHR ''.'' # without_zeros fr"] exI [of _ ex]) (auto simp: fraction_def Let_def)
qed

lemma digits_append [simp]: "digits (s @ t) \<longleftrightarrow> digits s \<and> digits t"
  by (auto simp: digits_def)

lemma digits_show_nat [simp]: "digits (show_nat n)"
  using show_nat_digits by (simp add: digits_def)

lemma digits_replicate [simp]: "digits (replicate k (digit 0))"
  by (simp add: digits_def digit_is_digit)

lemma digits_drop: "digits s \<Longrightarrow> digits (drop k s)" and digits_take: "digits s \<Longrightarrow> digits (take k s)"
  by (auto simp: digits_def dest: in_set_dropD in_set_takeD)

lemma general21_printed: "printed (general21 x)"
proof (cases "x = 0")
  case True
  then show ?thesis
    using printed_whole [OF show_nat_whole [of 0]] by (simp add: general21_def printed_def)
next
  case False
  define e where "e = \<lfloor>log 10 \<bar>x\<bar>\<rfloor>"
  define m where "m = nat \<lfloor>\<bar>x\<bar> * 10 powr (20 - of_int e) + 1 / 2\<rfloor>"
  define m' where "m' = (if 10 ^ 21 \<le> m then 10 ^ 20 else m)"
  define e' where "e' = (if 10 ^ 21 \<le> m then e + 1 else e)"
  have "10 powr of_int e \<le> 10 powr (log 10 \<bar>x\<bar>)" by (intro powr_mono) (simp_all add: e_def)
  then have "10 powr of_int e \<le> \<bar>x\<bar>" using False by simp
  then have "10 powr of_int e * 10 powr (20 - of_int e) \<le> \<bar>x\<bar> * 10 powr (20 - of_int e)" by (intro mult_right_mono) simp_all
  then have "10 powr 20 \<le> \<bar>x\<bar> * 10 powr (20 - of_int e)" by (simp flip: powr_add)
  then have "1 \<le> \<bar>x\<bar> * 10 powr (20 - of_int e)" by simp
  then have "0 < m" unfolding m_def by linarith
  then have "0 < m'" by (simp add: m'_def)
  then obtain c ds where ds: "show_nat m' = c # ds" "is_digit c" "c \<noteq> CHR ''0''" "digits ds"
    using show_nat_whole [of m'] show_nat_inject [of m' 0]
    by (auto simp: whole_part_def show_nat.simps [of 0] digit_0)
  let ?k = "show_nat (nat \<bar>e'\<bar>)"
  have eq: "general21 x = (if x < 0 then ''-'' else '''') @
      (if e' < -4 \<or> 21 \<le> e'
       then pointed (take 1 (show_nat m')) (drop 1 (show_nat m')) @
         (if e' < 0 then ''e-'' else ''e+'') @ replicate (2 - length ?k) (digit 0) @ ?k
       else if 0 \<le> e' then pointed (take (nat e' + 1) (show_nat m')) (drop (nat e' + 1) (show_nat m'))
       else pointed (show_nat 0) (replicate (nat (- e') - 1) (digit 0) @ show_nat m'))"
    using False by (simp add: general21_def Let_def m'_def e'_def flip: e_def m_def)
  have whole: "whole_part (take (Suc k) (show_nat m')) \<and> take (Suc k) (show_nat m') \<noteq> ''0''" for k
    using ds digits_take [of ds k] by (auto simp: whole_part_def)
  have exp: "printed_exponent ((if e' < 0 then ''e-'' else ''e+'') @ replicate (2 - length ?k) (digit 0) @ ?k)"
    unfolding printed_exponent_def
    by (intro exI [of _ "if e' < 0 then CHR ''-'' else CHR ''+''"] exI [of _ "replicate (2 - length ?k) (digit 0) @ ?k"]) simp
  have frac: "digits (drop k (show_nat m'))" for k by (rule digits_drop) simp
  show ?thesis
    unfolding eq
    using pointed_printed [OF _ frac, of "take 1 (show_nat m')" _ 1] whole [of 0] exp
      pointed_printed [OF _ frac, of "take (nat e' + 1) (show_nat m')" "[]" "nat e' + 1"] whole [of "nat e'"]
      pointed_printed [OF show_nat_whole, of "replicate (nat (- e') - 1) (digit 0) @ show_nat m'" "[]" 0]
    by (intro printed_minus) auto
qed


section \<open>The reserved length\<close>

text \<open>Strings without escapes and numbers of at most 30 characters.\<close>

fun plain :: "'a cxx \<Rightarrow> 'a wvalue \<Rightarrow> bool" where
  "plain C (WString s) = (escape s = s)"
| "plain C (WList l) = (\<forall>w\<in>set l. plain C w)"
| "plain C (WObject kws) = (\<forall>kw\<in>set kws. escape (fst kw) = fst kw \<and> plain C (snd kw))"
| "plain C WNull = True" | "plain C WFalse = True" | "plain C WTrue = True"
| "plain C w = (length (dump_number C w) \<le> 30)"

lemma length_joined: "length (joined d ps) \<le> sum_list (map (\<lambda>p. length d + length p) ps)"
  by (induction d ps rule: joined.induct) simp_all

lemma dump_length: "plain C w \<Longrightarrow> indent < 0 \<Longrightarrow> length (dump_internal C indent sep lvl w) \<le> estimate_length w"
proof (induction C indent sep lvl w rule: dump_internal.induct)
  case (5 C indent separator lvl l)
  then have "sum_list (map (\<lambda>x. 1 + length (dump_internal C indent separator (lvl + 1) x)) l) \<le>
      sum_list (map (\<lambda>x. 1 + estimate_length x) l)"
    by (intro sum_list_mono) simp
  with length_joined [of "[CHR '','']" "map (dump_internal C indent separator (lvl + 1)) l"] "5.prems"(2)
  show ?case by (simp add: dump_indentation_part_def o_def)
next
  case (6 C indent separator lvl kws)
  let ?t = "\<lambda>kw. dump_string (fst kw) @ CHR '':'' # dump_internal C indent separator (lvl + 1) (snd kw)"
  have "sum_list (map (\<lambda>kw. 1 + length (?t kw)) kws) \<le>
      sum_list (map (\<lambda>kw. 2 + (2 + length (fst kw) + length (fst kw) div 2) + estimate_length (snd kw)) kws)"
  proof (rule sum_list_mono)
    fix kw assume kw: "kw \<in> set kws"
    then have "length (dump_internal C indent separator (lvl + 1) (snd kw)) \<le> estimate_length (snd kw)"
      using 6 by simp
    moreover have "escape (fst kw) = fst kw" using "6.prems"(1) kw by simp
    ultimately show "1 + length (?t kw) \<le> 2 + (2 + length (fst kw) + length (fst kw) div 2) + estimate_length (snd kw)"
      by (simp add: dump_string_def)
  qed
  with length_joined [of "[CHR '','']" "map ?t kws"] "6.prems"(2)
  show ?case by (simp add: dump_indentation_part_def o_def)
qed (simp_all add: dump_string_def)

end
