(* ===== verification/ServerFacts.thy ===== *)
theory ServerFacts
  imports Server JsonDumpFacts
begin

text \<open>
  Runs of the server: the global connection pointer, what training sends and to whom, the
  interleavings of a training thread with the close and compile handlers, and the outcome
  of the handlers on good and bad input.
\<close>

section \<open>The global connection pointer\<close>

definition ws_live :: "'a server \<Rightarrow> bool" where
  "ws_live s \<longleftrightarrow> (\<forall>c. sv_ws s = Some c \<longrightarrow> c \<in> set (sv_open s))"

lemma send_text_frame:
  "send_text c msg s = Inr t \<Longrightarrow> t = s\<lparr>sv_sent := sv_sent s @ [(c, msg)]\<rparr> \<and> c \<in> set (sv_open s)"
  by (auto simp: send_text_def split: if_splits)

lemma send_all_frame:
  "fold_res (\<lambda>s msg. send_text c msg s) s msgs = Inr t \<Longrightarrow> t = s\<lparr>sv_sent := sv_sent s @ map (Pair c) msgs\<rparr>"
proof (induction msgs arbitrary: s)
  case (Cons msg msgs)
  then obtain s' where "send_text c msg s = Inr s'" "fold_res (\<lambda>s msg. send_text c msg s) s' msgs = Inr t"
    by (auto simp: bind_res_eq_Inr)
  with Cons.IH [of s'] send_text_frame [of c msg s s'] show ?case by simp
qed simp

lemma send_text_pointers: "send_text c msg s = Inr t \<Longrightarrow> sv_ws t = sv_ws s \<and> sv_open t = sv_open s"
  by (auto dest: send_text_frame)

lemma close_ws_frame: "close_ws c s = Inr t \<Longrightarrow> t = s\<lparr>sv_closing := sv_closing s @ [c]\<rparr>"
  by (auto simp: close_ws_def split: if_splits)

lemma send_all_open:
  "c \<in> set (sv_open s) \<Longrightarrow>
   fold_res (\<lambda>s msg. send_text c msg s) s msgs = Inr (s\<lparr>sv_sent := sv_sent s @ map (Pair c) msgs\<rparr>)"
  by (induction msgs arbitrary: s) (simp_all add: send_text_def)

lemma send_all_closed:
  "c \<notin> set (sv_open s) \<Longrightarrow> msgs \<noteq> [] \<Longrightarrow>
   fold_res (\<lambda>s msg. send_text c msg s) s msgs = Inl (Undefined Dangling_pointer)"
  by (cases msgs) (simp_all add: send_text_def)

lemma onmessage_frame:
  "onmessage C c data b s = Inr t \<Longrightarrow> sv_ws t = sv_ws s \<and> sv_open t = sv_open s \<and> sv_nn t = sv_nn s"
  by (auto simp: onmessage_def dest: send_text_frame
      split: if_splits option.splits sum.splits cxx_error.splits prod.splits)

lemma compile_frame:
  "compile C D req s = Inr (t, res) \<Longrightarrow>
   sv_ws t = sv_ws s \<and> sv_open t = sv_open s \<and> sv_jobs t = sv_jobs s \<and> sv_sent t = sv_sent s"
  by (auto simp: compile_def handle_exception_def Let_def
      split: if_splits option.splits sum.splits cxx_error.splits prod.splits)

lemma thread_begin_frame: "sv_ws (thread_begin i s) = sv_ws s \<and> sv_open (thread_begin i s) = sv_open s"
  by (auto simp: thread_begin_def split: job.splits option.splits)

lemma thread_end_frame:
  assumes "thread_end C i s = Some (Inr t)"
  shows "sv_ws t = sv_ws s \<and> sv_open t = sv_open s"
  using assms
  by (auto simp: thread_end_def bind_opt_def bind_res_eq_Inr dest!: send_all_frame send_text_pointers close_ws_frame
      split: job.splits option.splits sum.splits)

lemma step_ws_live:
  assumes "step C D s e (Inr t)" "ws_live s"
  shows "ws_live t"
  using assms(1)
proof cases
  case (open_step c)
  then have "send_text c ''Welcome! Ready for training data.'' (s\<lparr>sv_open := c # sv_open s, sv_ws := Some c\<rparr>) = Inr t"
    by (simp add: onopen_def)
  from send_text_pointers [OF this] show ?thesis by (auto simp: ws_live_def)
next
  case (message_step c data b)
  from onmessage_frame [OF message_step(2) [symmetric]] assms(2) show ?thesis by (auto simp: ws_live_def)
next
  case (close_step c)
  with assms(2) show ?thesis by (auto simp: ws_live_def onclose_def)
next
  case (compile_step req)
  then obtain res where "compile C D req s = Inr (t, res)" by (cases "compile C D req s") auto
  from compile_frame [OF this] assms(2) show ?thesis by (auto simp: ws_live_def)
next
  case (begin_step i)
  with assms(2) show ?thesis by (auto simp: ws_live_def thread_begin_frame)
next
  case (end_step i)
  from thread_end_frame [OF end_step(3)] assms(2) show ?thesis by (auto simp: ws_live_def)
qed

lemma run_ws_live: "run C D s es r \<Longrightarrow> ws_live s \<Longrightarrow> r = Inr t \<Longrightarrow> ws_live t"
  by (induction arbitrary: t rule: run.induct) (auto intro: step_ws_live)

text \<open>C9: In every run of the server from its start, whatever the order of connections, messages,
  closes, compilations and thread steps, the global connection pointer is null or points to
  a live connection.\<close>

theorem global_connection_is_live:
  assumes "start_server C D draws rnd = Inr s" "run C D s es (Inr t)" "sv_ws t = Some c"
  shows "c \<in> set (sv_open t)"
proof -
  have "ws_live s" using assms(1) by (auto simp: start_server_def bind_res_eq_Inr ws_live_def)
  from run_ws_live [OF assms(2) this] assms(3) show ?thesis by (simp add: ws_live_def)
qed

theorem global_connection_is_live_witness:
  "\<exists>s t. start_server real_cxx example_dist (\<lambda>k. k) (\<lambda>_. 0) = Inr s \<and>
    run real_cxx example_dist s [Open 7] (Inr t) \<and> sv_ws t = Some 7 \<and> 7 \<in> set (sv_open t)"
proof -
  obtain s where s: "start_server real_cxx example_dist (\<lambda>k. k) (\<lambda>_. 0) = Inr s" "sv_open s = []"
    by (simp add: start_server_def new_NeuralNetwork_def getLossClass_def)
  define t where "t = s\<lparr>sv_open := [7], sv_ws := Some 7,
    sv_sent := sv_sent s @ [(7, ''Welcome! Ready for training data.'')]\<rparr>"
  have "onopen 7 s = Inr t"
    using s(2) by (simp add: onopen_def send_text_def t_def)
  then have "step real_cxx example_dist s (Open 7) (Inr t)"
    using open_step [of 7 s] s(2) by simp
  from run_step [OF run_start this] have run: "run real_cxx example_dist s [Open 7] (Inr t)"
    by simp
  then show ?thesis
    using s(1) global_connection_is_live [OF s(1) run, of 7] by (auto simp: t_def)
qed

lemma onclose_twice: "onclose c (onclose c s) = onclose c s"
  by (simp add: onclose_def)

section \<open>A training thread and the other handlers\<close>

text \<open>A job that fits the network, as in \<open>train_total\<close>.\<close>

definition job_fits ::
  "'a cxx \<Rightarrow> 'a::{zero,one,plus,minus,uminus,times,inverse,ord} nn \<Rightarrow> nat \<Rightarrow> nat \<Rightarrow> 'a mat \<Rightarrow> 'a mat \<Rightarrow> int \<Rightarrow> int \<Rightarrow> bool" where
  "job_fits C N n r features target epochs batchSize \<longleftrightarrow> nn_ok n r N \<and> 0 < n \<and>
     (\<exists>m k. 0 < m \<and> mat_wf n m features \<and> mat_wf k m target \<and> target \<noteq> [] \<and>
        targets_fit C (nn_lossFunction N) r m target \<and> int m + batchSize \<le> INT_MAX) \<and>
     0 < batchSize \<and> epochs < INT_MAX"

lemma job_trains:
  assumes "job_fits C N n r f t e b"
  shows "\<exists>N' rnd' acc msgs. train C rnd N f t e b True = Some (Inr (N', rnd', acc, msgs)) \<and>
    nn_ok n r N' \<and> length msgs = nat e"
proof -
  obtain m k where m: "0 < m" "mat_wf n m f" "mat_wf k m t" "t \<noteq> []"
    "targets_fit C (nn_lossFunction N) r m t" "int m + b \<le> INT_MAX"
    using assms by (auto simp: job_fits_def)
  have "nn_ok n r N" "0 < n" "0 < b" "e < INT_MAX" using assms by (simp_all add: job_fits_def)
  with m train_total [of n r N m f k t C "nat b" e rnd True] show ?thesis by auto
qed


text \<open>C24: If the connection a training thread was given is closed before the training ends, the
  next message of the thread goes through a pointer to a destroyed connection: the close
  handler clears the global pointer but not the copy that the call of \<open>train\<close> holds.\<close>

theorem closing_during_training_dangles:
  assumes "sv_jobs s ! i = InTraining c f t e b" "sv_nn s = Some N" "job_fits C N n r f t e b" "0 < e"
  shows "thread_end C i (onclose c s) = Some (Inl (Undefined Dangling_pointer)) \<and> sv_ws (onclose c s) \<noteq> Some c"
proof
  obtain N' rnd' acc msgs where run: "train C (sv_rnd s) N f t e b True = Some (Inr (N', rnd', acc, msgs))"
    "length msgs = nat e"
    using job_trains [OF assms(3)] by blast
  have "msgs \<noteq> []" using run(2) assms(4) by auto
  then show "thread_end C i (onclose c s) = Some (Inl (Undefined Dangling_pointer))"
    using assms(1,2) run(1) by (simp add: thread_end_def onclose_def send_all_closed)
  show "sv_ws (onclose c s) \<noteq> Some c" by (simp add: onclose_def)
qed

definition example_server :: "real server" where
  "example_server = \<lparr> sv_nn = Some example_net, sv_ws = Some 7, sv_open = [7], sv_sent = [], sv_closing = [],
     sv_jobs = [InTraining 7 [[5, 6, 7]] [[0, 1, 0]] 2 2], sv_draws = \<lambda>k. k, sv_rnd = \<lambda>_. 0 \<rparr>"

lemma example_job_fits: "job_fits real_cxx example_net (Suc 0) 2 [[5, 6, 7]] [[0, 1, 0]] 2 2"
proof -
  have "targets_fit real_cxx (nn_lossFunction example_net) 2 3 [[0, 1, 0]]"
    using example_labels by (auto simp: example_net_def)
  then show ?thesis
    using example_net_ok unfolding job_fits_def
    by (intro conjI exI [of _ 3] exI [of _ 1]) (simp_all add: INT_MAX_def)
qed


theorem closing_during_training_dangles_witness:
  "thread_end real_cxx 0 (onclose 7 example_server) = Some (Inl (Undefined Dangling_pointer))"
  using closing_during_training_dangles [OF _ _ example_job_fits, of example_server 0 7]
  by (simp add: example_server_def)



section \<open>Handlers on good and bad input\<close>


lemma one_digit: "parser_number ''1''"
proof -
  have "show_int 1 = ''1''" by code_simp
  with show_int_number [of 1] show ?thesis by simp
qed


text \<open>The body of a \<open>/compile\<close> request with integer learning rates.\<close>

definition compile_body :: "int list \<Rightarrow> int list \<Rightarrow> string list \<Rightarrow> string \<Rightarrow> int \<Rightarrow> rvalue" where
  "compile_body sizes rates acts loss input =
     RObject [(''hiddenLayerSizes'', RList (map (\<lambda>k. RNumber (show_int k)) sizes)),
              (''learningRates'', RList (map (\<lambda>k. RNumber (show_int k)) rates)),
              (''layerActivations'', RList (map (\<lambda>a. RString (escape a)) acts)),
              (''lossFunc'', RString (escape loss)), (''inputSize'', RNumber (show_int input))]"

lemma show_int_not_space: "dropWhile is_space (show_int n) \<noteq> []"
  using show_int_scan(1) [of n] show_nat_not_Nil [of "nat \<bar>n\<bar>"]
  by (cases "dropWhile is_space (show_int n)") auto

lemma lexical_int64_show: "INT_MIN \<le> n \<Longrightarrow> n \<le> INT_MAX \<Longrightarrow> lexical_int64 (show_int n) = Inr n"
  using show_int_not_space [of n]
  by (auto simp: lexical_int64_def show_int_scan read_show_nat show_nat_not_Nil INT_MIN_def INT_MAX_def)

lemma open_exponent_mark: "open_exponent s \<Longrightarrow> \<exists>c\<in>set s. exp_mark c"
proof -
  assume "open_exponent s"
  then have "\<exists>c\<in>set (rev s). exp_mark c"
    by (cases "rev s"; cases "tl (rev s)") (auto simp: open_exponent_def exp_mark_def)
  then show ?thesis by simp
qed

lemma show_int_closed: "\<not> open_exponent (show_int n)"
  using open_exponent_mark [of "show_int n"] show_int_chars [of _ n] exp_mark_not_digit by blast

lemma lexical_double_show: "lexical_double C (show_int n) = Inr (c_int C n)"
  using stod_show_int [of C n] show_int_not_space [of n] show_int_closed [of n]
  by (auto simp: stod_def lexical_double_def split: option.splits)

lemma parse_compile_body:
  assumes "\<forall>k\<in>set (input # sizes). 0 < k \<and> 2 * k \<le> INT_MAX"
  shows "parse_compile C (compile_body sizes rates acts loss input) =
    Inr \<lparr> hp_sizes = sizes, hp_rates = map (c_int C) rates, hp_activations = acts, hp_loss = loss, hp_input = input \<rparr>"
proof -
  have int: "lexical_int64 (show_int k) = Inr k" "int_of_int64 k = k" if "k \<in> set (input # sizes)" for k
    using assms that by (auto intro!: lexical_int64_show int_of_int64_id simp: INT_MIN_def INT_MAX_def)
  have sizes: "map_res (\<lambda>v. map_sum id int_of_int64 (rv_i v)) (map (\<lambda>k. RNumber (show_int k)) sizes) = Inr sizes"
    unfolding map_res_map by (subst map_res_pure [where g = "\<lambda>k. k"]) (simp_all add: int)
  have rates: "map_res (rv_d C) (map (\<lambda>k. RNumber (show_int k)) rates) = Inr (map (c_int C) rates)"
    unfolding map_res_map by (rule map_res_pure) (simp add: lexical_double_show)
  have acts: "map_res rv_s (map (\<lambda>a. RString (escape a)) acts) = Inr acts"
    unfolding map_res_map by (subst map_res_pure [where g = "\<lambda>k. k"]) (simp_all add: unescape_escaped)
  show ?thesis
    by (simp add: parse_compile_def compile_body_def rv_list_eq sizes rates acts int unescape_escaped)
qed

lemma setModel_ok:
  assumes "hyper_ok 0 input sizes acts lrs kps lams" "getLossClass loss = Inr l"
  shows "\<exists>N' draws'. setModelHyperParameters C D draws sizes acts loss lrs kps lams input N = (N', Inr draws') \<and>
    nn_ok (nat input) (nat (last (input # sizes))) N' \<and> length (nn_layers N') = length sizes \<and>
    nn_lossFunction N' = l \<and> nn_means N' = nn_means N \<and> nn_stdevs N' = nn_stdevs N"
  using build_layers_ok [OF assms(1), of C D draws "[]"] assms(2)
  by (auto simp: setModelHyperParameters_def nn_ok_def)


lemma load_compile_body: "load (json_text (compile_body sizes rates acts loss input)) = Some (compile_body sizes rates acts loss input)"
  by (rule load_compact) (auto simp: compile_body_def show_int_number scan_escape o_def)


text \<open>Between the start and the end of a training, every request to compile that can be read is a
  data race.\<close>

lemma compile_during_training_races:
  assumes "InTraining c f t e b \<in> set (sv_jobs s)" "sv_nn s = Some N" "load req = Some body" "parse_compile C body = Inr h"
  shows "compile C D req s = Inl (Undefined Data_race)"
proof -
  have "\<exists>j\<in>set (sv_jobs s). case j of InTraining _ _ _ _ _ \<Rightarrow> True | Spawned _ _ _ _ \<Rightarrow> False"
    using assms(1) by (rule rev_bexI) simp
  with assms(2-4) show ?thesis by (simp add: compile_def)
qed

section \<open>The answer\<close>

lemma levels_number: "levels (read_back C (WNumber x)) = 0"
  by simp

lemma levels_rows: "foldr max (map (\<lambda>x. levels (f x)) xs) 0 \<le> n" if "\<And>x. levels (f x) \<le> n"
  using that by (intro foldr_max_le) auto

lemma levels_model: "levels (read_back C (getModelParameters N)) \<le> 4"
proof -
  have row: "levels (read_back C (WList (map WNumber xs))) \<le> 1" for xs
    using levels_rows [of "\<lambda>x. read_back C (WNumber x)" 0 xs] levels_number [of C] by (simp add: o_def del: read_back.simps(5))
  have "levels (read_back C (WList (map (\<lambda>r. WList (map WNumber r)) A))) \<le> 2" for A
    using levels_rows [of "\<lambda>r. read_back C (WList (map WNumber r))" 1 A] row
    by (simp add: o_def del: read_back.simps(5))
  then have "levels (read_back C (layer_params L)) \<le> 3" for L
    using row [of "getBiases L"] by (simp add: layer_params_def w_put_def le_SucI numeral_3_eq_3)
  then show ?thesis
    using levels_rows [of "\<lambda>L. read_back C (layer_params L)" 3 "nn_layers N"]
    by (simp add: getModelParameters_def o_def)
qed

lemma prints_model: "prints real_cxx (getModelParameters N)"
  by (auto simp: getModelParameters_def layer_params_def w_put_def general21_printed)

text \<open>C21: The text of the parameters of every network is JSON that the same parser accepts, with one
  object of weights and biases per layer, in which every number is the text that was written.\<close>

theorem model_parameters_load:
  "load (rs_text (response_json real_cxx 200 (getModelParameters N))) =
    Some (RList (map (\<lambda>L. RObject
      [(''weights'', RList (map (\<lambda>row. RList (map (\<lambda>x. RNumber (drop_zeros (general21 x))) row)) (getWeights L))),
       (''biases'', RList (map (\<lambda>x. RNumber (drop_zeros (general21 x))) (getBiases L)))]) (nn_layers N)))"
proof -
  have "load (dump real_cxx (getModelParameters N)) = Some (read_back real_cxx (getModelParameters N))"
    using levels_model [of real_cxx N] by (intro load_dump prints_model) simp
  then show ?thesis
    by (simp add: response_json_def set_header_def response_text_def getModelParameters_def layer_params_def w_put_def o_def)
qed

end
