(* ===== verification/WebSocket.thy ===== *)
theory WebSocket
  imports Prelude "HOL-Library.Word"
begin

unbundle bit_operations_syntax

text \<open>
  A websocket connection of Crow, \<open>lib/crow/websocket.h\<close>: sending, the states of reading a
  frame, fragments, and the closing of a connection.

  The connection runs on one thread and waits for \<open>asio\<close>: a pending read, a pending write, and
  the calls other threads have posted. An operation here is what runs between two such waits.
  Bytes are characters. The handlers of the application are recorded as calls; what they do
  with the connection is a further operation, because the sending functions post.
\<close>

section \<open>Bytes in memory and on the wire\<close>

text \<open>The host is little-endian.\<close>

definition le_bytes :: "nat \<Rightarrow> nat \<Rightarrow> string" where
  "le_bytes n x = map (\<lambda>i. char_of (x div 256 ^ i)) [0..<n]"

definition be_bytes :: "nat \<Rightarrow> nat \<Rightarrow> string" where
  "be_bytes n x = rev (le_bytes n x)"

definition of_be :: "string \<Rightarrow> nat" where
  "of_be s = foldl (\<lambda>v c. 256 * v + of_char c) 0 s"

definition of_le :: "string \<Rightarrow> nat" where
  "of_le s = of_be (rev s)"

text \<open>\<open>htons\<close> and \<open>ntohs\<close>, \<open>htonl\<close> and \<open>ntohl\<close>.\<close>

definition htons :: "nat \<Rightarrow> nat" where
  "htons x = of_le (be_bytes 2 x)"

definition htonl :: "nat \<Rightarrow> nat" where
  "htonl x = of_le (be_bytes 4 x)"

definition xor_char :: "char \<Rightarrow> char \<Rightarrow> char" where
  "xor_char a b = char_of (of_char a XOR of_char b :: nat)"

section \<open>The state\<close>

datatype read_state = MiniHeader | Len16 | Len64 | Mask | Payload

datatype handler_call = Opened | Message string bool | Closed string nat | Errored string

text \<open>What was posted to the thread of the connection.\<close>

datatype task = Send nat string | Do_close string nat

text \<open>
  \<open>ws_wants\<close> is the pending read: whether it waits for all of its bytes, and how many. A write is
  pending while \<open>ws_sending\<close> is not empty. \<open>ws_written\<close> are the bytes given to \<open>asio\<close>. \<open>None\<close> for
  \<open>is_binary_\<close>: never assigned.
\<close>

record ws =
  ws_state :: read_state
  ws_binary :: "bool option"
  ws_message :: string
  ws_fragment :: string
  ws_remaining :: nat
  ws_max :: nat
  ws_subprotocol :: string
  ws_closing :: bool
  ws_reading :: bool
  ws_has_mask :: bool
  ws_mask :: string
  ws_mini :: nat
  ws_sent_close :: bool
  ws_recv_close :: bool
  ws_pong :: bool
  ws_close_called :: bool
  ws_sending :: "string list"
  ws_write :: "string list"
  ws_posted :: "task list"
  ws_wants :: "(bool \<times> nat) option"
  ws_written :: string
  ws_calls :: "handler_call list"
  ws_socket_open :: bool
  ws_removed :: nat
  ws_deleted :: bool

text \<open>The default initialisers of the members.\<close>

definition fresh_ws :: "nat \<Rightarrow> string \<Rightarrow> ws" where
  "fresh_ws max_payload subprotocol =
     \<lparr> ws_state = MiniHeader, ws_binary = None, ws_message = [], ws_fragment = [], ws_remaining = 0,
       ws_max = max_payload, ws_subprotocol = subprotocol, ws_closing = False, ws_reading = False, ws_has_mask = False,
       ws_mask = [], ws_mini = 0, ws_sent_close = False, ws_recv_close = False, ws_pong = False, ws_close_called = False,
       ws_sending = [], ws_write = [], ws_posted = [], ws_wants = None, ws_written = [], ws_calls = [],
       ws_socket_open = True, ws_removed = 0, ws_deleted = False \<rparr>"

definition call_handler :: "handler_call \<Rightarrow> ws \<Rightarrow> ws" where
  "call_handler c s = s\<lparr>ws_calls := ws_calls s @ [c]\<rparr>"

definition close_socket :: "ws \<Rightarrow> ws" where
  "close_socket s = s\<lparr>ws_socket_open := False\<rparr>"

section \<open>Writing\<close>

text \<open>\<open>buf[0] += opcode\<close> and \<open>buf[1] += \<dots>\<close> are sums of bytes. The 8-byte length swaps the halves and the
  bytes of each half.\<close>

definition build_header :: "nat \<Rightarrow> nat \<Rightarrow> string" where
  "build_header opcode n =
     (if n < 126 then [char_of (128 + opcode), char_of n]
      else if n < 65536 then [char_of (128 + opcode), char_of (126 :: nat)] @ le_bytes 2 (htons (n mod 65536))
      else [char_of (128 + opcode), char_of (127 :: nat)] @
           le_bytes 8 (push_bit 32 (htonl (n AND (2 ^ 32 - 1))) OR htonl (drop_bit 32 n)))"

definition do_write :: "ws \<Rightarrow> ws" where
  "do_write s =
     (if ws_sending s = []
      then s\<lparr>ws_sending := ws_write s, ws_write := [], ws_written := ws_written s @ concat (ws_write s)\<rparr>
      else s)"

text \<open>\<open>CloseStatusCode\<close>, the values the connection uses itself.\<close>

abbreviation (input) NormalClosure :: nat where "NormalClosure \<equiv> 1000"
abbreviation (input) NoStatusCodePresent :: nat where "NoStatusCodePresent \<equiv> 1005"
abbreviation (input) ClosedAbnormally :: nat where "ClosedAbnormally \<equiv> 1006"
abbreviation (input) MessageTooBig :: nat where "MessageTooBig \<equiv> 1009"

definition check_destroy :: "nat \<Rightarrow> ws \<Rightarrow> ws" where
  "check_destroy code s =
     (let s = (if \<not> ws_close_called s then call_handler (Closed ''uncleanly'' code) s else s);
          s = s\<lparr>ws_removed := ws_removed s + 1\<rparr>
      in if ws_sending s = [] \<and> \<not> ws_reading s then s\<lparr>ws_deleted := True\<rparr> else s)"

text \<open>The body of the function that \<open>close\<close> dispatches.\<close>

definition do_close :: "string \<Rightarrow> nat \<Rightarrow> ws \<Rightarrow> ws" where
  "do_close msg status_code s =
     (let s = s\<lparr>ws_sent_close := True\<rparr>;
          s = (if ws_recv_close s \<and> \<not> ws_close_called s
               then call_handler (Closed msg status_code) (s\<lparr>ws_close_called := True\<rparr>) else s);
          header = build_header 8 (length msg + 2);
          status_buf = le_bytes 2 (htons status_code)
      in do_write (s\<lparr>ws_write := ws_write s @ [header, status_buf, msg]\<rparr>))"

text \<open>\<open>asio::dispatch\<close> runs the function at once on the thread of the connection and posts it
  otherwise.\<close>

definition ws_close :: "bool \<Rightarrow> string \<Rightarrow> nat \<Rightarrow> ws \<Rightarrow> ws" where
  "ws_close on_thread msg status_code s =
     (if on_thread then do_close msg status_code s
      else s\<lparr>ws_posted := ws_posted s @ [Do_close msg status_code]\<rparr>)"

definition send_data_impl :: "nat \<Rightarrow> string \<Rightarrow> ws \<Rightarrow> ws" where
  "send_data_impl opcode payload s =
     (let header = build_header opcode (length payload)
      in do_write (s\<lparr>ws_write := ws_write s @ [header, payload]\<rparr>))"

definition send_data :: "nat \<Rightarrow> string \<Rightarrow> ws \<Rightarrow> ws" where
  "send_data opcode msg s = s\<lparr>ws_posted := ws_posted s @ [Send opcode msg]\<rparr>"

definition send_ping :: "string \<Rightarrow> ws \<Rightarrow> ws" where "send_ping msg s = send_data 9 msg s"
definition send_pong :: "string \<Rightarrow> ws \<Rightarrow> ws" where "send_pong msg s = send_data 10 msg s"
definition ws_send_binary :: "string \<Rightarrow> ws \<Rightarrow> ws" where "ws_send_binary msg s = send_data 2 msg s"
definition ws_send_text :: "string \<Rightarrow> ws \<Rightarrow> ws" where "ws_send_text msg s = send_data 1 msg s"

fun run_task :: "task \<Rightarrow> ws \<Rightarrow> ws" where
  "run_task (Send opcode payload) s = send_data_impl opcode payload s"
| "run_task (Do_close msg status_code) s = do_close msg status_code s"

text \<open>The function called when a write has ended, with or without an error.\<close>

definition on_write :: "bool \<Rightarrow> ws \<Rightarrow> ws" where
  "on_write ok s =
     (if ok \<and> \<not> ws_closing s
      then let s = s\<lparr>ws_sending := []\<rparr>;
               s = (if ws_write s \<noteq> [] then do_write s else s)
           in (if ws_sent_close s then s\<lparr>ws_closing := True\<rparr> else s)
      else check_destroy ClosedAbnormally (s\<lparr>ws_sending := [], ws_closing := True\<rparr>))"

section \<open>Fragments\<close>

definition is_FIN :: "ws \<Rightarrow> bool" where
  "is_FIN s \<longleftrightarrow> ws_mini s AND 0x8000 \<noteq> 0"

definition opcode :: "ws \<Rightarrow> nat" where
  "opcode s = drop_bit 8 (ws_mini s AND 0x0f00)"

text \<open>The loop over the fragment; the mask is in memory as it came.\<close>

definition unmask :: "string \<Rightarrow> string \<Rightarrow> string" where
  "unmask key data = map (\<lambda>i. xor_char (data ! i) (key ! (i mod 4))) [0..<length data]"

text \<open>The end of the three data cases.\<close>

definition end_fragment :: "ws \<Rightarrow> ws res" where
  "end_fragment s =
     (let s = s\<lparr>ws_message := ws_message s @ ws_fragment s\<rparr>
      in if is_FIN s
         then (case ws_binary s of
                 None \<Rightarrow> Inl (Undefined Indeterminate)
               | Some b \<Rightarrow> Inr ((call_handler (Message (ws_message s) b) s)\<lparr>ws_message := []\<rparr>))
         else Inr s)"

text \<open>A close frame: whether reading goes on.\<close>

definition close_fragment :: "ws \<Rightarrow> bool \<times> ws" where
  "close_fragment s =
     (let s = s\<lparr>ws_recv_close := True\<rparr>;
          (status_code, message_start) =
            (if 2 \<le> length (ws_fragment s) then (htons (of_le (take 2 (ws_fragment s))), 2) else (NoStatusCodePresent, 0));
          message = drop message_start (ws_fragment s)
      in if \<not> ws_sent_close s then (True, ws_close True message status_code s)
         else let s = s\<lparr>ws_closing := True\<rparr>;
                  s = (if \<not> ws_close_called s
                       then (call_handler (Closed message status_code) s)\<lparr>ws_close_called := True\<rparr> else s)
              in (False, check_destroy ClosedAbnormally (close_socket s)))"

definition handle_fragment :: "ws \<Rightarrow> (bool \<times> ws) res" where
  "handle_fragment s =
     (let s = (if ws_has_mask s then s\<lparr>ws_fragment := unmask (ws_mask s) (ws_fragment s)\<rparr> else s);
          clear = (\<lambda>s. s\<lparr>ws_fragment := []\<rparr>)
      in if opcode s = 0 then bind_res (end_fragment s) (\<lambda>s. Inr (True, clear s))
         else if opcode s = 1 then bind_res (end_fragment (s\<lparr>ws_binary := Some False\<rparr>)) (\<lambda>s. Inr (True, clear s))
         else if opcode s = 2 then bind_res (end_fragment (s\<lparr>ws_binary := Some True\<rparr>)) (\<lambda>s. Inr (True, clear s))
         else if opcode s = 8 then (let (go_on, s) = close_fragment s in Inr (go_on, if go_on then clear s else s))
         else if opcode s = 9 then Inr (True, clear (send_pong (ws_fragment s) s))
         else if opcode s = 10 then Inr (True, clear (s\<lparr>ws_pong := True\<rparr>))
         else Inr (True, clear s))"

section \<open>Reading\<close>

text \<open>\<open>async_read_some\<close> and \<open>async_read\<close>.\<close>

definition wait_some :: "nat \<Rightarrow> ws \<Rightarrow> ws" where
  "wait_some n s = s\<lparr>ws_wants := Some (False, n)\<rparr>"

definition wait_all :: "nat \<Rightarrow> ws \<Rightarrow> ws" where
  "wait_all n s = s\<lparr>ws_wants := Some (True, n)\<rparr>"

definition buffer_size :: nat where "buffer_size = 4096"

text \<open>A message that is too long ends the connection; the flag that a read is pending stays set.\<close>

definition too_long :: "ws \<Rightarrow> ws" where
  "too_long s =
     check_destroy MessageTooBig (call_handler (Errored ''Message length exceeds maximum payload.'')
       (close_socket (s\<lparr>ws_closing := True\<rparr>)))"

function do_read :: "ws \<Rightarrow> ws" where
  "do_read s =
     (if ws_sent_close s \<and> ws_recv_close s
      then check_destroy ClosedAbnormally (close_socket (s\<lparr>ws_closing := True\<rparr>))
      else let s = s\<lparr>ws_reading := True\<rparr>
           in case ws_state s of
                MiniHeader \<Rightarrow> wait_some 2 (s\<lparr>ws_mini := 0\<rparr>)
              | Len16 \<Rightarrow> wait_all 2 (s\<lparr>ws_remaining := 0\<rparr>)
              | Len64 \<Rightarrow> wait_all 8 s
              | Mask \<Rightarrow>
                  if ws_max s < ws_remaining s then too_long s
                  else if ws_has_mask s then wait_all 4 s
                  else do_read (s\<lparr>ws_state := Payload\<rparr>)
              | Payload \<Rightarrow> wait_some (min buffer_size (ws_remaining s)) s)"
  by pat_completeness auto
termination by (relation "measure (\<lambda>s. if ws_state s = Mask then 1 else 0)") auto

text \<open>
  The functions called with the bytes of a read, by state. The read of the first two bytes may
  give one: the second byte of \<open>mini_header_\<close> is then the 0 it was set to.
\<close>

definition on_mini_header :: "string \<Rightarrow> ws \<Rightarrow> ws" where
  "on_mini_header bs s =
     (let s = s\<lparr>ws_mini := htons (of_le (bs @ replicate (2 - length bs) (char_of (0 :: nat))))\<rparr>;
          s = s\<lparr>ws_has_mask := (ws_mini s AND 0x80 = 0x80)\<rparr>
      in do_read
           (if ws_mini s AND 0x7f = 127 then s\<lparr>ws_state := Len64\<rparr>
            else if ws_mini s AND 0x7f = 126 then s\<lparr>ws_state := Len16\<rparr>
            else s\<lparr>ws_remaining := ws_mini s AND 0x7f, ws_state := Mask\<rparr>))"

definition on_len16 :: "string \<Rightarrow> ws \<Rightarrow> ws" where
  "on_len16 bs s = do_read (s\<lparr>ws_remaining := htons (of_le bs), ws_state := Mask\<rparr>)"

definition on_len64 :: "string \<Rightarrow> ws \<Rightarrow> ws" where
  "on_len64 bs s =
     (let n = of_le bs
      in do_read (s\<lparr>ws_remaining := push_bit 32 (htonl (n AND (2 ^ 32 - 1))) OR htonl (drop_bit 32 n), ws_state := Mask\<rparr>))"

definition on_mask :: "string \<Rightarrow> ws \<Rightarrow> ws" where
  "on_mask bs s = do_read (s\<lparr>ws_mask := bs, ws_state := Payload\<rparr>)"

definition on_payload :: "string \<Rightarrow> ws \<Rightarrow> ws res" where
  "on_payload bs s =
     (let s = s\<lparr>ws_fragment := ws_fragment s @ bs, ws_remaining := ws_remaining s - length bs\<rparr>
      in if ws_remaining s = 0
         then bind_res (handle_fragment s) (\<lambda>(go_on, s). Inr (if go_on then do_read (s\<lparr>ws_state := MiniHeader\<rparr>) else s))
         else Inr (do_read s))"

definition on_read :: "string \<Rightarrow> ws \<Rightarrow> ws res" where
  "on_read bs s =
     (let s = s\<lparr>ws_reading := False, ws_wants := None\<rparr>
      in case ws_state s of
           MiniHeader \<Rightarrow> Inr (on_mini_header bs s)
         | Len16 \<Rightarrow> Inr (on_len16 bs s)
         | Len64 \<Rightarrow> Inr (on_len64 bs s)
         | Mask \<Rightarrow> Inr (on_mask bs s)
         | Payload \<Rightarrow> on_payload bs s)"

text \<open>A read that failed, in every state; the order of the error handler and the closing of the
  socket differs.\<close>

definition on_read_error :: "string \<Rightarrow> ws \<Rightarrow> ws" where
  "on_read_error message s =
     (let s = s\<lparr>ws_reading := False, ws_wants := None, ws_closing := True\<rparr>
      in check_destroy ClosedAbnormally (call_handler (Errored message) (close_socket s)))"

section \<open>Opening, and runs of a connection\<close>

abbreviation (input) crlf :: string where "crlf \<equiv> [CHR 0x0D, CHR 0x0A]"

definition start_ws :: "string \<Rightarrow> ws \<Rightarrow> ws" where
  "start_ws hello s =
     (let header = ''HTTP/1.1 101 Switching Protocols'' @ crlf @ ''Upgrade: websocket'' @ crlf @
                   ''Connection: Upgrade'' @ crlf @ ''Sec-WebSocket-Accept: '';
          s = s\<lparr>ws_write := ws_write s @ [header, hello, crlf]\<rparr>;
          s = (if ws_subprotocol s \<noteq> [] then s\<lparr>ws_write := ws_write s @ [''Sec-WebSocket-Protocol: '', ws_subprotocol s, crlf]\<rparr> else s);
          s = s\<lparr>ws_write := ws_write s @ [crlf]\<rparr>
      in do_read (call_handler Opened (do_write s)))"

datatype ws_event =
    Received string
  | Read_failed string
  | Write_done bool
  | Run_task
  | App_send nat string
  | App_close string nat

text \<open>The bytes a read can end with: as many as it waits for, or some of them. Nothing waits for 0
  bytes but the payload of an empty frame.\<close>

definition read_fits :: "ws \<Rightarrow> string \<Rightarrow> bool" where
  "read_fits s bs \<longleftrightarrow>
     (case ws_wants s of
        None \<Rightarrow> False
      | Some (True, n) \<Rightarrow> length bs = n
      | Some (False, n) \<Rightarrow> length bs \<le> n \<and> (bs = [] \<longrightarrow> n = 0))"

fun ws_next :: "ws_event \<Rightarrow> ws \<Rightarrow> ws res option" where
  "ws_next (Received bs) s = (if read_fits s bs then Some (on_read bs s) else None)"
| "ws_next (Read_failed message) s = (if ws_wants s \<noteq> None then Some (Inr (on_read_error message s)) else None)"
| "ws_next (Write_done ok) s = (if ws_sending s \<noteq> [] then Some (Inr (on_write ok s)) else None)"
| "ws_next Run_task s =
     (case ws_posted s of [] \<Rightarrow> None | t # ts \<Rightarrow> Some (Inr (run_task t (s\<lparr>ws_posted := ts\<rparr>))))"
| "ws_next (App_send op msg) s = Some (Inr (send_data op msg s))"
| "ws_next (App_close msg code) s = Some (Inr (ws_close False msg code s))"

text \<open>Runs: after the deletion nothing happens any more.\<close>

inductive ws_run :: "ws \<Rightarrow> ws_event list \<Rightarrow> ws \<Rightarrow> bool" where
  ws_run_Nil: "ws_run s [] s"
| ws_run_snoc: "ws_run s es t \<Longrightarrow> \<not> ws_deleted t \<Longrightarrow> ws_next e t = Some (Inr u) \<Longrightarrow> ws_run s (es @ [e]) u"

end
