(* ===== verification/Bits.thy ===== *)
theory Bits
  imports Main "HOL-Library.Word"
begin

unbundle bit_operations_syntax

text \<open>Masks and shifts of natural numbers as remainders and quotients, and characters as bytes.\<close>

lemma of_char_less: "of_char (c :: char) < (256 :: nat)"
  using mod_less_divisor [of 256 "of_char c"] by simp

lemma of_char_of_mod: "of_char (char_of x) = (x mod 256 :: nat)"
  by (simp add: take_bit_eq_mod)

lemma push_bit_or: "b < 2 ^ n \<Longrightarrow> push_bit n a OR b = a * 2 ^ n + (b :: nat)"
proof -
  assume "b < 2 ^ n"
  then have "b = take_bit n b" by (simp add: take_bit_nat_eq_self)
  then have "push_bit n a OR b = push_bit n a + b"
    by (metis concat_bit_def bit_push_bit_iff bit_take_bit_iff disjunctive_add add.commute or.commute not_le)
  then show ?thesis by (simp add: push_bit_eq_mult)
qed

lemma and_low:
  "x AND 127 = x mod (128 :: nat)" "x AND 63 = x mod (64 :: nat)" "x AND 15 = x mod (16 :: nat)" "x AND 3 = x mod (4 :: nat)"
  using take_bit_eq_mask [of 7 x] take_bit_eq_mask [of 6 x] take_bit_eq_mask [of 4 x] take_bit_eq_mask [of 2 x]
  by (simp_all add: mask_eq_exp_minus_1 take_bit_eq_mod)

lemma and_bit: "x AND 2 ^ n = (if bit x n then 2 ^ n else (0 :: nat))"
  by (rule bit_eqI) (auto simp: bit_and_iff bit_exp_iff)

text \<open>A field of bits: masked in place and shifted down.\<close>

lemma drop_bit_field: "drop_bit k (x AND m) = x div 2 ^ k AND drop_bit k (m :: nat)"
  by (simp only: drop_bit_and) (simp only: drop_bit_eq_div)

lemma bit_field:
  "drop_bit 8 (x AND 0x0f00) = x div 256 mod (16 :: nat)" "drop_bit 2 (x AND 0xFC) = x div 4 mod (64 :: nat)"
  "drop_bit 4 (x AND 0xF0) = x div 16 mod (16 :: nat)" "drop_bit 6 (x AND 0xC0) = x div 64 mod (4 :: nat)"
  "drop_bit 4 (x AND 0x30) = x div 16 mod (4 :: nat)" "drop_bit 2 (x AND 0x3C) = x div 4 mod (16 :: nat)"
proof -
  have low: "x AND 63 = x mod (64 :: nat)" "x AND 15 = x mod (16 :: nat)" "x AND 3 = x mod (4 :: nat)" for x
    by (rule and_low)+
  have m: "drop_bit 8 0x0f00 = (15 :: nat)" "drop_bit 2 0xFC = (63 :: nat)" "drop_bit 4 0xF0 = (15 :: nat)"
    "drop_bit 6 0xC0 = (3 :: nat)" "drop_bit 4 0x30 = (3 :: nat)" "drop_bit 2 0x3C = (15 :: nat)"
    by code_simp+
  show "drop_bit 8 (x AND 0x0f00) = x div 256 mod 16" "drop_bit 2 (x AND 0xFC) = x div 4 mod 64"
    "drop_bit 4 (x AND 0xF0) = x div 16 mod 16" "drop_bit 6 (x AND 0xC0) = x div 64 mod 4"
    "drop_bit 4 (x AND 0x30) = x div 16 mod 4" "drop_bit 2 (x AND 0x3C) = x div 4 mod 16"
    by (simp_all only: drop_bit_field m low) simp_all
qed

end
