(* ===== verification/WebSocketBytes.thy ===== *)
theory WebSocketBytes
  imports WebSocket Bits
begin

text \<open>Bytes on the wire: byte orders, frame headers and the mask.\<close>

section \<open>Byte orders\<close>

lemma of_le_simps [simp]: "of_le [] = 0" "of_le (c # s) = of_char c + 256 * of_le s"
  by (simp_all add: of_le_def of_be_def)

lemma le_bytes_simps [simp]: "le_bytes 0 x = []" "le_bytes (Suc n) x = char_of x # le_bytes n (x div 256)"
proof -
  have "[0..<Suc n] = 0 # map Suc [0..<n]" by (simp add: map_Suc_upt upt_conv_Cons)
  then show "le_bytes (Suc n) x = char_of x # le_bytes n (x div 256)"
    by (simp add: le_bytes_def o_def div_mult2_eq)
qed (simp add: le_bytes_def)

lemma length_bytes [simp]: "length (le_bytes n x) = n" "length (be_bytes n x) = n"
  by (simp_all add: le_bytes_def be_bytes_def)

lemma of_le_le_bytes [simp]: "of_le (le_bytes n x) = x mod 256 ^ n"
proof (induction n arbitrary: x)
  case (Suc n)
  then show ?case by (simp add: of_char_of_mod mod_mult2_eq)
qed simp

lemma of_be_be_bytes [simp]: "of_be (be_bytes n x) = x mod 256 ^ n"
  using of_le_le_bytes [of n x] by (simp add: of_le_def be_bytes_def)

lemma le_bytes_of_le: "length s = n \<Longrightarrow> le_bytes n (of_le s) = s"
proof (induction n arbitrary: s)
  case (Suc n)
  then obtain c t where s: "s = c # t" "length t = n" by (cases s) auto
  have "char_of (of_char c + 256 * of_le t :: nat) = c"
    by (metis char_of_mod_256 mod_mult_self2 char_of_char)
  moreover have "(of_char c + 256 * of_le t) div 256 = of_le t" using of_char_less [of c] by simp
  ultimately show ?case using Suc.IH s by simp
qed simp

lemma of_le_less: "of_le s < 256 ^ length s"
proof (induction s)
  case (Cons c s)
  then have "256 * (of_le s + 1) \<le> 256 * 256 ^ length s" by (intro mult_le_mono2) simp
  moreover have "of_char c + 256 * of_le s < 256 * (of_le s + 1)"
    using of_char_less [of c] by (simp only: distrib_left)
  ultimately show ?case by (simp only: of_le_simps list.size power_Suc add_Suc_right add_0_right)
qed simp

lemma of_le_append: "of_le (s @ t) = of_le s + 256 ^ length s * of_le t"
  by (induction s) (simp_all add: algebra_simps)

lemma le_bytes_swap: "le_bytes n (of_le (be_bytes n x)) = be_bytes n x"
  by (simp add: le_bytes_of_le)

lemma htons_bytes: "le_bytes 2 (htons x) = be_bytes 2 x"
  by (simp add: htons_def le_bytes_swap)

lemma ntohs_bytes: "length bs = 2 \<Longrightarrow> htons (of_le bs) = of_be bs"
  using le_bytes_of_le [of bs 2] by (simp add: htons_def be_bytes_def of_le_def)

lemma swap_halves: "push_bit 32 (htonl (x AND (2 ^ 32 - 1))) OR htonl (drop_bit 32 x) = of_le (be_bytes 4 (x div 2 ^ 32) @ be_bytes 4 (x mod 2 ^ 32))"
proof -
  have "htonl y < 2 ^ 32" for y
    using of_le_less [of "be_bytes 4 y"] by (simp add: htonl_def)
  moreover have "x AND (2 ^ 32 - 1) = x mod 2 ^ 32"
    using take_bit_eq_mask [of 32 x] by (simp only: mask_eq_exp_minus_1 take_bit_eq_mod)
  ultimately have "push_bit 32 (htonl (x AND (2 ^ 32 - 1))) OR htonl (drop_bit 32 x) =
      htonl (x mod 2 ^ 32) * 2 ^ 32 + htonl (x div 2 ^ 32)"
    by (simp only: push_bit_or drop_bit_eq_div)
  then show ?thesis by (simp add: htonl_def of_le_append)
qed

lemma le_bytes_append: "le_bytes (m + n) x = le_bytes m x @ le_bytes n (x div 256 ^ m)"
proof (induction m arbitrary: x)
  case (Suc m)
  then show ?case by (simp add: div_mult2_eq)
qed simp

lemma le_bytes_mod: "le_bytes n (x mod 256 ^ n) = le_bytes n x"
  using le_bytes_of_le [of "le_bytes n x" n] by simp

lemma be_bytes_halves: "be_bytes 4 (x div 2 ^ 32) @ be_bytes 4 (x mod 2 ^ 32) = be_bytes 8 x"
  using le_bytes_append [of 4 4 x] le_bytes_mod [of 4 x] by (simp add: be_bytes_def)

lemma long_length_out: "le_bytes 8 (push_bit 32 (htonl (x AND (2 ^ 32 - 1))) OR htonl (drop_bit 32 x)) = be_bytes 8 x"
  by (simp only: swap_halves be_bytes_halves) (simp add: le_bytes_of_le)

lemma long_length_in:
  assumes "length bs = 8"
  shows "push_bit 32 (htonl (of_le bs AND (2 ^ 32 - 1))) OR htonl (drop_bit 32 (of_le bs)) = of_be bs"
proof -
  have "be_bytes 8 (of_le bs) = rev bs" using le_bytes_of_le [OF assms] by (simp add: be_bytes_def)
  then show ?thesis by (simp only: swap_halves be_bytes_halves) (simp add: of_le_def)
qed

section \<open>Headers\<close>

definition short_length :: "nat \<Rightarrow> nat" where
  "short_length n = (if n < 126 then n else if n < 65536 then 126 else 127)"

definition long_length :: "nat \<Rightarrow> string" where
  "long_length n = (if n < 126 then [] else if n < 65536 then be_bytes 2 n else be_bytes 8 n)"

lemma build_header_bytes:
  "build_header op n = [char_of (128 + op), char_of (short_length n)] @ long_length n"
  unfolding build_header_def long_length_out by (simp add: short_length_def long_length_def htons_bytes)

text \<open>A whole frame of the server: a last fragment without a mask.\<close>

definition encode_frame :: "nat \<Rightarrow> string \<Rightarrow> string" where
  "encode_frame op data = [char_of (128 + op), char_of (short_length (length data))] @ long_length (length data) @ data"

lemma build_header_frame: "build_header op (length data) @ data = encode_frame op data"
  by (simp add: build_header_bytes encode_frame_def)

section \<open>The mask\<close>

text \<open>Byte \<open>i\<close> of the payload is combined with byte \<open>i mod 4\<close> of the key.\<close>

definition masked :: "string \<Rightarrow> string \<Rightarrow> string" where
  "masked key data = map (\<lambda>(i, c). xor_char c (key ! (i mod 4))) (enumerate 0 data)"

lemma unmask_is_masked: "unmask key data = masked key data"
  by (rule nth_equalityI) (simp_all add: unmask_def masked_def nth_enumerate_eq)

lemma length_unmask [simp]: "length (unmask key data) = length data"
  by (simp add: unmask_def)

lemma xor_char_twice: "xor_char (xor_char a b) b = a"
proof -
  have "(of_char a XOR of_char b :: nat) mod 256 = of_char a XOR of_char b"
    using take_bit_xor [of 8 "of_char a :: nat" "of_char b"] by (simp add: take_bit_eq_mod)
  then show ?thesis by (simp add: xor_char_def xor.assoc)
qed

lemma unmask_twice: "unmask key (unmask key data) = data"
  by (intro nth_equalityI) (simp_all add: unmask_def xor_char_twice)

lemma unmask_masked: "unmask key (masked key data) = data"
  using unmask_twice [of key data] by (simp add: unmask_is_masked)

lemma length_masked [simp]: "length (masked key data) = length data"
  by (simp add: masked_def)

end
