(* ===== verification/WebSocketFrames.thy ===== *)
theory WebSocketFrames
  imports WebSocketBytes
begin

text \<open>
  Reading frames: however the network cuts a frame into reads, as long as its first two bytes
  come together, the connection does what a dialog of whole frames does.
\<close>

section \<open>Frames\<close>

text \<open>A frame as a client sends it; \<open>fr_key\<close> is the mask.\<close>

record frame =
  fr_fin :: bool
  fr_op :: nat
  fr_key :: "string option"
  fr_data :: string

definition frame_ok :: "frame \<Rightarrow> bool" where
  "frame_ok fr \<longleftrightarrow> fr_op fr < 16 \<and> (\<forall>k. fr_key fr = Some k \<longrightarrow> length k = 4) \<and> length (fr_data fr) < 2 ^ 64"

definition frame_head :: "frame \<Rightarrow> string" where
  "frame_head fr =
     [char_of ((if fr_fin fr then 128 else 0) + fr_op fr),
      char_of ((if fr_key fr = None then 0 else 128) + short_length (length (fr_data fr)))]"

definition frame_body :: "frame \<Rightarrow> string" where
  "frame_body fr = (case fr_key fr of None \<Rightarrow> fr_data fr | Some k \<Rightarrow> masked k (fr_data fr))"

text \<open>A payload cut into reads. The read of an empty payload gives no bytes.\<close>

definition chunks :: "string \<Rightarrow> string list \<Rightarrow> bool" where
  "chunks d cs \<longleftrightarrow> concat cs = d \<and> (if d = [] then cs = [[]] else \<forall>c\<in>set cs. c \<noteq> [] \<and> length c \<le> buffer_size)"

definition frame_reads :: "frame \<Rightarrow> string list \<Rightarrow> string list" where
  "frame_reads fr cs =
     frame_head fr # (let l = long_length (length (fr_data fr)) in if l = [] then [] else [l]) @
     (case fr_key fr of None \<Rightarrow> [] | Some k \<Rightarrow> [k]) @ cs"

text \<open>Reads in a row; \<open>None\<close> if a read does not fit what the connection waits for.\<close>

fun receive :: "string list \<Rightarrow> ws \<Rightarrow> ws res option" where
  "receive [] s = Some (Inr s)"
| "receive (bs # rs) s =
     (if read_fits s bs then (case on_read bs s of Inl e \<Rightarrow> Some (Inl e) | Inr t \<Rightarrow> receive rs t) else None)"

lemma receive_append:
  "receive (rs @ rs') s = (case receive rs s of Some (Inr t) \<Rightarrow> receive rs' t | r \<Rightarrow> r)"
  by (induction rs arbitrary: s) (auto split: sum.splits)

section \<open>The steps of the machine\<close>

declare do_read.simps [simp del]

definition both_closed :: "ws \<Rightarrow> bool" where
  "both_closed s \<longleftrightarrow> ws_sent_close s \<and> ws_recv_close s"

lemma do_read_MiniHeader:
  "ws_state s = MiniHeader \<Longrightarrow> \<not> both_closed s \<Longrightarrow>
   do_read s = s\<lparr>ws_reading := True, ws_mini := 0, ws_wants := Some (False, 2)\<rparr>"
  by (subst do_read.simps) (auto simp: both_closed_def wait_some_def)

lemma do_read_Len16:
  "ws_state s = Len16 \<Longrightarrow> \<not> both_closed s \<Longrightarrow>
   do_read s = s\<lparr>ws_reading := True, ws_remaining := 0, ws_wants := Some (True, 2)\<rparr>"
  by (subst do_read.simps) (auto simp: both_closed_def wait_all_def)

lemma do_read_Len64:
  "ws_state s = Len64 \<Longrightarrow> \<not> both_closed s \<Longrightarrow> do_read s = s\<lparr>ws_reading := True, ws_wants := Some (True, 8)\<rparr>"
  by (subst do_read.simps) (auto simp: both_closed_def wait_all_def)

lemma do_read_Payload:
  "ws_state s = Payload \<Longrightarrow> \<not> both_closed s \<Longrightarrow>
   do_read s = s\<lparr>ws_reading := True, ws_wants := Some (False, min buffer_size (ws_remaining s))\<rparr>"
  by (subst do_read.simps) (auto simp: both_closed_def wait_some_def)

lemma do_read_Mask:
  "ws_state s = Mask \<Longrightarrow> \<not> both_closed s \<Longrightarrow> ws_remaining s \<le> ws_max s \<Longrightarrow>
   do_read s =
     (if ws_has_mask s then s\<lparr>ws_reading := True, ws_wants := Some (True, 4)\<rparr>
      else s\<lparr>ws_state := Payload, ws_reading := True, ws_wants := Some (False, min buffer_size (ws_remaining s))\<rparr>)"
  by (subst do_read.simps) (auto simp: both_closed_def wait_all_def do_read_Payload)

lemma both_closed_update [simp]:
  "both_closed (s\<lparr>ws_state := a\<rparr>) = both_closed s" "both_closed (s\<lparr>ws_reading := b\<rparr>) = both_closed s"
  "both_closed (s\<lparr>ws_wants := c\<rparr>) = both_closed s" "both_closed (s\<lparr>ws_mini := d\<rparr>) = both_closed s"
  "both_closed (s\<lparr>ws_has_mask := b\<rparr>) = both_closed s" "both_closed (s\<lparr>ws_mask := k\<rparr>) = both_closed s"
  "both_closed (s\<lparr>ws_remaining := d\<rparr>) = both_closed s" "both_closed (s\<lparr>ws_fragment := k\<rparr>) = both_closed s"
  by (simp_all add: both_closed_def)

lemmas do_read_step = do_read_MiniHeader do_read_Len16 do_read_Len64 do_read_Payload do_read_Mask

section \<open>The header\<close>

lemma and_flag: "x AND 128 = 128 \<longleftrightarrow> odd (x div (128 :: nat))" "x AND 0x8000 \<noteq> 0 \<longleftrightarrow> odd (x div (32768 :: nat))"
  using and_bit [of x 7] and_bit [of x 15] by (simp_all add: bit_iff_odd split: if_splits)

lemma and_opcode: "drop_bit 8 (x AND 0x0f00) = x div 256 mod (16 :: nat)"
proof -
  have "drop_bit 8 (x AND 0x0f00) = drop_bit 8 x AND drop_bit 8 0x0f00" by (rule drop_bit_and)
  then show ?thesis by (simp add: and_low) (simp add: drop_bit_eq_div)
qed

lemma short_length_less: "short_length n < 128"
  by (simp add: short_length_def)

lemma head_value:
  "fr_op fr < 16 \<Longrightarrow> htons (of_le (frame_head fr)) =
     256 * ((if fr_fin fr then 128 else 0) + fr_op fr) +
     ((if fr_key fr = None then 0 else 128) + short_length (length (fr_data fr)))"
  using short_length_less [of "length (fr_data fr)"] ntohs_bytes [of "frame_head fr"]
  by (simp add: frame_head_def of_be_def of_char_of_mod)

lemma head_bits:
  assumes "fr_op fr < 16" "m = htons (of_le (frame_head fr))"
  shows "m AND 0x80 = 0x80 \<longleftrightarrow> fr_key fr \<noteq> None" "m AND 0x7f = short_length (length (fr_data fr))"
    "m AND 0x8000 \<noteq> 0 \<longleftrightarrow> fr_fin fr" "drop_bit 8 (m AND 0x0f00) = fr_op fr"
proof -
  let ?a = "(if fr_fin fr then 128 else 0) + fr_op fr" and ?b = "if fr_key fr = None then 0 else 128 :: nat"
  let ?l = "short_length (length (fr_data fr))"
  have l: "?l < 128" by (rule short_length_less)
  have m: "m = 256 * ?a + (?b + ?l)" using head_value assms by simp
  have split: "m = ?l + 128 * (2 * ?a + (if fr_key fr = None then 0 else 1))" unfolding m by simp
  then have "m div 128 = 2 * ?a + (if fr_key fr = None then 0 else 1)" using l by (simp only: div_mult_self2 div_less)
  then show "m AND 0x80 = 0x80 \<longleftrightarrow> fr_key fr \<noteq> None" by (simp add: and_flag)
  have "m mod 128 = ?l" using split l by (simp only: mod_mult_self2 mod_less)
  then show "m AND 0x7f = ?l" by (simp add: and_low)
  have "m = (?b + ?l) + 256 * ?a" unfolding m by simp
  moreover have "?b + ?l < 256" using l by simp
  ultimately have hi: "m div 256 = ?a" by (simp only: div_mult_self2 div_less)
  then have "m div 32768 = (if fr_fin fr then 1 else 0)"
    using assms(1) div_mult2_eq [of m 256 128] by simp
  then show "m AND 0x8000 \<noteq> 0 \<longleftrightarrow> fr_fin fr" by (subst and_flag(2)) simp
  have "?a mod 16 = fr_op fr" using assms(1) mod_mult_self3 [of 8 16 "fr_op fr"] by simp
  with hi show "drop_bit 8 (m AND 0x0f00) = fr_op fr" by (subst and_opcode) simp
qed

section \<open>The reads of a frame\<close>

text \<open>Between two frames.\<close>

definition idle :: "ws \<Rightarrow> bool" where
  "idle s \<longleftrightarrow> ws_state s = MiniHeader \<and> ws_fragment s = [] \<and> ws_wants s = Some (False, 2) \<and> ws_reading s \<and>
     \<not> both_closed s"

definition at_payload :: "frame \<Rightarrow> ws \<Rightarrow> ws" where
  "at_payload fr s =
     s\<lparr>ws_state := Payload, ws_mini := htons (of_le (frame_head fr)), ws_has_mask := (fr_key fr \<noteq> None),
       ws_mask := (case fr_key fr of None \<Rightarrow> ws_mask s | Some k \<Rightarrow> k), ws_remaining := length (fr_data fr),
       ws_reading := True, ws_wants := Some (False, min buffer_size (length (fr_data fr)))\<rparr>"

lemma length_head [simp]: "length (frame_head fr) = 2"
  by (simp add: frame_head_def)

lemma head_not_Nil [simp]: "frame_head fr \<noteq> []"
  by (simp add: frame_head_def)

lemma long_length_cases:
  assumes "n < 2 ^ 64"
  obtains "short_length n = n" "n < 126" "long_length n = []"
  | "short_length n = 126" "length (long_length n) = 2" "long_length n \<noteq> []" "of_be (long_length n) = n"
  | "short_length n = 127" "length (long_length n) = 8" "long_length n \<noteq> []" "of_be (long_length n) = n"
proof (cases "n < 126")
  case True
  then show ?thesis by (intro that(1)) (simp_all add: short_length_def long_length_def)
next
  case big: False
  have nonempty: "be_bytes 2 n \<noteq> []" "be_bytes 8 n \<noteq> []"
    using length_bytes(2) [of 2 n] length_bytes(2) [of 8 n] by (auto simp del: length_bytes)
  show ?thesis
  proof (cases "n < 65536")
    case True
    with big nonempty show ?thesis by (intro that(2)) (simp_all add: short_length_def long_length_def)
  next
    case False
    with big assms nonempty show ?thesis by (intro that(3)) (simp_all add: short_length_def long_length_def)
  qed
qed

lemma mask_read:
  assumes "ws_state s = Mask" "\<not> both_closed s" "ws_remaining s = length (fr_data fr)" "length (fr_data fr) \<le> ws_max s"
    and "ws_has_mask s = (fr_key fr \<noteq> None)" "ws_mini s = htons (of_le (frame_head fr))" "frame_ok fr"
  shows "receive (case fr_key fr of None \<Rightarrow> [] | Some k \<Rightarrow> [k]) (do_read s) = Some (Inr (at_payload fr s))"
proof (cases "fr_key fr")
  case None
  with assms show ?thesis by (simp add: do_read_Mask at_payload_def)
next
  case (Some k)
  with assms show ?thesis
    by (simp add: do_read_Mask at_payload_def read_fits_def on_read_def on_mask_def do_read_Payload frame_ok_def)
qed

definition length_reads :: "frame \<Rightarrow> string list" where
  "length_reads fr = frame_head fr # (let l = long_length (length (fr_data fr)) in if l = [] then [] else [l])"

definition at_mask :: "frame \<Rightarrow> ws \<Rightarrow> ws" where
  "at_mask fr s =
     s\<lparr>ws_reading := False, ws_wants := None, ws_mini := htons (of_le (frame_head fr)), ws_has_mask := (fr_key fr \<noteq> None),
       ws_remaining := length (fr_data fr), ws_state := Mask\<rparr>"

lemma length_read:
  assumes "idle s" "frame_ok fr"
  shows "receive (length_reads fr) s = Some (Inr (do_read (at_mask fr s)))"
proof -
  let ?n = "length (fr_data fr)"
  let ?s = "s\<lparr>ws_reading := False, ws_wants := None, ws_mini := htons (of_le (frame_head fr)), ws_has_mask := (fr_key fr \<noteq> None)\<rparr>"
  have ok: "fr_op fr < 16" "?n < 2 ^ 64" using assms(2) by (simp_all add: frame_ok_def)
  have idle: "ws_state s = MiniHeader" "ws_wants s = Some (False, 2)" "\<not> both_closed s" using assms(1) by (simp_all add: idle_def)
  have head: "read_fits s (frame_head fr)" using idle by (auto simp: read_fits_def)
  have first: "on_read (frame_head fr) s = Inr (do_read
      (if short_length ?n = 127 then ?s\<lparr>ws_state := Len64\<rparr> else if short_length ?n = 126 then ?s\<lparr>ws_state := Len16\<rparr>
       else ?s\<lparr>ws_remaining := short_length ?n, ws_state := Mask\<rparr>))"
    using idle head_bits(1,2) [OF ok(1) refl] by (simp add: on_read_def on_mini_header_def Let_def)
  show ?thesis
  proof (cases rule: long_length_cases [OF ok(2)])
    case 1
    then show ?thesis using head first by (simp add: length_reads_def at_mask_def)
  next
    case 2
    let ?t = "?s\<lparr>ws_state := Len16, ws_reading := True, ws_remaining := 0, ws_wants := Some (True, 2)\<rparr>"
    have "on_read (long_length ?n) ?t = Inr (do_read (at_mask fr s))"
      using 2 by (simp add: on_read_def on_len16_def ntohs_bytes at_mask_def) (intro arg_cong [of _ _ do_read] ws.equality; simp)
    then show ?thesis
      using 2 head first idle by (simp add: length_reads_def do_read_Len16 read_fits_def Let_def)
  next
    case 3
    let ?t = "?s\<lparr>ws_state := Len64, ws_reading := True, ws_wants := Some (True, 8)\<rparr>"
    have "on_read (long_length ?n) ?t = Inr (do_read (at_mask fr s))"
      using 3 long_length_in [of "long_length ?n"]
      by (simp add: on_read_def on_len64_def Let_def at_mask_def) (intro arg_cong [of _ _ do_read] ws.equality; simp)
    then show ?thesis
      using 3 head first idle by (simp add: length_reads_def do_read_Len64 read_fits_def Let_def)
  qed
qed

lemma header_read:
  assumes "idle s" "frame_ok fr" "length (fr_data fr) \<le> ws_max s"
  shows "receive (frame_reads fr []) s = Some (Inr (at_payload fr s))"
proof -
  have "at_payload fr (at_mask fr s) = at_payload fr s"
    by (simp add: at_payload_def at_mask_def split: option.split)
  then have "receive (case fr_key fr of None \<Rightarrow> [] | Some k \<Rightarrow> [k]) (do_read (at_mask fr s)) = Some (Inr (at_payload fr s))"
    using mask_read [of "at_mask fr s" fr] assms by (simp add: at_mask_def idle_def)
  moreover have "frame_reads fr [] = length_reads fr @ (case fr_key fr of None \<Rightarrow> [] | Some k \<Rightarrow> [k])"
    by (simp add: frame_reads_def length_reads_def Let_def)
  ultimately show ?thesis
    using length_read [OF assms(1,2)] by (simp add: receive_append)
qed

text \<open>The last read of a payload.\<close>

definition end_of_frame :: "ws \<Rightarrow> ws res" where
  "end_of_frame s =
     bind_res (handle_fragment s) (\<lambda>(go_on, s). Inr (if go_on then do_read (s\<lparr>ws_state := MiniHeader\<rparr>) else s))"

lemma payload_read:
  "ws_state s = Payload \<Longrightarrow> ws_wants s = Some (False, min buffer_size (ws_remaining s)) \<Longrightarrow> \<not> both_closed s \<Longrightarrow>
   chunks d cs \<Longrightarrow> ws_remaining s = length d \<Longrightarrow>
   receive cs s = (case end_of_frame (s\<lparr>ws_reading := False, ws_wants := None, ws_fragment := ws_fragment s @ d, ws_remaining := 0\<rparr>)
                   of Inl e \<Rightarrow> Some (Inl e) | Inr t \<Rightarrow> Some (Inr t))"
proof (induction cs arbitrary: s d)
  case Nil
  then show ?case by (auto simp: chunks_def split: if_splits)
next
  case (Cons c cs)
  have fits: "read_fits s c"
    using Cons.prems by (auto simp: chunks_def read_fits_def split: if_splits)
  show ?case
  proof (cases "cs = []")
    case True
    then have "c = d" using Cons.prems(4) by (auto simp: chunks_def split: if_splits)
    with True fits Cons.prems(1,5) show ?thesis
      by (simp add: on_read_def on_payload_def end_of_frame_def split: sum.split)
  next
    case False
    then have d: "d = c @ concat cs" "d \<noteq> []" "c \<noteq> []" "\<forall>c\<in>set cs. c \<noteq> [] \<and> length c \<le> buffer_size"
      using Cons.prems(4) by (auto simp: chunks_def split: if_splits)
    then have rest: "concat cs \<noteq> []" using False by (cases cs) auto
    let ?s = "s\<lparr>ws_reading := False, ws_wants := None, ws_fragment := ws_fragment s @ c, ws_remaining := ws_remaining s - length c\<rparr>"
    have len: "ws_remaining s - length c = length (concat cs)" using Cons.prems(5) d(1) by simp
    have "on_read c s = Inr (do_read ?s)"
      using Cons.prems(1) rest len by (auto simp: on_read_def on_payload_def Let_def)
    moreover have "do_read ?s = ?s\<lparr>ws_reading := True, ws_wants := Some (False, min buffer_size (length (concat cs)))\<rparr>"
      using Cons.prems(1,3) len by (simp add: do_read_Payload)
    moreover have "chunks (concat cs) cs" using d(4) rest by (auto simp: chunks_def)
    ultimately show ?thesis
      using Cons.IH [of "do_read ?s" "concat cs"] Cons.prems(1,3) fits len d(1) by simp
  qed
qed

text \<open>A frame of an idle connection, up to the function that handles its payload.\<close>

definition at_end :: "frame \<Rightarrow> ws \<Rightarrow> ws" where
  "at_end fr s =
     (at_payload fr s)\<lparr>ws_reading := False, ws_wants := None, ws_fragment := frame_body fr, ws_remaining := 0\<rparr>"

lemma length_body: "length (frame_body fr) = length (fr_data fr)"
  by (simp add: frame_body_def split: option.split)

lemma frame_read:
  assumes "idle s" "frame_ok fr" "length (fr_data fr) \<le> ws_max s" "chunks (frame_body fr) cs"
  shows "receive (frame_reads fr cs) s =
    (case end_of_frame (at_end fr s) of Inl e \<Rightarrow> Some (Inl e) | Inr t \<Rightarrow> Some (Inr t))"
proof -
  have "receive (frame_reads fr cs) s = receive cs (at_payload fr s)"
    using header_read [OF assms(1-3)] receive_append [of "frame_reads fr []" cs s] by (simp add: frame_reads_def Let_def)
  also have "\<dots> = (case end_of_frame (at_end fr s) of Inl e \<Rightarrow> Some (Inl e) | Inr t \<Rightarrow> Some (Inr t))"
    using payload_read [of "at_payload fr s" "frame_body fr" cs] assms(1,4)
    by (simp add: at_payload_def at_end_def idle_def length_body)
  finally show ?thesis .
qed

lemma at_end_bits:
  assumes "frame_ok fr"
  shows "is_FIN (at_end fr s) = fr_fin fr" "opcode (at_end fr s) = fr_op fr"
  using head_bits [OF _ refl, of fr] assms
  by (simp_all add: frame_ok_def is_FIN_def opcode_def at_end_def at_payload_def)

lemma at_end_unmasked:
  "(if ws_has_mask (at_end fr s) then (at_end fr s)\<lparr>ws_fragment := unmask (ws_mask (at_end fr s)) (ws_fragment (at_end fr s))\<rparr>
    else at_end fr s) = (at_end fr s)\<lparr>ws_fragment := fr_data fr\<rparr>"
  by (simp add: at_end_def at_payload_def frame_body_def unmask_masked split: option.split)

section \<open>The dialog\<close>

text \<open>What is left when the reading is abstracted away, and what a frame does to it.\<close>

record dialog =
  d_binary :: "bool option"
  d_message :: string
  d_calls :: "handler_call list"
  d_posted :: "task list"
  d_pong :: bool

definition dialog_of :: "ws \<Rightarrow> dialog" where
  "dialog_of s = \<lparr> d_binary = ws_binary s, d_message = ws_message s, d_calls = ws_calls s,
     d_posted = ws_posted s, d_pong = ws_pong s \<rparr>"

text \<open>A data frame adds to the message, and the last one delivers it.\<close>

definition add_data :: "frame \<Rightarrow> bool option \<Rightarrow> dialog \<Rightarrow> dialog option" where
  "add_data fr kind d =
     (let msg = d_message d @ fr_data fr
      in if fr_fin fr
         then map_option (\<lambda>b. d\<lparr>d_binary := kind, d_message := [], d_calls := d_calls d @ [Message msg b]\<rparr>) kind
         else Some (d\<lparr>d_binary := kind, d_message := msg\<rparr>))"

definition accept :: "frame \<Rightarrow> dialog \<Rightarrow> dialog option" where
  "accept fr d =
     (if fr_op fr = 0 then add_data fr (d_binary d) d
      else if fr_op fr = 1 then add_data fr (Some False) d
      else if fr_op fr = 2 then add_data fr (Some True) d
      else if fr_op fr = 9 then Some (d\<lparr>d_posted := d_posted d @ [Send 10 (fr_data fr)]\<rparr>)
      else if fr_op fr = 10 then Some (d\<lparr>d_pong := True\<rparr>)
      else Some d)"

text \<open>The parts of a connection that reading leaves alone.\<close>

definition same_rest :: "ws \<Rightarrow> ws \<Rightarrow> bool" where
  "same_rest s t \<longleftrightarrow> ws_max t = ws_max s \<and> ws_closing t = ws_closing s \<and> ws_sent_close t = ws_sent_close s \<and>
     ws_recv_close t = ws_recv_close s \<and> ws_close_called t = ws_close_called s \<and> ws_sending t = ws_sending s \<and>
     ws_write t = ws_write s \<and> ws_written t = ws_written s \<and> ws_deleted t = ws_deleted s"

lemma end_of_data_frame:
  assumes "frame_ok fr" "fr_op fr \<noteq> 8" "\<not> both_closed s" "accept fr (dialog_of s) = Some d"
  shows "\<exists>t. end_of_frame (at_end fr s) = Inr t \<and> idle t \<and> dialog_of t = d \<and> same_rest s t"
proof -
  let ?u = "(at_end fr s)\<lparr>ws_fragment := fr_data fr\<rparr>"
  have bits: "is_FIN ?u = fr_fin fr" "opcode ?u = fr_op fr"
    using at_end_bits [OF assms(1), of s] by (simp_all add: is_FIN_def opcode_def)
  have "\<exists>v. handle_fragment (at_end fr s) = Inr (True, v) \<and> ws_fragment v = [] \<and> dialog_of v = d \<and> same_rest s v"
    unfolding handle_fragment_def at_end_unmasked Let_def
    using assms(2,4) bits
    by (auto simp: accept_def add_data_def Let_def end_fragment_def is_FIN_def opcode_def dialog_of_def same_rest_def
        at_end_def at_payload_def call_handler_def send_pong_def send_data_def split: option.splits if_splits)
  then obtain v where v: "handle_fragment (at_end fr s) = Inr (True, v)" "ws_fragment v = []" "dialog_of v = d" "same_rest s v"
    by blast
  then have "\<not> both_closed v" using assms(3) by (simp add: same_rest_def both_closed_def)
  with v show ?thesis
    by (simp add: end_of_frame_def do_read_MiniHeader idle_def dialog_of_def same_rest_def)
qed

end
