(* ===== verification/WebSocketFacts.thy ===== *)
theory WebSocketFacts
  imports WebSocketFrames
begin

text \<open>
  A connection as a whole: the dialog of frames it implements, messages in fragments, the
  closing handshake, and what goes wrong at its edges.
\<close>

section \<open>Sessions of frames\<close>

definition all_reads :: "(frame \<times> string list) list \<Rightarrow> string list" where
  "all_reads fcs = concat (map (\<lambda>(fr, cs). frame_reads fr cs) fcs)"

definition frames_fit :: "nat \<Rightarrow> (frame \<times> string list) list \<Rightarrow> bool" where
  "frames_fit n fcs \<longleftrightarrow> (\<forall>(fr, cs)\<in>set fcs. frame_ok fr \<and> fr_op fr \<noteq> 8 \<and> length (fr_data fr) \<le> n \<and> chunks (frame_body fr) cs)"

fun accept_all :: "frame list \<Rightarrow> dialog \<Rightarrow> dialog option" where
  "accept_all [] d = Some d"
| "accept_all (fr # frs) d = (case accept fr d of None \<Rightarrow> None | Some e \<Rightarrow> accept_all frs e)"

lemma same_rest_trans: "same_rest s t \<Longrightarrow> same_rest t u \<Longrightarrow> same_rest s u"
  by (simp add: same_rest_def)

lemma same_rest_refl [simp]: "same_rest s s"
  by (simp add: same_rest_def)

lemma frames_are_read:
  "idle s \<Longrightarrow> frames_fit (ws_max s) fcs \<Longrightarrow> accept_all (map fst fcs) (dialog_of s) = Some d \<Longrightarrow>
   \<exists>t. receive (all_reads fcs) s = Some (Inr t) \<and> idle t \<and> dialog_of t = d \<and> same_rest s t"
proof (induction fcs arbitrary: s)
  case Nil
  then show ?case by (simp add: all_reads_def)
next
  case (Cons fc fcs)
  obtain fr cs where fc: "fc = (fr, cs)" by (cases fc)
  then have fit: "frame_ok fr" "fr_op fr \<noteq> 8" "length (fr_data fr) \<le> ws_max s" "chunks (frame_body fr) cs"
    "frames_fit (ws_max s) fcs"
    using Cons.prems(2) by (auto simp: frames_fit_def)
  obtain e where e: "accept fr (dialog_of s) = Some e" "accept_all (map fst fcs) e = Some d"
    using Cons.prems(3) fc by (auto split: option.splits)
  have "\<not> both_closed s" using Cons.prems(1) by (simp add: idle_def)
  then obtain t where t: "end_of_frame (at_end fr s) = Inr t" "idle t" "dialog_of t = e" "same_rest s t"
    using end_of_data_frame [OF fit(1,2) _ e(1)] by blast
  have "receive (frame_reads fr cs) s = Some (Inr t)"
    using frame_read [OF Cons.prems(1) fit(1,3,4)] t(1) by simp
  moreover have "frames_fit (ws_max t) fcs" using fit(5) t(4) by (simp add: same_rest_def)
  then obtain u where "receive (all_reads fcs) t = Some (Inr u)" "idle u" "dialog_of u = d" "same_rest t u"
    using Cons.IH [OF t(2)] t(3) e(2) by blast
  ultimately show ?case
    using t(4) fc same_rest_trans [of s t u] by (auto simp: all_reads_def receive_append)
qed

text \<open>C6: Reading refines the dialog of whole frames: whatever the sequence of data, ping and pong
  frames, and however the network cuts their payloads into reads, each read fits what the
  connection waits for, and the message under way, the calls of the message handler and the
  posted pongs are those of the dialog; nothing else changes.\<close>

theorem reading_refines_dialog:
  assumes "idle s" "frames_fit (ws_max s) fcs" "accept_all (map fst fcs) (dialog_of s) = Some d"
  shows "\<exists>t. receive (all_reads fcs) s = Some (Inr t) \<and> idle t \<and> dialog_of t = d \<and> same_rest s t"
  using assms by (rule frames_are_read)

text \<open>A connection whose handshake has been written.\<close>

definition example_ws :: ws where
  "example_ws = (fresh_ws 100 [])\<lparr>ws_reading := True, ws_wants := Some (False, 2)\<rparr>"

lemma example_idle: "idle example_ws"
  by (simp add: example_ws_def fresh_ws_def idle_def both_closed_def)

definition example_frame :: "nat \<Rightarrow> bool \<Rightarrow> string \<Rightarrow> frame" where
  "example_frame op fin data = \<lparr> fr_fin = fin, fr_op = op, fr_key = Some ''abcd'', fr_data = data \<rparr>"

lemma example_chunks:
  "data \<noteq> [] \<Longrightarrow> length data \<le> buffer_size \<Longrightarrow>
   chunks (frame_body (example_frame op fin data)) [frame_body (example_frame op fin data)]"
  using length_body [of "example_frame op fin data"] by (auto simp: chunks_def example_frame_def)

theorem reading_refines_dialog_witness:
  "\<exists>t. receive (all_reads [(example_frame 1 True ''hi'', [frame_body (example_frame 1 True ''hi'')])]) example_ws = Some (Inr t) \<and>
    ws_calls t = [Message ''hi'' False]"
proof -
  let ?fr = "example_frame 1 True ''hi''"
  have fit: "frames_fit (ws_max example_ws) [(?fr, [frame_body ?fr])]"
    using example_chunks [of "''hi''" 1 True] by (simp add: frames_fit_def frame_ok_def example_frame_def example_ws_def fresh_ws_def buffer_size_def)
  have "\<exists>d. accept_all (map fst [(?fr, [frame_body ?fr])]) (dialog_of example_ws) = Some d \<and> d_calls d = [Message ''hi'' False]"
    by (simp add: accept_def add_data_def example_frame_def dialog_of_def example_ws_def fresh_ws_def)
  then obtain d where "accept_all (map fst [(?fr, [frame_body ?fr])]) (dialog_of example_ws) = Some d" "d_calls d = [Message ''hi'' False]"
    by blast
  with reading_refines_dialog [OF example_idle fit] show ?thesis by (auto simp: dialog_of_def)
qed

section \<open>Messages in fragments\<close>

definition control :: "frame \<Rightarrow> bool" where
  "control fr \<longleftrightarrow> fr_op fr = 9 \<or> fr_op fr = 10"

text \<open>The rest of a message, up to its last fragment, with pings and pongs in between.\<close>

fun continues :: "frame list \<Rightarrow> bool" where
  "continues [] = False"
| "continues (fr # frs) =
     (if control fr then continues frs else fr_op fr = 0 \<and> (if fr_fin fr then frs = [] else continues frs))"

fun is_message :: "bool \<Rightarrow> frame list \<Rightarrow> bool" where
  "is_message b [] = False"
| "is_message b (fr # frs) = (fr_op fr = (if b then 2 else 1) \<and> (if fr_fin fr then frs = [] else continues frs))"

definition data_of :: "frame list \<Rightarrow> string" where
  "data_of frs = concat (map fr_data (filter (\<lambda>fr. \<not> control fr) frs))"

definition pongs_of :: "frame list \<Rightarrow> task list" where
  "pongs_of frs = map (\<lambda>fr. Send 10 (fr_data fr)) (filter (\<lambda>fr. fr_op fr = 9) frs)"

lemma continues_accepted:
  "continues frs \<Longrightarrow> d_binary d = Some b \<Longrightarrow>
   \<exists>e. accept_all frs d = Some e \<and> d_calls e = d_calls d @ [Message (d_message d @ data_of frs) b] \<and>
     d_message e = [] \<and> d_posted e = d_posted d @ pongs_of frs"
proof (induction frs arbitrary: d)
  case (Cons fr frs)
  show ?case
  proof (cases "control fr")
    case True
    then obtain e where "accept fr d = Some e" "d_binary e = Some b" "d_calls e = d_calls d" "d_message e = d_message d"
      "d_posted e = d_posted d @ pongs_of [fr]"
      using Cons.prems(2) by (auto simp: control_def accept_def pongs_of_def)
    moreover have "continues frs" using True Cons.prems(1) by simp
    ultimately show ?thesis
      using Cons.IH [of e] True by (auto simp: data_of_def pongs_of_def)
  next
    case False
    then have op: "fr_op fr = 0" "if fr_fin fr then frs = [] else continues frs" using Cons.prems(1) by simp_all
    then show ?thesis
      using Cons.IH [of "d\<lparr>d_binary := Some b, d_message := d_message d @ fr_data fr\<rparr>"] Cons.prems(2) False
      by (cases "fr_fin fr") (auto simp: accept_def add_data_def data_of_def pongs_of_def)
  qed
qed simp

text \<open>C19: A message in fragments, masked or not, with pings and pongs between them, is delivered once,
  when its last fragment has come: the payloads joined in order, as text or binary by the
  first fragment; every ping is answered with its own payload, in order.\<close>

theorem fragments_are_joined:
  assumes "idle s" "ws_message s = []" "is_message b (map fst fcs)" "frames_fit (ws_max s) fcs"
  shows "\<exists>t. receive (all_reads fcs) s = Some (Inr t) \<and> idle t \<and> ws_message t = [] \<and>
    ws_calls t = ws_calls s @ [Message (data_of (map fst fcs)) b] \<and> ws_posted t = ws_posted s @ pongs_of (map fst fcs)"
proof -
  obtain fr frs where frs: "map fst fcs = fr # frs" using assms(3) by (cases "map fst fcs") auto
  then have first: "fr_op fr = (if b then 2 else 1)" "if fr_fin fr then frs = [] else continues frs" using assms(3) by simp_all
  let ?d = "(dialog_of s)\<lparr>d_binary := Some b, d_message := fr_data fr\<rparr>"
  have "\<exists>d. accept_all (map fst fcs) (dialog_of s) = Some d \<and> d_message d = [] \<and>
      d_calls d = ws_calls s @ [Message (data_of (map fst fcs)) b] \<and> d_posted d = ws_posted s @ pongs_of (map fst fcs)"
  proof (cases "fr_fin fr")
    case True
    with first assms(2) show ?thesis
      by (simp add: frs accept_def add_data_def dialog_of_def data_of_def pongs_of_def control_def)
  next
    case False
    with first continues_accepted [of frs ?d b] assms(2) show ?thesis
      by (auto simp: frs accept_def add_data_def dialog_of_def data_of_def pongs_of_def control_def)
  qed
  then obtain d where d: "accept_all (map fst fcs) (dialog_of s) = Some d" "d_message d = []"
    "d_calls d = ws_calls s @ [Message (data_of (map fst fcs)) b]" "d_posted d = ws_posted s @ pongs_of (map fst fcs)"
    by blast
  from frames_are_read [OF assms(1,4) d(1)] d(2-) show ?thesis by (auto simp: dialog_of_def)
qed

theorem fragments_are_joined_witness:
  "\<exists>t fcs. receive (all_reads fcs) example_ws = Some (Inr t) \<and> ws_calls t = [Message ''abc'' True] \<and> ws_posted t = [Send 10 ''p'']"
proof -
  let ?frs = "[example_frame 2 False ''ab'', example_frame 9 True ''p'', example_frame 0 True ''c'']"
  let ?fcs = "map (\<lambda>fr. (fr, [frame_body fr])) ?frs"
  have "frames_fit (ws_max example_ws) ?fcs"
    using example_chunks [of "''ab''"] example_chunks [of "''p''"] example_chunks [of "''c''"]
    by (simp add: frames_fit_def frame_ok_def example_frame_def example_ws_def fresh_ws_def buffer_size_def)
  moreover have "is_message True (map fst ?fcs)" by (simp add: example_frame_def control_def)
  moreover have "data_of (map fst ?fcs) = ''abc''" "pongs_of (map fst ?fcs) = [Send 10 ''p'']"
    by (simp_all add: data_of_def pongs_of_def example_frame_def control_def)
  ultimately show ?thesis
    using fragments_are_joined [OF example_idle, of True ?fcs] by (auto simp: example_ws_def fresh_ws_def)
qed

end
