(* ===== verification/WebSocketClose.thy ===== *)
theory WebSocketClose
  imports WebSocketFacts
begin

text \<open>The end of a connection: the handshake of close frames, failures, and its deletion.\<close>

section \<open>The closing handshake\<close>

definition is_close_frame :: "frame \<Rightarrow> nat \<Rightarrow> string \<Rightarrow> bool" where
  "is_close_frame fr code reason \<longleftrightarrow>
     frame_ok fr \<and> fr_op fr = 8 \<and> fr_data fr = be_bytes 2 code @ reason \<and> code < 65536"

lemma at_end_frame [simp]:
  "ws_sent_close (at_end fr s) = ws_sent_close s" "ws_recv_close (at_end fr s) = ws_recv_close s"
  "ws_close_called (at_end fr s) = ws_close_called s" "ws_sending (at_end fr s) = ws_sending s"
  "ws_write (at_end fr s) = ws_write s" "ws_written (at_end fr s) = ws_written s" "ws_calls (at_end fr s) = ws_calls s"
  "ws_deleted (at_end fr s) = ws_deleted s" "ws_reading (at_end fr s) = False" "ws_removed (at_end fr s) = ws_removed s"
  by (simp_all add: at_end_def at_payload_def)

lemma close_frame_handled:
  assumes "is_close_frame fr code reason"
  shows "handle_fragment (at_end fr s) =
    (let (go_on, t) =
       (let u = (at_end fr s)\<lparr>ws_fragment := fr_data fr, ws_recv_close := True\<rparr>
        in if \<not> ws_sent_close s then (True, do_close reason code u)
           else let u = u\<lparr>ws_closing := True\<rparr>;
                    u = (if \<not> ws_close_called u then (call_handler (Closed reason code) u)\<lparr>ws_close_called := True\<rparr> else u)
                in (False, check_destroy ClosedAbnormally (close_socket u)))
     in Inr (go_on, if go_on then t\<lparr>ws_fragment := []\<rparr> else t))"
proof -
  have fr: "frame_ok fr" "fr_op fr = 8" "fr_data fr = be_bytes 2 code @ reason" "code < 65536"
    using assms by (simp_all add: is_close_frame_def)
  have "opcode ((at_end fr s)\<lparr>ws_fragment := fr_data fr\<rparr>) = 8"
    using at_end_bits(2) [OF fr(1), of s] fr(2) by (simp add: opcode_def)
  moreover have "htons (of_le (take 2 (fr_data fr))) = code" "2 \<le> length (fr_data fr)" "drop 2 (fr_data fr) = reason"
    using fr(3,4) by (simp_all add: ntohs_bytes)
  ultimately show ?thesis
    unfolding handle_fragment_def at_end_unmasked Let_def
    by (simp add: close_fragment_def ws_close_def Let_def)
qed


definition example_close :: frame where
  "example_close = \<lparr> fr_fin = True, fr_op = 8, fr_key = Some ''abcd'', fr_data = be_bytes 2 1000 @ ''bye'' \<rparr>"

lemma example_is_close: "is_close_frame example_close 1000 ''bye''"
  by (simp add: is_close_frame_def example_close_def frame_ok_def)

lemma example_close_chunks: "chunks (frame_body example_close) [frame_body example_close]"
proof -
  have len: "length (frame_body example_close) = 5" unfolding length_body by (simp add: example_close_def)
  then have "frame_body example_close \<noteq> []" by auto
  with len show ?thesis by (simp add: chunks_def buffer_size_def)
qed


text \<open>C27: When the server closes the connection while a message is still being written, as the
  training thread does after its last message, the close handler is called twice: the end of
  the write of the close frame already counts as the end of the connection, which calls the
  handler as for an unclean end and does not record it, and the client's answer calls it again.\<close>

theorem close_behind_a_message_calls_the_handler_twice:
  assumes "idle s" "is_close_frame fr code reason" "length (fr_data fr) \<le> ws_max s" "chunks (frame_body fr) cs"
    and "\<not> ws_sent_close s" "\<not> ws_recv_close s" "\<not> ws_close_called s" "\<not> ws_closing s" "ws_sending s \<noteq> []"
  shows "\<exists>t. receive (frame_reads fr cs) (on_write True (on_write True (run_task (Do_close msg NormalClosure) s))) = Some (Inr t) \<and>
    ws_calls t = ws_calls s @ [Closed ''uncleanly'' ClosedAbnormally, Closed reason code] \<and>
    ws_removed t = ws_removed s + 2 \<and> ws_deleted t"
proof -
  let ?t = "on_write True (on_write True (run_task (Do_close msg NormalClosure) s))"
  have fr: "frame_ok fr" using assms(2) by (simp add: is_close_frame_def)
  have t: "ws_calls ?t = ws_calls s @ [Closed ''uncleanly'' ClosedAbnormally]" "ws_removed ?t = ws_removed s + 1"
    "ws_sent_close ?t" "\<not> ws_close_called ?t" "ws_sending ?t = []" "ws_max ?t = ws_max s" "idle ?t"
    using assms(1,5-9)
    by (auto simp: do_close_def do_write_def on_write_def check_destroy_def call_handler_def idle_def both_closed_def Let_def)
  let ?e = "(at_end fr ?t)\<lparr>ws_fragment := fr_data fr, ws_recv_close := True, ws_closing := True\<rparr>"
  have "end_of_frame (at_end fr ?t) =
      Inr (check_destroy ClosedAbnormally (close_socket ((call_handler (Closed reason code) ?e)\<lparr>ws_close_called := True\<rparr>)))"
    using t(3,4) by (simp add: end_of_frame_def close_frame_handled [OF assms(2)] Let_def)
  moreover have "length (fr_data fr) \<le> ws_max ?t" using t(6) assms(3) by simp
  ultimately show ?thesis
    using frame_read [OF t(7) fr _ assms(4)] t
    by (simp add: check_destroy_def call_handler_def close_socket_def)
qed

theorem close_behind_a_message_calls_the_handler_twice_witness:
  "\<exists>t. receive (frame_reads example_close [frame_body example_close])
      (on_write True (on_write True (run_task (Do_close ''quit'' NormalClosure) (example_ws\<lparr>ws_sending := [''x'']\<rparr>)))) = Some (Inr t) \<and>
    ws_calls t = [Closed ''uncleanly'' 1006, Closed ''bye'' 1000] \<and> ws_deleted t"
proof -
  have "idle (example_ws\<lparr>ws_sending := [''x'']\<rparr>)" using example_idle by (simp add: idle_def both_closed_def)
  from close_behind_a_message_calls_the_handler_twice [OF this example_is_close _ example_close_chunks]
  show ?thesis by (fastforce simp: example_ws_def fresh_ws_def example_close_def)
qed

section \<open>Reads that end early\<close>

text \<open>C29: A frame whose first byte arrives alone is not waited for: the connection handles it as an
  empty unmasked frame with the same opcode, so that an empty message is delivered or an
  empty ping answered, and takes the second byte and all that follows for the next frame.\<close>

theorem split_header_is_an_empty_frame:
  assumes "idle s" "frame_ok fr" "fr_op fr \<noteq> 8"
    and "accept (fr\<lparr>fr_key := None, fr_data := []\<rparr>) (dialog_of s) = Some d"
  shows "\<exists>t. receive [take 1 (frame_head fr), []] s = Some (Inr t) \<and> idle t \<and> dialog_of t = d"
proof -
  let ?fr = "fr\<lparr>fr_key := None, fr_data := []\<rparr>"
  have s: "ws_state s = MiniHeader" "ws_wants s = Some (False, 2)" "\<not> both_closed s" using assms(1) by (simp_all add: idle_def)
  have ok: "frame_ok ?fr" "fr_op ?fr \<noteq> 8" using assms(2,3) by (simp_all add: frame_ok_def)
  have chunk: "chunks (frame_body ?fr) [[]]" by (simp add: chunks_def frame_body_def)
  have "take 1 (frame_head fr) @ [char_of (0 :: nat)] = frame_head ?fr" "length (take 1 (frame_head fr)) = 1"
    by (simp_all add: frame_head_def short_length_def)
  then have "on_read (take 1 (frame_head fr)) s = on_read (frame_head ?fr) s"
    using s(1) by (simp add: on_read_def on_mini_header_def)
  moreover have "read_fits s (take 1 (frame_head fr))" "read_fits s (frame_head ?fr)"
    using s(2) by (auto simp: read_fits_def frame_head_def)
  ultimately have "receive [take 1 (frame_head fr), []] s = receive [frame_head ?fr, []] s" by simp
  also have "\<dots> = receive (frame_reads ?fr [[]]) s" by (simp add: frame_reads_def long_length_def)
  finally show ?thesis
    using frame_read [OF assms(1) ok(1) _ chunk] end_of_data_frame [OF ok s(3) assms(4)] by auto
qed

theorem split_header_is_an_empty_frame_witness:
  "\<exists>t. receive [take 1 (frame_head (example_frame 1 True ''hi'')), []] example_ws = Some (Inr t) \<and>
    ws_calls t = [Message '''' False]"
proof -
  let ?fr = "example_frame 1 True ''hi''"
  have "\<exists>d. accept (?fr\<lparr>fr_key := None, fr_data := []\<rparr>) (dialog_of example_ws) = Some d \<and> d_calls d = [Message '''' False]"
    by (simp add: accept_def add_data_def example_frame_def dialog_of_def example_ws_def fresh_ws_def)
  then obtain d where "accept (?fr\<lparr>fr_key := None, fr_data := []\<rparr>) (dialog_of example_ws) = Some d" "d_calls d = [Message '''' False]"
    by blast
  moreover have "frame_ok ?fr" "fr_op ?fr \<noteq> 8" by (simp_all add: frame_ok_def example_frame_def)
  ultimately obtain t where "receive [take 1 (frame_head ?fr), []] example_ws = Some (Inr t)" "dialog_of t = d"
    using split_header_is_an_empty_frame [OF example_idle] by blast
  with \<open>d_calls d = _\<close> show ?thesis by (intro exI [of _ t]) (auto simp: dialog_of_def)
qed

section \<open>Messages that are too long\<close>

text \<open>No read is pending, but the flag says so.\<close>

definition stuck :: "ws \<Rightarrow> bool" where
  "stuck s \<longleftrightarrow> ws_reading s \<and> ws_wants s = None \<and> \<not> ws_deleted s"

lemma stuck_do_write [simp]: "stuck (do_write s) = stuck s"
  by (simp add: stuck_def do_write_def)

lemma stuck_step: "ws_next e s = Some (Inr t) \<Longrightarrow> stuck s \<Longrightarrow> stuck t"
proof (cases e)
  case (Write_done ok)
  assume "ws_next e s = Some (Inr t)" "stuck s"
  then show ?thesis
    using Write_done
    by (auto simp: stuck_def on_write_def do_write_def check_destroy_def call_handler_def Let_def split: if_splits)
next
  case Run_task
  assume "ws_next e s = Some (Inr t)" "stuck s"
  then obtain k ks where "ws_posted s = k # ks" "t = run_task k (s\<lparr>ws_posted := ks\<rparr>)" using Run_task by (auto split: list.splits)
  with \<open>stuck s\<close> show ?thesis
    by (cases k) (simp_all add: stuck_def send_data_impl_def do_close_def do_write_def call_handler_def Let_def)
qed (auto simp: stuck_def read_fits_def send_data_def ws_close_def split: if_splits)

lemma stuck_run: "ws_run s es t \<Longrightarrow> stuck s \<Longrightarrow> stuck t"
  by (induction rule: ws_run.induct) (auto dest: stuck_step)

text \<open>C28: A frame longer than the maximum ends the connection before its payload is read: the error
  and close handlers are called and the socket is closed. But the flag that a read is pending
  stays set although none is, so that the connection object is never deleted, whatever happens
  after that.\<close>

theorem too_long_message_leaks:
  assumes "idle s" "frame_ok fr" "ws_max s < length (fr_data fr)" "\<not> ws_close_called s" "\<not> ws_deleted s"
  shows "\<exists>t. receive (length_reads fr) s = Some (Inr t) \<and>
    ws_calls t = ws_calls s @ [Errored ''Message length exceeds maximum payload.'', Closed ''uncleanly'' MessageTooBig] \<and>
    \<not> ws_socket_open t \<and> (\<forall>es u. ws_run t es u \<longrightarrow> \<not> ws_deleted u)"
proof -
  let ?s = "(at_mask fr s)\<lparr>ws_reading := True\<rparr>"
  have "do_read (at_mask fr s) = too_long ?s"
    using assms(1,3) by (subst do_read.simps) (auto simp: at_mask_def idle_def both_closed_def)
  then have "receive (length_reads fr) s = Some (Inr (too_long ?s))" using length_read [OF assms(1,2)] by simp
  moreover have "stuck (too_long ?s)"
    using assms(5) by (simp add: stuck_def too_long_def check_destroy_def call_handler_def close_socket_def at_mask_def)
  then have "ws_run (too_long ?s) es u \<Longrightarrow> \<not> ws_deleted u" for es u
    using stuck_run by (auto simp: stuck_def)
  ultimately show ?thesis
    using assms(4) by (auto simp: too_long_def check_destroy_def call_handler_def close_socket_def at_mask_def)
qed

theorem too_long_message_leaks_witness:
  "\<exists>t. receive (length_reads (example_frame 1 True (replicate 101 CHR ''x''))) example_ws = Some (Inr t) \<and>
    (\<forall>es u. ws_run t es u \<longrightarrow> \<not> ws_deleted u)"
  using too_long_message_leaks [OF example_idle, of "example_frame 1 True (replicate 101 CHR ''x'')"]
  by (auto simp: example_frame_def example_ws_def fresh_ws_def frame_ok_def)

end
