(* ===== verification/WebSocketRuns.thy ===== *)
theory WebSocketRuns
  imports WebSocketClose
begin

text \<open>Runs of a connection from its start: what is never left behind a deletion, and what is on the wire.\<close>

section \<open>Nothing is pending on a deleted connection\<close>

definition settled :: "ws \<Rightarrow> bool" where
  "settled s \<longleftrightarrow> (ws_wants s \<noteq> None \<longrightarrow> ws_reading s) \<and> (ws_deleted s \<longrightarrow> \<not> ws_reading s \<and> ws_sending s = [])"

lemma settled_check_destroy:
  "(ws_wants s \<noteq> None \<longrightarrow> ws_reading s) \<Longrightarrow> \<not> ws_deleted s \<Longrightarrow> settled (check_destroy code s)"
  by (auto simp: settled_def check_destroy_def call_handler_def Let_def)

lemma settled_do_write: "settled s \<Longrightarrow> \<not> ws_deleted s \<Longrightarrow> settled (do_write s) \<and> \<not> ws_deleted (do_write s)"
  by (simp add: settled_def do_write_def)

lemma settled_do_read: "ws_wants s = None \<Longrightarrow> \<not> ws_deleted s \<Longrightarrow> settled (do_read s)"
proof (induction s rule: do_read.induct)
  case (1 s)
  show ?case
  proof (cases "ws_sent_close s \<and> ws_recv_close s")
    case True
    then have "do_read s = check_destroy ClosedAbnormally (close_socket (s\<lparr>ws_closing := True\<rparr>))"
      by (subst do_read.simps) simp
    then show ?thesis using 1(2,3) by (simp add: settled_check_destroy close_socket_def)
  next
    case False
    let ?s = "s\<lparr>ws_reading := True\<rparr>"
    have again: "settled (do_read (?s\<lparr>ws_state := Payload\<rparr>))"
      if "ws_state s = Mask" "\<not> ws_max s < ws_remaining s" "\<not> ws_has_mask s"
      using 1(1) [OF False refl] that 1(2,3) by simp
    have long: "settled (too_long ?s)"
      using 1(2,3) by (simp add: too_long_def settled_check_destroy call_handler_def close_socket_def)
    show ?thesis
      using False again long 1(2,3)
      by (subst do_read.simps) (auto simp: Let_def wait_some_def wait_all_def settled_def split: read_state.splits)
  qed
qed

lemma do_close_alive [simp]:
  "ws_deleted (do_close msg code s) = ws_deleted s" "ws_wants (do_close msg code s) = ws_wants s"
  "ws_reading (do_close msg code s) = ws_reading s"
  by (simp_all add: do_close_def do_write_def call_handler_def Let_def)

text \<open>Handling a fragment deletes the connection only when it ends the reading.\<close>

lemma handle_fragment_settled:
  assumes "handle_fragment s = Inr (go_on, t)" "ws_wants s = None" "\<not> ws_reading s" "\<not> ws_deleted s"
  shows "ws_wants t = None \<and> (if go_on then \<not> ws_deleted t else settled t)"
proof -
  have data: "ws_wants u = None \<and> \<not> ws_deleted u" if "end_fragment v = Inr u" "ws_wants v = None" "\<not> ws_deleted v" for u v
    using that by (auto simp: end_fragment_def call_handler_def Let_def split: if_splits option.splits)
  have close: "ws_wants u = None \<and> (if b then \<not> ws_deleted u else settled u)"
    if "close_fragment v = (b, u)" "ws_wants v = None" "\<not> ws_deleted v" for b u v
    using that by (auto simp: close_fragment_def ws_close_def Let_def call_handler_def close_socket_def
        check_destroy_def settled_def split: if_splits)
  let ?s = "if ws_has_mask s then s\<lparr>ws_fragment := unmask (ws_mask s) (ws_fragment s)\<rparr> else s"
  have s: "ws_wants ?s = None" "\<not> ws_deleted ?s" using assms(2,4) by simp_all
  show ?thesis
    using assms(1) data [of ?s] data [of "?s\<lparr>ws_binary := Some False\<rparr>"] data [of "?s\<lparr>ws_binary := Some True\<rparr>"]
      close [of ?s] s
    unfolding handle_fragment_def Let_def
    by (auto simp: bind_res_eq_Inr send_pong_def send_data_def settled_def simp del: if_split_asm
        split: if_splits prod.splits)
qed

lemma settled_headers:
  assumes "ws_wants s = None" "\<not> ws_deleted s"
  shows "settled (on_mini_header bs s)" "settled (on_len16 bs s)" "settled (on_len64 bs s)" "settled (on_mask bs s)"
  unfolding on_mini_header_def on_len16_def on_len64_def on_mask_def Let_def
  using assms by (intro settled_do_read; simp)+

lemma settled_on_read:
  assumes "on_read bs s = Inr t" "\<not> ws_deleted s"
  shows "settled t"
proof (cases "ws_state s")
  case Payload
  let ?s = "s\<lparr>ws_reading := False, ws_wants := None, ws_fragment := ws_fragment s @ bs, ws_remaining := ws_remaining s - length bs\<rparr>"
  show ?thesis
  proof (cases "ws_remaining s - length bs = 0")
    case True
    then obtain go_on v where "handle_fragment ?s = Inr (go_on, v)"
      and t: "t = (if go_on then do_read (v\<lparr>ws_state := MiniHeader\<rparr>) else v)"
      using assms(1) Payload by (auto simp: on_read_def on_payload_def Let_def bind_res_eq_Inr)
    from handle_fragment_settled [OF this(1)] assms(2) t show ?thesis
      by (cases go_on) (simp_all add: settled_do_read)
  next
    case False
    then have "t = do_read ?s" using assms(1) Payload by (simp add: on_read_def on_payload_def Let_def)
    with assms(2) show ?thesis by (simp add: settled_do_read)
  qed
qed (use assms in \<open>auto simp: on_read_def Let_def intro!: settled_headers\<close>)

lemma settled_step: "ws_next e s = Some (Inr t) \<Longrightarrow> settled s \<Longrightarrow> \<not> ws_deleted s \<Longrightarrow> settled t"
proof (cases e)
  case (Received bs)
  assume "ws_next e s = Some (Inr t)" "\<not> ws_deleted s"
  with Received settled_on_read [of bs s t] show ?thesis by (auto split: if_splits)
next
  case (Read_failed message)
  assume "ws_next e s = Some (Inr t)" "\<not> ws_deleted s"
  with Read_failed show ?thesis
    by (auto simp: on_read_error_def Let_def call_handler_def close_socket_def intro!: settled_check_destroy split: if_splits)
next
  case (Write_done ok)
  assume *: "ws_next e s = Some (Inr t)" "settled s" "\<not> ws_deleted s"
  have "settled (check_destroy ClosedAbnormally (s\<lparr>ws_sending := [], ws_closing := True\<rparr>))"
    using *(2,3) by (intro settled_check_destroy) (simp_all add: settled_def)
  with * Write_done show ?thesis
    by (auto simp: on_write_def Let_def settled_def do_write_def split: if_splits)
next
  case Run_task
  assume *: "ws_next e s = Some (Inr t)" "settled s" "\<not> ws_deleted s"
  then obtain k ks where "t = run_task k (s\<lparr>ws_posted := ks\<rparr>)" using Run_task by (auto split: list.splits)
  with * show ?thesis
    by (cases k) (simp_all add: settled_def send_data_impl_def do_write_def Let_def)
qed (auto simp: settled_def send_data_def ws_close_def split: if_splits)

lemma settled_run: "ws_run s es t \<Longrightarrow> settled s \<Longrightarrow> settled t"
  by (induction rule: ws_run.induct) (auto dest: settled_step)

lemma settled_start: "settled (start_ws hello (fresh_ws m p))"
  unfolding start_ws_def Let_def
  by (rule settled_do_read) (simp_all add: fresh_ws_def do_write_def call_handler_def)

text \<open>C10: In every run of a connection from its start, whatever the order of reads, writes, failures and
  posted calls, a deleted connection has neither a read nor a write pending: no function of
  \<open>asio\<close> is left that would be called on freed memory.\<close>

theorem nothing_pending_on_deleted:
  assumes "ws_run (start_ws hello (fresh_ws m p)) es t" "ws_deleted t"
  shows "ws_wants t = None \<and> ws_sending t = []"
  using settled_run [OF assms(1) settled_start] assms(2) unfolding settled_def by blast

definition failed_ws :: ws where
  "failed_ws = on_read_error ''eof'' (on_write True (start_ws [] (fresh_ws 10 [])))"

lemma failed_run: "ws_run (start_ws [] (fresh_ws 10 [])) [Write_done True, Read_failed ''eof''] failed_ws \<and> ws_deleted failed_ws"
proof -
  let ?s = "start_ws [] (fresh_ws 10 [])"
  have s: "ws_sending ?s \<noteq> []" "\<not> ws_deleted ?s" "ws_write ?s = []" "\<not> ws_closing ?s" "\<not> ws_sent_close ?s" "ws_wants ?s \<noteq> None"
    by (simp_all add: start_ws_def fresh_ws_def do_write_def call_handler_def Let_def do_read_MiniHeader both_closed_def)
  have "ws_run ?s ([] @ [Write_done True]) (on_write True ?s)"
    by (rule ws_run_snoc [OF ws_run_Nil]) (use s in simp_all)
  from ws_run_snoc [OF this, of "Read_failed ''eof''" failed_ws] s show ?thesis
    by (simp add: failed_ws_def on_write_def on_read_error_def check_destroy_def call_handler_def close_socket_def Let_def)
qed

theorem nothing_pending_on_deleted_witness:
  "ws_deleted failed_ws \<and> ws_wants failed_ws = None \<and> ws_sending failed_ws = []"
  using failed_run nothing_pending_on_deleted by blast

section \<open>Whole frames on the wire\<close>

definition server_frame :: "string \<Rightarrow> bool" where
  "server_frame f \<longleftrightarrow> (\<exists>op data. f = encode_frame op data)"

definition whole :: "string \<Rightarrow> ws \<Rightarrow> bool" where
  "whole w s \<longleftrightarrow> (\<exists>fs gs. ws_written s = w @ concat fs \<and> concat (ws_write s) = concat gs \<and> (\<forall>f\<in>set (fs @ gs). server_frame f))"

lemma whole_cong: "ws_written t = ws_written s \<Longrightarrow> ws_write t = ws_write s \<Longrightarrow> whole w t = whole w s"
  by (simp add: whole_def)

lemma whole_update [simp]:
  "whole w (s\<lparr>ws_fragment := a\<rparr>) = whole w s" "whole w (s\<lparr>ws_binary := b\<rparr>) = whole w s"
  "whole w (s\<lparr>ws_posted := c\<rparr>) = whole w s" "whole w (s\<lparr>ws_pong := d\<rparr>) = whole w s"
  "whole w (s\<lparr>ws_recv_close := e\<rparr>) = whole w s" "whole w (s\<lparr>ws_reading := e\<rparr>) = whole w s"
  "whole w (s\<lparr>ws_wants := f\<rparr>) = whole w s" "whole w (s\<lparr>ws_closing := e\<rparr>) = whole w s"
  "whole w (s\<lparr>ws_state := g\<rparr>) = whole w s" "whole w (s\<lparr>ws_remaining := n\<rparr>) = whole w s"
  "whole w (s\<lparr>ws_mini := n\<rparr>) = whole w s" "whole w (s\<lparr>ws_has_mask := e\<rparr>) = whole w s"
  "whole w (s\<lparr>ws_mask := a\<rparr>) = whole w s" "whole w (s\<lparr>ws_sending := h\<rparr>) = whole w s"
  "whole w (call_handler k s) = whole w s" "whole w (close_socket s) = whole w s"
  by (simp_all add: whole_def call_handler_def close_socket_def)

lemma wholeI:
  "ws_written s = w @ concat fs \<Longrightarrow> concat (ws_write s) = concat gs \<Longrightarrow> \<forall>f\<in>set (fs @ gs). server_frame f \<Longrightarrow> whole w s"
  unfolding whole_def by blast

lemma whole_do_write: "whole w s \<Longrightarrow> whole w (do_write s)"
proof -
  assume "whole w s"
  then obtain fs gs where "ws_written s = w @ concat fs" "concat (ws_write s) = concat gs" "\<forall>f\<in>set (fs @ gs). server_frame f"
    by (auto simp: whole_def)
  then show ?thesis
    using wholeI [of "do_write s" w "fs @ gs" "[]"] wholeI [of s w fs gs]
    by (cases "ws_sending s = []") (simp_all add: do_write_def)
qed

lemma whole_append: "whole w s \<Longrightarrow> server_frame (concat bufs) \<Longrightarrow> whole w (s\<lparr>ws_write := ws_write s @ bufs\<rparr>)"
proof -
  assume "whole w s" "server_frame (concat bufs)"
  then obtain fs gs where "ws_written s = w @ concat fs" "concat (ws_write s) = concat gs" "\<forall>f\<in>set (fs @ gs). server_frame f"
    by (auto simp: whole_def)
  with \<open>server_frame (concat bufs)\<close> show ?thesis
    unfolding whole_def by (intro exI [of _ fs] exI [of _ "gs @ [concat bufs]"]) auto
qed

lemma whole_do_close: "whole w s \<Longrightarrow> whole w (do_close msg code s)"
proof -
  assume s: "whole w s"
  let ?s = "if ws_recv_close s \<and> \<not> ws_close_called s
    then call_handler (Closed msg code) (s\<lparr>ws_sent_close := True, ws_close_called := True\<rparr>) else s\<lparr>ws_sent_close := True\<rparr>"
  have "whole w ?s" using s by (simp add: whole_def call_handler_def)
  moreover have "server_frame (concat [build_header 8 (length msg + 2), le_bytes 2 (htons code), msg])"
    unfolding server_frame_def by (intro exI [of _ 8] exI [of _ "be_bytes 2 code @ msg"]) (simp add: htons_bytes flip: build_header_frame)
  ultimately have "whole w (do_write (?s\<lparr>ws_write := ws_write ?s @ [build_header 8 (length msg + 2), le_bytes 2 (htons code), msg]\<rparr>))"
    by (intro whole_do_write whole_append)
  moreover have "do_close msg code s = do_write (?s\<lparr>ws_write := ws_write ?s @ [build_header 8 (length msg + 2), le_bytes 2 (htons code), msg]\<rparr>)"
    by (simp add: do_close_def Let_def)
  ultimately show ?thesis by simp
qed

lemma whole_send: "whole w s \<Longrightarrow> whole w (send_data_impl op payload s)"
  unfolding send_data_impl_def Let_def
  by (intro whole_do_write whole_append) (auto simp: server_frame_def build_header_frame)

lemma check_destroy_wire [simp]:
  "ws_written (check_destroy code s) = ws_written s" "ws_write (check_destroy code s) = ws_write s"
  by (simp_all add: check_destroy_def call_handler_def Let_def)

lemma do_read_wire [simp]: "ws_written (do_read s) = ws_written s \<and> ws_write (do_read s) = ws_write s"
proof (induction s rule: do_read.induct)
  case (1 s)
  then show ?case
    by (subst (1 2) do_read.simps)
      (auto simp: Let_def close_socket_def wait_some_def wait_all_def too_long_def call_handler_def split: read_state.splits)
qed

lemma whole_check_destroy [simp]: "whole w (check_destroy code s) = whole w s"
  by (rule whole_cong) simp_all

lemma whole_do_read [simp]: "whole w (do_read s) = whole w s"
  by (rule whole_cong) simp_all

lemma whole_fragment:
  assumes "handle_fragment s = Inr (go_on, t)" "whole w s"
  shows "whole w t"
proof -
  have data: "whole w u" if "end_fragment v = Inr u" "whole w v" for u v
  proof -
    have "ws_written u = ws_written v" "ws_write u = ws_write v"
      using that(1) by (auto simp: end_fragment_def call_handler_def Let_def split: if_splits option.splits)
    with that(2) show ?thesis using whole_cong by blast
  qed
  have close: "whole w u" if "close_fragment v = (b, u)" "whole w v" for b u v
  proof (cases "ws_sent_close v")
    case True
    then have "ws_written u = ws_written v" "ws_write u = ws_write v"
      using that(1) by (auto simp: close_fragment_def Let_def call_handler_def close_socket_def split: if_splits)
    with that(2) show ?thesis using whole_cong by blast
  next
    case False
    have "whole w (v\<lparr>ws_recv_close := True\<rparr>)" using that(2) by (simp add: whole_def)
    with False that(1) show ?thesis
      by (auto simp: close_fragment_def ws_close_def Let_def intro: whole_do_close split: if_splits)
  qed
  let ?s = "if ws_has_mask s then s\<lparr>ws_fragment := unmask (ws_mask s) (ws_fragment s)\<rparr> else s"
  have s: "whole w ?s" using assms(2) by simp
  show ?thesis
    using assms(1) data [of ?s] data [of "?s\<lparr>ws_binary := Some False\<rparr>"] data [of "?s\<lparr>ws_binary := Some True\<rparr>"]
      close [of ?s] s
    unfolding handle_fragment_def Let_def
    by (auto simp: bind_res_eq_Inr send_pong_def send_data_def simp del: if_split_asm split: if_splits prod.splits)
qed

lemma whole_on_read:
  assumes "on_read bs s = Inr t" "whole w s"
  shows "whole w t"
proof (cases "ws_state s")
  case Payload
  let ?s = "s\<lparr>ws_reading := False, ws_wants := None, ws_fragment := ws_fragment s @ bs, ws_remaining := ws_remaining s - length bs\<rparr>"
  have "whole w ?s" using assms(2) by simp
  then show ?thesis
    using assms(1) Payload whole_fragment [of ?s _ _ w]
    by (auto simp: on_read_def on_payload_def Let_def bind_res_eq_Inr split: if_splits)
qed (use assms in \<open>auto simp: on_read_def on_mini_header_def on_len16_def on_len64_def on_mask_def Let_def\<close>)

lemma whole_step: "ws_next e s = Some (Inr t) \<Longrightarrow> whole w s \<Longrightarrow> whole w t"
proof (cases e)
  case (Received bs)
  assume "ws_next e s = Some (Inr t)" "whole w s"
  with Received whole_on_read show ?thesis by (auto split: if_splits)
next
  case (Read_failed message)
  assume "ws_next e s = Some (Inr t)" "whole w s"
  with Read_failed show ?thesis
    by (auto simp: on_read_error_def Let_def split: if_splits)
next
  case (Write_done ok)
  assume *: "ws_next e s = Some (Inr t)" "whole w s"
  have "whole w (do_write (s\<lparr>ws_sending := []\<rparr>))" using *(2) by (intro whole_do_write) simp
  with * Write_done show ?thesis
    by (auto simp: on_write_def Let_def split: if_splits)
next
  case Run_task
  assume *: "ws_next e s = Some (Inr t)" "whole w s"
  then obtain k ks where "t = run_task k (s\<lparr>ws_posted := ks\<rparr>)" using Run_task by (auto split: list.splits)
  with *(2) show ?thesis by (cases k) (simp_all add: whole_send whole_do_close)
next
  case (App_close msg code)
  assume "ws_next e s = Some (Inr t)" "whole w s"
  with App_close show ?thesis by (auto simp: ws_close_def)
qed (auto simp: send_data_def)

lemma whole_run: "ws_run s es t \<Longrightarrow> whole w s \<Longrightarrow> whole w t"
  by (induction rule: ws_run.induct) (auto dest: whole_step)

definition handshake :: "string \<Rightarrow> string \<Rightarrow> string" where
  "handshake hello subprotocol =
     ''HTTP/1.1 101 Switching Protocols'' @ crlf @ ''Upgrade: websocket'' @ crlf @ ''Connection: Upgrade'' @ crlf @
     ''Sec-WebSocket-Accept: '' @ hello @ crlf @
     (if subprotocol = [] then [] else ''Sec-WebSocket-Protocol: '' @ subprotocol @ crlf) @ crlf"

lemma start_whole: "whole (handshake hello p) (start_ws hello (fresh_ws m p))"
proof -
  have "ws_written (start_ws hello (fresh_ws m p)) = handshake hello p" "ws_write (start_ws hello (fresh_ws m p)) = []"
    by (simp_all add: start_ws_def Let_def call_handler_def do_write_def fresh_ws_def handshake_def)
  then show ?thesis by (intro wholeI [of _ _ "[]" "[]"]) simp_all
qed

text \<open>C26: What a connection writes, in every run, is the response of the handshake followed by whole
  frames, each a header with the length of its payload and the payload: frames of different
  calls are never mixed, and no write ends inside one.\<close>

theorem only_whole_frames_are_written:
  assumes "ws_run (start_ws hello (fresh_ws m p)) es t"
  shows "\<exists>fs. ws_written t = handshake hello p @ concat fs \<and> (\<forall>f\<in>set fs. server_frame f)"
  using whole_run [OF assms start_whole] by (auto simp: whole_def)

theorem only_whole_frames_are_written_witness:
  "\<exists>fs. ws_written failed_ws = handshake [] [] @ concat fs \<and> (\<forall>f\<in>set fs. server_frame f)"
  using failed_run only_whole_frames_are_written by blast

end
