(* ===== verification/Base64.thy ===== *)
theory Base64
  imports Prelude Bits
begin

unbundle bit_operations_syntax

text \<open>Base 64, \<open>lib/crow/utility.h\<close>.\<close>

definition base64_alphabet :: string where
  "base64_alphabet = ''ABCDEFGHIJKLMNOPQRSTUVWXYZabcdefghijklmnopqrstuvwxyz0123456789+/''"

definition base64_alphabet_urlsafe :: string where
  "base64_alphabet_urlsafe = ''ABCDEFGHIJKLMNOPQRSTUVWXYZabcdefghijklmnopqrstuvwxyz0123456789-_''"

section \<open>Encoding\<close>

fun base64encode :: "string \<Rightarrow> string \<Rightarrow> string" where
  "base64encode key (a # b # c # data) =
     (let a = of_char a; b = of_char b; c = of_char c
      in key ! drop_bit 2 (a AND 0xFC) # key ! (push_bit 4 (a AND 3) OR drop_bit 4 (b AND 0xF0)) #
         key ! (push_bit 2 (b AND 15) OR drop_bit 6 (c AND 0xC0)) # key ! (c AND 63) # base64encode key data)"
| "base64encode key [a, b] =
     (let a = of_char a; b = of_char b
      in [key ! drop_bit 2 (a AND 0xFC), key ! (push_bit 4 (a AND 3) OR drop_bit 4 (b AND 0xF0)),
          key ! push_bit 2 (b AND 15), CHR ''=''])"
| "base64encode key [a] =
     (let a = of_char a in [key ! drop_bit 2 (a AND 0xFC), key ! push_bit 4 (a AND 3), CHR ''='', CHR ''=''])"
| "base64encode key [] = []"

definition base64encode_urlsafe :: "string \<Rightarrow> string" where
  "base64encode_urlsafe data = base64encode base64_alphabet_urlsafe data"

section \<open>Decoding\<close>

definition base64_key :: "char \<Rightarrow> nat" where
  "base64_key c =
     (let n = of_char c :: nat
      in if 65 \<le> n \<and> n \<le> 90 then n - 65
         else if 97 \<le> n \<and> n \<le> 122 then n - 97 + 26
         else if 48 \<le> n \<and> n \<le> 57 then n - 48 + 52
         else if c = CHR ''+'' \<or> c = CHR ''-'' then 62
         else if c = CHR ''/'' \<or> c = CHR ''_'' then 63
         else 0)"

text \<open>The size of the result. It is unsigned: a negative one is a huge one.\<close>

definition base64_size :: "string \<Rightarrow> int" where
  "base64_size data =
     (let n = length data; whole = int (n div 4 * 3)
      in if n mod 4 = 2 then whole + 1
         else if n mod 4 = 3 then whole + 2
         else if 2 \<le> n \<and> data ! (n - 2) = CHR ''='' then whole - 2
         else if 1 \<le> n \<and> data ! (n - 1) = CHR ''='' then whole - 1
         else whole)"

text \<open>The loop, until \<open>size\<close> bytes are written; it reads past the end only if the size says so.\<close>

fun base64_loop :: "nat \<Rightarrow> string \<Rightarrow> string res" where
  "base64_loop k (c1 # c2 # c3 # c4 # data) =
     (let odd = base64_key c1; even = base64_key c2; odd' = base64_key c3; even' = base64_key c4;
          x = char_of (push_bit 2 odd OR drop_bit 4 (even AND 0x30));
          y = char_of (push_bit 4 (even AND 15) OR drop_bit 2 (odd' AND 0x3C));
          z = char_of (push_bit 6 (odd' AND 3) OR even')
      in if 3 \<le> k then bind_res (base64_loop (k - 3) data) (\<lambda>t. Inr (x # y # z # t))
         else if k = 2 then Inr [x, y]
         else if k = 1 then Inr [x]
         else Inr [])"
| "base64_loop k [c1, c2, c3] =
     (let odd = base64_key c1; even = base64_key c2; odd' = base64_key c3;
          x = char_of (push_bit 2 odd OR drop_bit 4 (even AND 0x30));
          y = char_of (push_bit 4 (even AND 15) OR drop_bit 2 (odd' AND 0x3C))
      in if k = 2 then Inr [x, y] else if k = 1 then Inr [x] else if k = 0 then Inr [] else Inl (Undefined Out_of_bounds))"
| "base64_loop k [c1, c2] =
     (if k = 1 then Inr [char_of (push_bit 2 (base64_key c1) OR drop_bit 4 (base64_key c2 AND 0x30))]
      else if k = 0 then Inr [] else Inl (Undefined Out_of_bounds))"
| "base64_loop k data = (if k = 0 then Inr [] else Inl (Undefined Out_of_bounds))"

definition base64decode :: "string \<Rightarrow> string res" where
  "base64decode data =
     (let n = base64_size data in if n < 0 then Inl Length_error else base64_loop (nat n) data)"

section \<open>Round trip\<close>

definition is_alphabet :: "string \<Rightarrow> bool" where
  "is_alphabet key \<longleftrightarrow> length key = 64 \<and> (\<forall>v<64. base64_key (key ! v) = v \<and> key ! v \<noteq> CHR ''='')"

lemma alphabet_codes:
  "map of_char base64_alphabet = [65..<91] @ [97..<123] @ [48..<58] @ [43 :: nat, 47]"
  "map of_char base64_alphabet_urlsafe = [65..<91] @ [97..<123] @ [48..<58] @ [45 :: nat, 95]"
  by (simp_all add: base64_alphabet_def base64_alphabet_urlsafe_def upt_rec)

lemma is_alphabetI:
  assumes codes: "map of_char key = [65..<91] @ [97..<123] @ [48..<58] @ [p :: nat, q]" and "p \<in> {43, 45}" "q \<in> {47, 95}"
  shows "is_alphabet key"
proof -
  have n: "length key = 64" using arg_cong [OF codes, of length] by simp
  have "([65..<91] @ [97..<123] @ [48..<58] @ [p, q]) ! v =
      (if v < 26 then 65 + v else if v < 52 then 71 + v else if v < 62 then v - 4 else if v = 62 then p else q)"
    if "v < 64" for v
    using that by (auto simp: nth_append nth_Cons' simp del: upt_rec_numeral)
  then have code: "of_char (key ! v) =
      (if v < 26 then 65 + v else if v < 52 then 71 + v else if v < 62 then v - 4 else if v = 62 then p else q)"
    if "v < 64" for v
    using that n nth_map [of v key "of_char :: char \<Rightarrow> nat"] by (simp only: codes)
  have char: "c = d \<longleftrightarrow> of_char c = (of_char d :: nat)" for c d :: char
    by simp
  have "base64_key (key ! v) = v \<and> key ! v \<noteq> CHR ''=''" if "v < 64" for v
  proof -
    consider "v < 26" | "26 \<le> v" "v < 52" | "52 \<le> v" "v < 62" | "v = 62" | "v = 63"
      using \<open>v < 64\<close> by linarith
    then show ?thesis
    proof cases
      case 4
      then show ?thesis using code [OF that] assms(2) by (auto simp: base64_key_def char Let_def)
    next
      case 5
      then show ?thesis using code [OF that] assms(3) by (auto simp: base64_key_def char Let_def)
    next
      case 3
      then show ?thesis using code [OF that] by (simp add: base64_key_def char Let_def) linarith
    qed (use code [OF that] in \<open>simp_all add: base64_key_def char Let_def\<close>)
  qed
  then show ?thesis by (simp add: is_alphabet_def n)
qed

lemma alphabets: "is_alphabet base64_alphabet" "is_alphabet base64_alphabet_urlsafe"
  by (rule is_alphabetI, rule alphabet_codes, simp, simp)+

lemma encode_fields:
  assumes "a < 256" "b < 256" "c < (256 :: nat)"
  shows "drop_bit 2 (a AND 0xFC) = a div 4" "push_bit 4 (a AND 3) OR drop_bit 4 (b AND 0xF0) = a mod 4 * 16 + b div 16"
    "push_bit 2 (b AND 15) OR drop_bit 6 (c AND 0xC0) = b mod 16 * 4 + c div 64"
proof -
  have "a div 4 < 64" "b div 16 < 16" "c div 64 < 4" using assms by (simp_all add: less_mult_imp_div_less)
  then show "drop_bit 2 (a AND 0xFC) = a div 4" "push_bit 4 (a AND 3) OR drop_bit 4 (b AND 0xF0) = a mod 4 * 16 + b div 16"
    "push_bit 2 (b AND 15) OR drop_bit 6 (c AND 0xC0) = b mod 16 * 4 + c div 64"
    unfolding bit_field and_low by (simp_all add: push_bit_or)
qed

lemma decode_fields:
  assumes "a < 256" "p < 16"
  shows "push_bit 2 (a div 4) OR drop_bit 4 ((a mod 4 * 16 + p) AND 0x30) = (a :: nat)"
proof -
  have "(a mod 4 * 16 + p) div 16 mod 4 = a mod 4" using assms(2) by simp
  then show ?thesis unfolding bit_field by (simp add: push_bit_or)
qed

lemma decode_fields':
  assumes "b < 256" "p < 4" "q < 4"
  shows "push_bit 4 ((p * 16 + b div 16) AND 15) OR drop_bit 2 ((b mod 16 * 4 + q) AND 0x3C) = (b :: nat)"
proof -
  have "b div 16 < 16" using assms(1) by (simp add: less_mult_imp_div_less)
  then have "(p * 16 + b div 16) mod 16 = b div 16" "(b mod 16 * 4 + q) div 4 mod 16 = b mod 16" using assms(3) by simp_all
  then show ?thesis unfolding bit_field and_low by (simp add: push_bit_or)
qed

lemma decode_fields'':
  assumes "c < 256" "p < 16"
  shows "push_bit 6 ((p * 4 + c div 64) AND 3) OR c mod 64 = (c :: nat)"
proof -
  have "c div 64 < 4" using assms(1) by (simp add: less_mult_imp_div_less)
  then have "(p * 4 + c div 64) mod 4 = c div 64" by simp
  then show ?thesis unfolding and_low by (simp add: push_bit_or)
qed

lemma encode_step:
  "base64encode key (a # b # c # s) =
     (let p = of_char a div 4; q = of_char a mod 4 * 16 + of_char b div 16;
          r = of_char b mod 16 * 4 + of_char c div 64; t = of_char c mod 64
      in key ! p # key ! q # key ! r # key ! t # base64encode key s)"
  by (simp only: base64encode.simps Let_def encode_fields [OF of_char_less of_char_less of_char_less])
    (simp only: and_low)

lemma encode_two:
  "base64encode key [a, b] =
     [key ! (of_char a div 4), key ! (of_char a mod 4 * 16 + of_char b div 16), key ! (of_char b mod 16 * 4), CHR ''='']"
  by (simp only: base64encode.simps Let_def encode_fields [OF of_char_less of_char_less of_char_less])
    (simp add: and_low push_bit_eq_mult)

lemma encode_one:
  "base64encode key [a] = [key ! (of_char a div 4), key ! (of_char a mod 4 * 16), CHR ''='', CHR ''='']"
  by (simp only: base64encode.simps Let_def encode_fields [OF of_char_less of_char_less of_char_less])
    (simp add: and_low push_bit_eq_mult)

lemma length_base64encode: "length (base64encode key s) = (length s + 2) div 3 * 4"
proof (induction key s rule: base64encode.induct)
  case (1 key a b c s)
  have "(length (a # b # c # s) + 2) div 3 = Suc ((length s + 2) div 3)" by simp
  with 1 show ?case by (simp add: Let_def)
qed (simp_all add: Let_def)

lemma fields_less:
  assumes "a < 256" "b < 256" "c < (256 :: nat)"
  shows "a div 4 < 64" "a mod 4 * 16 + b div 16 < 64" "b mod 16 * 4 + c div 64 < 64" "c mod 64 < 64"
    "a mod 4 * 16 < 64" "b mod 16 * 4 < 64"
proof -
  have "b div 16 < 16" "c div 64 < 4" "a mod 4 < 4" "b mod 16 < 16" using assms by (simp_all add: less_mult_imp_div_less)
  then show "a mod 4 * 16 + b div 16 < 64" "b mod 16 * 4 + c div 64 < 64" "a mod 4 * 16 < 64" "b mod 16 * 4 < 64"
    by linarith+
qed (use assms in \<open>simp_all add: less_mult_imp_div_less\<close>)

lemmas char_fields_less = fields_less [OF of_char_less of_char_less of_char_less]

text \<open>What a key of the alphabet decodes to.\<close>

lemma alphabet_key:
  assumes "is_alphabet key" "v < 64"
  shows "base64_key (key ! v) = v" "key ! v \<noteq> CHR ''=''"
  using assms by (simp_all add: is_alphabet_def)

lemma base64_size_step:
  assumes "d \<noteq> []" "length d mod 4 = 0"
  shows "base64_size (w # x # y # z # d) = 3 + base64_size d"
proof -
  have n: "4 \<le> length d" using assms by (cases "length d < 4") auto
  then have "(w # x # y # z # d) ! (length (w # x # y # z # d) - j) = d ! (length d - j)" if "j \<in> {1, 2}" for j
    using that by (auto simp: nth_Cons' numeral_eq_Suc)
  from this [of 1] this [of 2] show ?thesis
    using assms n by (simp add: base64_size_def Let_def)
qed

lemma base64_size_encode:
  assumes "is_alphabet key"
  shows "base64_size (base64encode key s) = int (length s)"
  using assms
proof (induction key s rule: base64encode.induct)
  case (1 key a b c s)
  show ?case
  proof (cases "s = []")
    case True
    then show ?thesis
      using alphabet_key(2) [OF 1(2) char_fields_less(3), of b c] alphabet_key(2) [OF 1(2) char_fields_less(4), of c]
      by (simp only: encode_step Let_def) (simp add: base64_size_def Let_def)
  next
    case False
    have "length (base64encode key s) mod 4 = 0" by (simp add: length_base64encode)
    moreover have "base64encode key s \<noteq> []" using False length_base64encode [of key s] by (cases s) auto
    ultimately show ?thesis
      using 1(1) [OF refl refl refl 1(2)] by (simp only: encode_step Let_def) (simp add: base64_size_step)
  qed
next
  case (2 key a b)
  then show ?case
    using alphabet_key(2) [OF 2 char_fields_less(6), of b]
    by (simp only: encode_two Let_def) (simp add: base64_size_def Let_def)
next
  case (3 key a)
  show ?case by (simp only: encode_one Let_def) (simp add: base64_size_def Let_def)
qed (simp add: base64_size_def)

text \<open>The decoding loop undoes each block.\<close>

lemma decoded_chars:
  fixes a b c :: char
  defines "p \<equiv> of_char a div (4 :: nat)" and "q \<equiv> of_char a mod 4 * 16 + of_char b div (16 :: nat)"
    and "r \<equiv> of_char b mod 16 * 4 + of_char c div (64 :: nat)" and "t \<equiv> of_char c mod (64 :: nat)"
  shows "char_of (push_bit 2 p OR drop_bit 4 (q AND 0x30)) = a"
    "char_of (push_bit 4 (q AND 15) OR drop_bit 2 (r AND 0x3C)) = b"
    "char_of (push_bit 6 (r AND 3) OR t) = c"
proof -
  have "of_char b div 16 < (16 :: nat)" "of_char c div 64 < (4 :: nat)"
    using of_char_less [of b] of_char_less [of c] by (simp_all add: less_mult_imp_div_less)
  then have "push_bit 2 p OR drop_bit 4 (q AND 0x30) = of_char a"
    "push_bit 4 (q AND 15) OR drop_bit 2 (r AND 0x3C) = of_char b" "push_bit 6 (r AND 3) OR t = of_char c"
    unfolding p_def q_def r_def t_def
    by (intro decode_fields decode_fields' decode_fields'' of_char_less; simp)+
  then show "char_of (push_bit 2 p OR drop_bit 4 (q AND 0x30)) = a"
    "char_of (push_bit 4 (q AND 15) OR drop_bit 2 (r AND 0x3C)) = b" "char_of (push_bit 6 (r AND 3) OR t) = c"
    by (simp_all only: char_of_char)
qed

lemma base64_loop_encode:
  assumes "is_alphabet key"
  shows "base64_loop (length s) (base64encode key s) = Inr s"
  using assms
proof (induction key s rule: base64encode.induct)
  case (1 key a b c s)
  note key = alphabet_key(1) [OF 1(2) char_fields_less(1)] alphabet_key(1) [OF 1(2) char_fields_less(2)]
    alphabet_key(1) [OF 1(2) char_fields_less(3)] alphabet_key(1) [OF 1(2) char_fields_less(4)]
  show ?case
    using 1(1) [OF refl refl refl 1(2)]
    by (simp only: encode_step base64_loop.simps Let_def key decoded_chars) simp
next
  case (2 key a b)
  note key = alphabet_key(1) [OF 2 char_fields_less(1)] alphabet_key(1) [OF 2 char_fields_less(2)]
    alphabet_key(1) [OF 2 char_fields_less(6)]
  show ?case
    using decoded_chars(1) [where a = a and b = b] decoded_chars(2) [where a = a and b = b and c = "CHR 0x00"]
    by (simp only: encode_two base64_loop.simps Let_def key) simp
next
  case (3 key a)
  note key = alphabet_key(1) [OF 3 char_fields_less(1)] alphabet_key(1) [OF 3 char_fields_less(5)]
  show ?case
    using decoded_chars(1) [where a = a and b = "CHR 0x00"]
    by (simp only: encode_one base64_loop.simps Let_def key) simp
qed simp

lemma base64_decodes:
  assumes "is_alphabet key"
  shows "base64decode (base64encode key s) = Inr s"
  by (simp add: base64decode_def base64_size_encode [OF assms] base64_loop_encode [OF assms])

text \<open>C15: Decoding undoes encoding, for every text and for both alphabets: the decoder takes \<open>-\<close> and \<open>_\<close> for
  \<open>+\<close> and \<open>/\<close>, and the size it computes from the padding is that of the text.\<close>

theorem base64_round_trip:
  "base64decode (base64encode base64_alphabet s) = Inr s \<and> base64decode (base64encode_urlsafe s) = Inr s"
  by (simp add: base64encode_urlsafe_def base64_decodes alphabets)

end
