(* ===== verification/Sha1.thy ===== *)
theory Sha1
  imports Prelude Bits "HOL-Library.Word" "HOL-Library.While_Combinator"
begin

unbundle bit_operations_syntax

text \<open>
  SHA-1, \<open>lib/crow/TinySHA1.hpp\<close>: the class that takes a message byte by byte and, beside it,
  the function of the standard FIPS 180-4 on whole messages. The sums of 32-bit words wrap around.
\<close>

type_synonym byte = "8 word"
type_synonym word32 = "32 word"

section \<open>The class\<close>

record sha1 =
  sh_digest :: "word32 list"
  sh_block :: "byte list"      \<comment> \<open>64 bytes\<close>
  sh_index :: nat
  sh_count :: "64 word"

definition LeftRotate :: "word32 \<Rightarrow> nat \<Rightarrow> word32" where
  "LeftRotate v n = push_bit n v XOR drop_bit (32 - n) v"

text \<open>The members \<open>m_block\<close> and, before the first \<open>reset\<close>, the others are uninitialised.\<close>

definition sha1_reset :: "sha1 \<Rightarrow> sha1" where
  "sha1_reset s = s\<lparr>sh_digest := [0x67452301, 0xEFCDAB89, 0x98BADCFE, 0x10325476, 0xC3D2E1F0],
     sh_index := 0, sh_count := 0\<rparr>"

text \<open>The schedule: 16 words in big-endian order, then 64 computed from them.\<close>

definition block_word :: "byte list \<Rightarrow> nat \<Rightarrow> word32" where
  "block_word m i =
     push_bit 24 (ucast (m ! (i * 4))) OR push_bit 16 (ucast (m ! (i * 4 + 1)))
     OR push_bit 8 (ucast (m ! (i * 4 + 2))) OR ucast (m ! (i * 4 + 3))"

definition schedule :: "byte list \<Rightarrow> word32 list" where
  "schedule m =
     fold (\<lambda>i w. w @ [LeftRotate (w ! (i - 3) XOR w ! (i - 8) XOR w ! (i - 14) XOR w ! (i - 16)) 1])
       [16..<80] (map (block_word m) [0..<16])"

type_synonym chain = "word32 \<times> word32 \<times> word32 \<times> word32 \<times> word32"

definition sha1_round :: "word32 list \<Rightarrow> nat \<Rightarrow> chain \<Rightarrow> chain" where
  "sha1_round w i = (\<lambda>(a, b, c, d, e).
     let (f, k) =
       (if i < 20 then ((b AND c) OR (NOT b AND d), 0x5A827999)
        else if i < 40 then (b XOR c XOR d, 0x6ED9EBA1)
        else if i < 60 then ((b AND c) OR (b AND d) OR (c AND d), 0x8F1BBCDC)
        else (b XOR c XOR d, 0xCA62C1D6));
       temp = LeftRotate a 5 + f + e + k + w ! i
     in (temp, a, LeftRotate b 30, c, d))"

definition processBlock :: "sha1 \<Rightarrow> sha1" where
  "processBlock s =
     (let w = schedule (sh_block s); h = sh_digest s;
          (a, b, c, d, e) = fold (sha1_round w) [0..<80] (h ! 0, h ! 1, h ! 2, h ! 3, h ! 4)
      in s\<lparr>sh_digest := [h ! 0 + a, h ! 1 + b, h ! 2 + c, h ! 3 + d, h ! 4 + e]\<rparr>)"

definition processByte :: "byte \<Rightarrow> sha1 \<Rightarrow> sha1" where
  "processByte octet s =
     (let s = s\<lparr>sh_block := (sh_block s)[sh_index s := octet], sh_index := sh_index s + 1,
                sh_count := sh_count s + 1\<rparr>
      in if sh_index s = 64 then processBlock (s\<lparr>sh_index := 0\<rparr>) else s)"

definition processBytes :: "byte list \<Rightarrow> sha1 \<Rightarrow> sha1" where
  "processBytes data s = fold processByte data s"

text \<open>The padding: a bit, zeros up to the last eight bytes of a block, and the number of bits in four of them.\<close>

definition pad_while :: "(nat \<Rightarrow> bool) \<Rightarrow> sha1 \<Rightarrow> sha1" where
  "pad_while c s = while (\<lambda>s. c (sh_index s)) (processByte 0) s"

definition length_byte :: "nat \<Rightarrow> 64 word \<Rightarrow> byte" where
  "length_byte n bitCount = ucast (drop_bit n bitCount)"

definition getDigest :: "sha1 \<Rightarrow> sha1" where
  "getDigest s =
     (let bitCount = sh_count s * 8;
          s = processByte 0x80 s;
          s = (if 56 < sh_index s then pad_while (\<lambda>i. i < 56) (pad_while (\<lambda>i. i \<noteq> 0) s)
               else pad_while (\<lambda>i. i < 56) s)
      in processBytes [0, 0, 0, 0, length_byte 24 bitCount, length_byte 16 bitCount,
           length_byte 8 bitCount, length_byte 0 bitCount] s)"

definition word_bytes :: "word32 \<Rightarrow> byte list" where
  "word_bytes d = [ucast (drop_bit 24 d), ucast (drop_bit 16 d), ucast (drop_bit 8 d), ucast d]"

definition getDigestBytes :: "sha1 \<Rightarrow> byte list" where
  "getDigestBytes s = concat (map word_bytes (sh_digest (getDigest s)))"

section \<open>The standard\<close>

text \<open>FIPS 180-4, 4.1.1, 4.2.1, 5.1.1, 5.3.1 and 6.1.2.\<close>

definition fips_f :: "nat \<Rightarrow> word32 \<Rightarrow> word32 \<Rightarrow> word32 \<Rightarrow> word32" where
  "fips_f t x y z =
     (if t \<le> 19 then (x AND y) XOR (NOT x AND z)
      else if 40 \<le> t \<and> t \<le> 59 then (x AND y) XOR (x AND z) XOR (y AND z)
      else x XOR y XOR z)"

definition fips_K :: "nat \<Rightarrow> word32" where
  "fips_K t = (if t \<le> 19 then 0x5a827999 else if t \<le> 39 then 0x6ed9eba1 else if t \<le> 59 then 0x8f1bbcdc else 0xca62c1d6)"

fun fips_W :: "(nat \<Rightarrow> word32) \<Rightarrow> nat \<Rightarrow> word32" where
  "fips_W m t =
     (if t < 16 then m t
      else word_rotl 1 (fips_W m (t - 3) XOR fips_W m (t - 8) XOR fips_W m (t - 14) XOR fips_W m (t - 16)))"

declare fips_W.simps [simp del]

fun fips_rounds :: "(nat \<Rightarrow> word32) \<Rightarrow> nat \<Rightarrow> chain \<Rightarrow> chain" where
  "fips_rounds m 0 h = h"
| "fips_rounds m (Suc t) h =
     (case fips_rounds m t h of (a, b, c, d, e) \<Rightarrow>
        (word_rotl 5 a + fips_f t b c d + e + fips_K t + fips_W m t, a, word_rotl 30 b, c, d))"

fun fips_block :: "chain \<Rightarrow> (nat \<Rightarrow> word32) \<Rightarrow> chain" where
  "fips_block (a, b, c, d, e) m =
     (case fips_rounds m 80 (a, b, c, d, e) of
        (a', b', c', d', e') \<Rightarrow> (a' + a, b' + b, c' + c, d' + d, e' + e))"

definition fips_H :: chain where
  "fips_H = (0x67452301, 0xefcdab89, 0x98badcfe, 0x10325476, 0xc3d2e1f0)"

definition big_endian :: "nat \<Rightarrow> nat \<Rightarrow> byte list" where
  "big_endian k n = rev (map (\<lambda>i. of_nat (n div 256 ^ i)) [0..<k])"

text \<open>The least number of zeros that leaves room for the length.\<close>

definition fips_zeros :: "nat \<Rightarrow> nat" where
  "fips_zeros l = (LEAST k. (l + 1 + k) mod 64 = 56)"

definition fips_pad :: "byte list \<Rightarrow> byte list" where
  "fips_pad m = m @ 0x80 # replicate (fips_zeros (length m)) 0 @ big_endian 8 (8 * length m)"

definition block_of :: "byte list \<Rightarrow> nat \<Rightarrow> byte list" where
  "block_of m i = take 64 (drop (64 * i) m)"

definition fips_words :: "byte list \<Rightarrow> nat \<Rightarrow> word32" where
  "fips_words m i = of_nat (foldl (\<lambda>n b. 256 * n + unat b) 0 (take 4 (drop (4 * i) m)))"

definition chain_bytes :: "chain \<Rightarrow> byte list" where
  "chain_bytes = (\<lambda>(a, b, c, d, e). concat (map (\<lambda>w. big_endian 4 (unat w)) [a, b, c, d, e]))"

definition fips_sha1 :: "byte list \<Rightarrow> byte list" where
  "fips_sha1 m =
     (let p = fips_pad m
      in chain_bytes (foldl (\<lambda>h i. fips_block h (fips_words (block_of p i))) fips_H [0..<length p div 64]))"

section \<open>The parts\<close>

lemma LeftRotate_rotl:
  assumes "0 < n" "n < 32"
  shows "LeftRotate v n = word_rotl n v"
proof (rule bit_word_eqI)
  fix i
  assume "i < LENGTH(32)"
  then have i: "i < 32" by simp
  have far: "\<not> bit v (32 + i - n)" if "n \<le> i"
    using that bit_imp_le_length [of v "32 + i - n"] by auto
  have "(i + 32 - n) mod 32 = (if n \<le> i then i - n else 32 + i - n)"
  proof (cases "n \<le> i")
    case True
    then have "i + 32 - n = (i - n) + 32" by simp
    with True i show ?thesis by (simp only: mod_add_self2) simp
  next
    case False
    with assms show ?thesis by (simp add: add.commute)
  qed
  then show "bit (LeftRotate v n) i = bit (word_rotl n v) i"
    using i assms far
    by (simp add: LeftRotate_def bit_word_rotl_iff bit_push_bit_iff bit_drop_bit_eq bit_xor_iff)
qed

lemma choice: "(x AND y) OR (NOT x AND z) = (x AND y) XOR (NOT x AND (z :: word32))"
  by (rule bit_word_eqI) (auto simp: bit_and_iff bit_or_iff bit_xor_iff bit_not_iff)

lemma majority: "(x AND y) OR (x AND z) OR (y AND z) = (x AND y) XOR (x AND z) XOR (y AND (z :: word32))"
  by (rule bit_word_eqI) (auto simp: bit_and_iff bit_or_iff bit_xor_iff)

lemma schedule_prefix:
  assumes "n \<le> 64"
  shows "fold (\<lambda>i w. w @ [LeftRotate (w ! (i - 3) XOR w ! (i - 8) XOR w ! (i - 14) XOR w ! (i - 16)) 1])
     [16..<16 + n] (map (block_word m) [0..<16]) = map (fips_W (block_word m)) [0..<16 + n]"
  using assms
proof (induction n)
  case 0
  have "block_word m i = fips_W (block_word m) i" if "i < 16" for i
    using that by (subst fips_W.simps) simp
  then show ?case by simp
next
  case (Suc n)
  have "LeftRotate (map (fips_W (block_word m)) [0..<16 + n] ! (16 + n - 3) XOR map (fips_W (block_word m)) [0..<16 + n] ! (16 + n - 8)
      XOR map (fips_W (block_word m)) [0..<16 + n] ! (16 + n - 14) XOR map (fips_W (block_word m)) [0..<16 + n] ! (16 + n - 16)) 1
    = fips_W (block_word m) (16 + n)"
    unfolding fips_W.simps [of _ "16 + n"] by (simp add: LeftRotate_rotl add.commute)
  moreover have "[16..<16 + Suc n] = [16..<16 + n] @ [16 + n]" "[0..<16 + Suc n] = [0..<16 + n] @ [16 + n]"
    by (simp_all only: add_Suc_right upt_Suc) simp_all
  ultimately show ?case using Suc by (simp only: fold_append map_append) simp
qed

lemma schedule_fips: "schedule m = map (fips_W (block_word m)) [0..<80]"
  using schedule_prefix [of 64 m] by (simp add: schedule_def del: upt_rec_numeral)

lemma round_fips:
  "t < 80 \<Longrightarrow> sha1_round (schedule m) t (a, b, c, d, e) =
    (word_rotl 5 a + fips_f t b c d + e + fips_K t + fips_W (block_word m) t, a, word_rotl 30 b, c, d)"
  by (simp add: sha1_round_def schedule_fips fips_f_def fips_K_def LeftRotate_rotl choice majority Let_def
      del: upt_rec_numeral)

lemma rounds_fips: "n \<le> 80 \<Longrightarrow> fold (sha1_round (schedule m)) [0..<n] h = fips_rounds (block_word m) n h"
  by (induction n) (simp_all add: round_fips split: prod.split)

lemma fips_W_cong: "(\<And>i. i < 16 \<Longrightarrow> f i = g i) \<Longrightarrow> fips_W f t = fips_W g t"
proof (induction f t rule: fips_W.induct)
  case (1 f t)
  then show ?case by (subst (1 2) fips_W.simps) simp
qed

lemma fips_rounds_cong: "(\<And>i. i < 16 \<Longrightarrow> f i = g i) \<Longrightarrow> fips_rounds f t h = fips_rounds g t h"
  by (induction t) (simp_all add: fips_W_cong [of f g] split: prod.split)

lemma take_4_drop: "k + 4 \<le> length m \<Longrightarrow> take 4 (drop k m) = [m ! k, m ! (k + 1), m ! (k + 2), m ! (k + 3)]"
  by (rule nth_equalityI) (auto simp: nth_Cons' less_Suc_eq numeral_eq_Suc)

lemma block_word_fips:
  assumes "length m = 64" "i < 16"
  shows "block_word m i = fips_words m i"
proof -
  have word: "push_bit 24 (ucast a) OR push_bit 16 (ucast b) OR push_bit 8 (ucast c) OR ucast d =
      (of_nat (256 * (256 * (256 * unat a + unat b) + unat c) + unat d) :: word32)" for a b c d :: byte
  proof -
    have "unat a < 256" "unat b < 256" "unat c < 256" "unat d < 256"
      using unsigned_less [of a, where ?'a = nat] unsigned_less [of b, where ?'a = nat] unsigned_less [of c, where ?'a = nat]
      unsigned_less [of d, where ?'a = nat] by simp_all
    then have "push_bit 24 (unat a) OR push_bit 16 (unat b) OR push_bit 8 (unat c) OR unat d =
        256 * (256 * (256 * unat a + unat b) + unat c) + unat d"
      by (simp add: push_bit_or)
    moreover have "push_bit n (ucast x) = (of_nat (push_bit n (unat x)) :: word32)" "ucast x = (of_nat (unat x) :: word32)"
      for n and x :: byte
      by (simp_all add: of_nat_push_bit)
    ultimately show ?thesis by (simp only: of_nat_or_eq [symmetric])
  qed
  have "take 4 (drop (i * 4) m) = [m ! (i * 4), m ! (i * 4 + 1), m ! (i * 4 + 2), m ! (i * 4 + 3)]"
    using assms by (intro take_4_drop) simp
  then show ?thesis unfolding block_word_def fips_words_def word by (simp add: mult.commute)
qed

section \<open>Taking bytes\<close>

definition chain_list :: "chain \<Rightarrow> word32 list" where
  "chain_list = (\<lambda>(a, b, c, d, e). [a, b, c, d, e])"

lemma processBlock_fips:
  assumes "length (sh_block s) = 64" "sh_digest s = chain_list h"
  shows "processBlock s = s\<lparr>sh_digest := chain_list (fips_block h (fips_words (sh_block s)))\<rparr>"
proof -
  obtain a b c d e where h: "h = (a, b, c, d, e)" by (cases h)
  have "fips_rounds (block_word (sh_block s)) 80 h = fips_rounds (fips_words (sh_block s)) 80 h"
    using block_word_fips [OF assms(1)] by (rule fips_rounds_cong)
  then show ?thesis
    using assms(2) rounds_fips [of 80 "sh_block s" h]
    by (auto simp: processBlock_def Let_def chain_list_def h add.commute split: prod.splits)
qed

definition fips_blocks :: "byte list \<Rightarrow> chain" where
  "fips_blocks m = foldl (\<lambda>h i. fips_block h (fips_words (block_of m i))) fips_H [0..<length m div 64]"

text \<open>The state after some bytes: the whole blocks are in the digest, the rest is in the block.\<close>

definition sha1_after :: "byte list \<Rightarrow> sha1 \<Rightarrow> bool" where
  "sha1_after m s \<longleftrightarrow>
     sh_digest s = chain_list (fips_blocks m) \<and> sh_index s = length m mod 64 \<and> sh_count s = of_nat (length m)
     \<and> length (sh_block s) = 64 \<and> take (sh_index s) (sh_block s) = drop (64 * (length m div 64)) m"

lemma fips_blocks_append:
  assumes "k = length (m @ n) div 64" "64 * k \<le> length m"
  shows "fips_blocks (m @ n) = fips_blocks m"
proof -
  have "block_of (m @ n) i = block_of m i" if "i < k" for i
  proof -
    have "64 * i + 64 \<le> length m" using that assms(2) by linarith
    then show ?thesis by (simp add: block_of_def)
  qed
  moreover have "length m div 64 = k" using assms by (auto intro: antisym div_le_mono)
  ultimately show ?thesis using assms(1) by (auto simp: fips_blocks_def intro!: foldl_cong)
qed

lemma sha1_after_reset: "length (sh_block s) = 64 \<Longrightarrow> sha1_after [] (sha1_reset s)"
  by (simp add: sha1_after_def sha1_reset_def chain_list_def fips_blocks_def fips_H_def)

lemma sha1_after_byte:
  assumes "sha1_after m s"
  shows "sha1_after (m @ [b]) (processByte b s)"
proof -
  let ?q = "length m div 64" and ?r = "length m mod 64"
  have s: "sh_digest s = chain_list (fips_blocks m)" "sh_index s = ?r" "sh_count s = of_nat (length m)" "length (sh_block s) = 64"
    "take ?r (sh_block s) = drop (64 * ?q) m"
    using assms by (auto simp: sha1_after_def)
  have l: "length m = 64 * ?q + ?r" by simp
  have block: "take (?r + 1) ((sh_block s)[?r := b]) = drop (64 * ?q) m @ [b]"
    using s(4, 5) by (simp add: take_Suc_conv_app_nth)
  show ?thesis
  proof (cases "?r + 1 = 64")
    case False
    then have r: "?r + 1 < 64" using mod_less_divisor [of 64 "length m"] by linarith
    have "(length m + 1) div 64 = ?q" "(length m + 1) mod 64 = ?r + 1"
      using r by (auto simp: div_Suc mod_Suc)
    then show ?thesis
      using s r block fips_blocks_append [of ?q m "[b]"] by (auto simp: sha1_after_def processByte_def Let_def)
  next
    case True
    have q: "(length m + 1) div 64 = ?q + 1" "(length m + 1) mod 64 = 0"
      using True by (auto simp: div_Suc mod_Suc)
    have "(sh_block s)[?r := b] = drop (64 * ?q) m @ [b]"
      using block s True by simp
    moreover have "block_of (m @ [b]) ?q = drop (64 * ?q) m @ [b]"
      using True l by (simp add: block_of_def)
    moreover have "fips_blocks (m @ [b]) =
        fips_block (fips_blocks m) (fips_words (block_of (m @ [b]) ?q))"
    proof -
      have "block_of (m @ [b]) i = block_of m i" if "i < ?q" for i
        using that l by (simp add: block_of_def)
      then show ?thesis using q(1) by (auto simp: fips_blocks_def intro!: foldl_cong arg_cong2 [where f = fips_block])
    qed
    ultimately show ?thesis
      using s True q by (simp add: sha1_after_def processByte_def processBlock_fips Let_def)
  qed
qed

lemma sha1_after_bytes: "sha1_after m s \<Longrightarrow> sha1_after (m @ n) (processBytes n s)"
proof (induction n arbitrary: m s)
  case (Cons b n)
  from Cons.IH [OF sha1_after_byte [OF Cons.prems], of b] show ?case by (simp add: processBytes_def)
qed (simp add: processBytes_def)

section \<open>The padding\<close>

lemma pad_while_unfold: "pad_while c s = (if c (sh_index s) then pad_while c (processByte 0 s) else s)"
  unfolding pad_while_def by (subst while_unfold) simp

lemma processBytes_Cons [simp]: "processBytes (b # n) s = processBytes n (processByte b s)"
  by (simp add: processBytes_def)

lemma processBytes_Nil [simp]: "processBytes [] s = s"
  by (simp add: processBytes_def)

lemma processBytes_append: "processBytes (m @ n) s = processBytes n (processBytes m s)"
  by (simp add: processBytes_def)

lemma pad_to_56:
  "sha1_after m s \<Longrightarrow> length m mod 64 + k = 56 \<Longrightarrow> pad_while (\<lambda>i. i < 56) s = processBytes (replicate k 0) s"
proof (induction k arbitrary: m s)
  case 0
  then show ?case by (subst pad_while_unfold) (simp add: sha1_after_def)
next
  case (Suc k)
  have "length (m @ [0]) mod 64 + k = 56" using Suc.prems(2) by (simp add: mod_Suc)
  from Suc.IH [OF sha1_after_byte [OF Suc.prems(1)] this] show ?case
    using Suc.prems by (subst pad_while_unfold) (simp add: sha1_after_def)
qed

lemma pad_to_0:
  "sha1_after m s \<Longrightarrow> length m mod 64 + Suc k = 64 \<Longrightarrow> 0 < length m mod 64 \<Longrightarrow>
   pad_while (\<lambda>i. i \<noteq> 0) s = processBytes (replicate (Suc k) 0) s"
proof (induction k arbitrary: m s)
  case 0
  have "sh_index (processByte 0 s) = 0"
    using sha1_after_byte [OF 0(1), of 0] 0(2) by (simp add: sha1_after_def mod_Suc)
  then have "pad_while (\<lambda>i. i \<noteq> 0) (processByte 0 s) = processByte 0 s" by (subst pad_while_unfold) simp
  then show ?case using 0 by (subst pad_while_unfold) (simp add: sha1_after_def)
next
  case (Suc k)
  have "length (m @ [0]) mod 64 + Suc k = 64" "0 < length (m @ [0]) mod 64"
    using Suc.prems(2) by (simp_all add: mod_Suc)
  from Suc.IH [OF sha1_after_byte [OF Suc.prems(1)] this] show ?case
    using Suc.prems by (subst pad_while_unfold) (simp add: sha1_after_def)
qed

lemma fips_zeros_eq:
  "fips_zeros l = (let r = (l + 1) mod 64 in if 56 < r then 120 - r else 56 - r)"
proof -
  let ?r = "(l + 1) mod 64"
  have r: "?r < 64" by simp
  have "(l + 1 + k) mod 64 = (?r + k) mod 64" for k by (simp add: mod_add_left_eq)
  moreover have "(LEAST k. (?r + k) mod 64 = 56) = (if 56 < ?r then 120 - ?r else 56 - ?r)"
  proof (rule Least_equality)
    show "(?r + (if 56 < ?r then 120 - ?r else 56 - ?r)) mod 64 = 56"
      using r by auto
  next
    fix k
    assume k: "(?r + k) mod 64 = 56"
    show "(if 56 < ?r then 120 - ?r else 56 - ?r) \<le> k"
    proof (rule ccontr)
      assume less: "\<not> ?thesis"
      show False
      proof (cases "?r + k < 64")
        case True
        with k less show False by (auto split: if_splits)
      next
        case False
        then have "(?r + k) mod 64 = (?r + k - 64) mod 64" by (simp add: le_mod_geq)
        with k less False r show False by (auto split: if_splits)
      qed
    qed
  qed
  ultimately show ?thesis by (simp add: fips_zeros_def Let_def)
qed

lemma padding_zeros:
  assumes "sha1_after m s" "m = m' @ [b]"
  shows "(if 56 < sh_index s then pad_while (\<lambda>i. i < 56) (pad_while (\<lambda>i. i \<noteq> 0) s) else pad_while (\<lambda>i. i < 56) s)
    = processBytes (replicate (fips_zeros (length m')) 0) s"
proof -
  let ?r = "length m mod 64"
  have r: "sh_index s = ?r" "?r < 64" using assms(1) by (simp_all add: sha1_after_def)
  have zeros: "fips_zeros (length m') = (if 56 < ?r then 120 - ?r else 56 - ?r)"
    by (simp add: fips_zeros_eq assms(2) Let_def)
  show ?thesis
  proof (cases "56 < ?r")
    case False
    with r zeros pad_to_56 [OF assms(1), of "56 - ?r"] show ?thesis by simp
  next
    case True
    define t where "t = processBytes (replicate (64 - ?r) 0) s"
    have first: "pad_while (\<lambda>i. i \<noteq> 0) s = t"
      using True r(2) pad_to_0 [OF assms(1), of "63 - ?r"] by (simp add: t_def Suc_diff_Suc [symmetric])
    have "l + (64 - i) = 64 * (q + 1)" if "q * 64 + i = l" "i < 64" for l q i :: nat
      using that by simp
    from this [OF div_mult_mod_eq r(2)] have "length m + (64 - ?r) = 64 * (length m div 64 + 1)" .
    then have "length (m @ replicate (64 - ?r) 0) mod 64 + 56 = 56"
      by (simp only: length_append length_replicate mod_mult_self1_is_0)
    moreover have "sha1_after (m @ replicate (64 - ?r) 0) t" unfolding t_def by (rule sha1_after_bytes [OF assms(1)])
    ultimately have "pad_while (\<lambda>i. i < 56) t = processBytes (replicate 56 0) t" by (intro pad_to_56)
    moreover have "replicate (120 - ?r) 0 = replicate (64 - ?r) 0 @ replicate 56 (0 :: byte)"
      using True r(2) replicate_add [of "64 - ?r" 56 "0 :: byte"] by simp
    ultimately show ?thesis
      using True by (simp only: r(1) first zeros if_True processBytes_append t_def)
  qed
qed

lemma length_fields:
  assumes "n < 2 ^ 32"
  shows "[0, 0, 0, 0, length_byte 24 (of_nat n), length_byte 16 (of_nat n), length_byte 8 (of_nat n), length_byte 0 (of_nat n)]
    = big_endian 8 n"
proof -
  have n: "unat (of_nat n :: 64 word) = n" using assms by (simp add: unat_of_nat)
  have "length_byte k (of_nat n) = of_nat (unat (drop_bit k (of_nat n :: 64 word)))" for k
    unfolding length_byte_def by simp
  then have "length_byte k (of_nat n) = of_nat (n div 2 ^ k)" for k
    by (simp only: unat_drop_bit_eq n) (simp only: drop_bit_eq_div)
  then show ?thesis using assms by (simp add: big_endian_def upt_rec)
qed

lemma word_bytes_big_endian: "word_bytes w = big_endian 4 (unat w)"
proof -
  have "ucast (drop_bit n w) = (of_nat (unat w div 2 ^ n) :: byte)" for n
    by (simp add: drop_bit_eq_div [symmetric] unat_drop_bit_eq [symmetric])
  from this [of 24] this [of 16] this [of 8] show ?thesis
    by (simp add: word_bytes_def big_endian_def upt_rec)
qed

lemma getDigest_blocks:
  assumes "sha1_after m s" "8 * length m < 2 ^ 32"
  shows "sh_digest (getDigest s) = chain_list (fips_blocks (fips_pad m))"
proof -
  have n: "sh_count s * 8 = of_nat (8 * length m)"
    using assms(1) by (simp add: sha1_after_def mult.commute)
  have pad: "fips_pad m = ((m @ [0x80]) @ replicate (fips_zeros (length m)) 0) @ big_endian 8 (8 * length m)"
    by (simp add: fips_pad_def)
  have "sha1_after (fips_pad m) (getDigest s)"
    unfolding pad getDigest_def Let_def n padding_zeros [OF sha1_after_byte [OF assms(1)] refl] length_fields [OF assms(2)]
    by (intro sha1_after_bytes sha1_after_byte assms(1))
  then show ?thesis by (simp add: sha1_after_def)
qed

lemma sha1_computes_fips:
  assumes "length (sh_block s) = 64" "8 * length m < 2 ^ 32"
  shows "getDigestBytes (processBytes m (sha1_reset s)) = fips_sha1 m"
proof -
  obtain a b c d e where h: "fips_blocks (fips_pad m) = (a, b, c, d, e)" by (cases "fips_blocks (fips_pad m)")
  have "sh_digest (getDigest (processBytes m (sha1_reset s))) = chain_list (fips_blocks (fips_pad m))"
    using getDigest_blocks [OF sha1_after_bytes [OF sha1_after_reset [OF assms(1)], of m]] assms(2) by simp
  then show ?thesis
    by (simp add: getDigestBytes_def h chain_list_def fips_sha1_def chain_bytes_def Let_def word_bytes_big_endian
        flip: fips_blocks_def)
qed

text \<open>C14: A message of less than 512 MB, given in two pieces to a hash object whatever it was used for before,
  has the digest of the standard: the block buffer, the padding, the length and the eighty rounds are those
  of FIPS 180-4. The counter of the code would go further, but only 32 bits of it are written.\<close>

theorem digest_is_sha1:
  assumes "length (sh_block s) = 64" "8 * (length m + length n) < 2 ^ 32"
  shows "getDigestBytes (processBytes n (processBytes m (sha1_reset s))) = fips_sha1 (m @ n)"
  using sha1_computes_fips [OF assms(1), of "m @ n"] assms(2) by (simp add: processBytes_append)

theorem digest_is_sha1_witness:
  "getDigestBytes (processBytes [0x63] (processBytes [0x61, 0x62] (sha1_reset
      \<lparr> sh_digest = [], sh_block = replicate 64 7, sh_index = 3, sh_count = 9 \<rparr>))) = fips_sha1 [0x61, 0x62, 0x63]"
  using digest_is_sha1 [of "\<lparr> sh_digest = [], sh_block = replicate 64 7, sh_index = 3, sh_count = 9 \<rparr>" "[0x61, 0x62]" "[0x63]"]
  by simp

end
