(* ===== verification/Handshake.thy ===== *)
theory Handshake
  imports Http Base64 Sha1 WebSocketRuns
begin

text \<open>
  The constructor of a websocket connection, \<open>lib/crow/websocket.h\<close>: the check of the upgrade
  header, the choice of the subprotocol, the accept handler of the application and the answer
  to the client's key.
\<close>

definition magic_guid :: string where
  "magic_guid = ''258EAFA5-E914-47DA-95CA-C5AB0DC85B11''"

definition string_bytes :: "string \<Rightarrow> byte list" where
  "string_bytes s = map of_char s"

definition bytes_string :: "byte list \<Rightarrow> string" where
  "bytes_string bs = map (\<lambda>b. char_of (unat b)) bs"

text \<open>The hash object \<open>raw\<close> is on the stack: its block is uninitialised.\<close>

definition accept_key :: "sha1 \<Rightarrow> string \<Rightarrow> string" where
  "accept_key raw key =
     (let magic = key @ magic_guid; s = processBytes (string_bytes magic) (sha1_reset raw)
      in base64encode base64_alphabet (bytes_string (getDigestBytes s)))"

text \<open>\<open>None\<close>: the split does not end, which cannot happen for a separator that is not empty.\<close>

definition choose_subprotocol :: "string list \<Rightarrow> bool \<Rightarrow> string \<Rightarrow> string option" where
  "choose_subprotocol subprotocols mirror_protocols requested =
     Option.bind
       (if subprotocols \<noteq> [] \<or> requested \<noteq> []
        then Option.bind (split '', '' requested) (\<lambda>requested_subprotocols.
          Some (case find_first_of subprotocols requested_subprotocols of Some p \<Rightarrow> p | None \<Rightarrow> []))
        else Some [])
       (\<lambda>subprotocol. Some (if mirror_protocols \<and> requested \<noteq> [] then requested else subprotocol))"

text \<open>The socket is closed without an answer, and the object deleted.\<close>

definition refuse :: "ws \<Rightarrow> ws" where
  "refuse s = (close_socket s)\<lparr>ws_removed := ws_removed s + 1, ws_deleted := True\<rparr>"

text \<open>The accept handler, if there is one, says whether it accepts and gives the user data.\<close>

definition new_Connection ::
  "sha1 \<Rightarrow> nat \<Rightarrow> string list \<Rightarrow> bool \<Rightarrow> (request \<Rightarrow> bool \<times> 'u) option \<Rightarrow> request \<Rightarrow> (ws \<times> 'u option) option" where
  "new_Connection raw max_payload subprotocols mirror_protocols accept_handler req =
     (let s = fresh_ws max_payload []; header = get_header_value (rq_headers req)
      in if \<not> string_equals False (header ''upgrade'') ''websocket'' then Some (refuse s, None)
         else Option.bind (choose_subprotocol subprotocols mirror_protocols (header ''Sec-WebSocket-Protocol'')) (\<lambda>p.
           let s = s\<lparr>ws_subprotocol := p\<rparr>; hello = accept_key raw (header ''Sec-WebSocket-Key'')
           in Some (case accept_handler of
                      None \<Rightarrow> (start_ws hello s, None)
                    | Some f \<Rightarrow>
                        (case f req of
                           (False, _) \<Rightarrow> (refuse s, None)
                         | (True, ud) \<Rightarrow> (start_ws hello s, Some ud)))))"

section \<open>The answer\<close>

lemma accept_key_fips:
  assumes "length (sh_block raw) = 64" "8 * (length key + 36) < 2 ^ 32"
  shows "accept_key raw key = base64encode base64_alphabet (bytes_string (fips_sha1 (string_bytes (key @ magic_guid))))"
proof -
  have "length (string_bytes (key @ magic_guid)) = length key + 36"
    by (simp add: string_bytes_def magic_guid_def)
  with sha1_computes_fips [OF assms(1), of "string_bytes (key @ magic_guid)"] assms(2) show ?thesis
    by (simp add: accept_key_def Let_def)
qed

lemma choose_subprotocol_returns: "\<exists>p. choose_subprotocol ps mirror requested = Some p"
proof -
  obtain qs where "split '', '' requested = Some qs" using split_joined [of "'', ''" requested] by auto
  then show ?thesis by (simp add: choose_subprotocol_def)
qed

lemma first_offered:
  assumes "find_first_of ps qs = Some p"
  shows "p \<in> set ps \<and> p \<in> set qs \<and> (\<exists>i<length ps. ps ! i = p \<and> (\<forall>j<i. ps ! j \<notin> set qs))"
  using assms by (auto simp: find_first_of_def find_Some_iff)

text \<open>The subprotocol is offered by the server and listed by the client, separated by a comma and a space.\<close>

lemma chosen_subprotocol:
  assumes "choose_subprotocol ps False requested = Some p" "p \<noteq> []"
  shows "\<exists>qs. joined '', '' qs = requested \<and> p \<in> set qs \<and> (\<exists>i<length ps. ps ! i = p \<and> (\<forall>j<i. ps ! j \<notin> set qs))"
proof -
  obtain qs where qs: "split '', '' requested = Some qs" "joined '', '' qs = requested"
    using split_joined [of "'', ''" requested] by blast
  have "find_first_of ps qs = Some p"
    using assms qs(1) by (cases "find_first_of ps qs"; cases "ps = [] \<and> requested = []")
      (simp_all add: choose_subprotocol_def)
  from first_offered [OF this] qs(2) show ?thesis by (intro exI [of _ qs]) simp
qed

text \<open>A client may leave out the space; then nothing is chosen.\<close>

lemma comma_without_space: "choose_subprotocol [''chat''] False ''superchat,chat'' = Some []"
proof -
  have "find_sub '', '' ''superchat,chat'' = None" by code_simp
  then have "split '', '' ''superchat,chat'' = Some [''superchat,chat'']" by (subst split.simps) simp
  then show ?thesis by (simp add: choose_subprotocol_def find_first_of_def)
qed

lemma started_connection:
  "ws_written (start_ws hello (fresh_ws n p)) = handshake hello p" "ws_calls (start_ws hello (fresh_ws n p)) = [Opened]"
  "\<not> ws_deleted (start_ws hello (fresh_ws n p))" "ws_wants (start_ws hello (fresh_ws n p)) = Some (False, 2)"
  by (simp_all add: start_ws_def Let_def call_handler_def do_write_def fresh_ws_def handshake_def
      do_read_MiniHeader both_closed_def)

lemma upper_websocket: "map toupper ''websocket'' = ''WEBSOCKET''" "map toupper ''WebSocket'' = ''WEBSOCKET''"
  by code_simp+

lemma fresh_subprotocol: "(fresh_ws n [])\<lparr>ws_subprotocol := p\<rparr> = fresh_ws n p"
  by (simp add: fresh_ws_def)


text \<open>The example of RFC 6455.\<close>

definition example_upgrade :: request where
  "example_upgrade = \<lparr> rq_method = 1, rq_raw_url = ''/ws'', rq_url = ''/ws'', rq_headers = [(''Upgrade'', ''WebSocket''),
     (''Sec-WebSocket-Key'', ''dGhlIHNhbXBsZSBub25jZQ=='')], rq_body = [], rq_version = (1, 1), rq_keep_alive = True,
     rq_close = False, rq_upgrade = True \<rparr>"

definition some_sha1 :: sha1 where
  "some_sha1 = \<lparr> sh_digest = [], sh_block = replicate 64 0, sh_index = 0, sh_count = 0 \<rparr>"

lemma example_headers:
  "get_header_value (rq_headers example_upgrade) ''upgrade'' = ''WebSocket''"
  "get_header_value (rq_headers example_upgrade) ''Sec-WebSocket-Key'' = ''dGhlIHNhbXBsZSBub25jZQ==''"
  by code_simp+


theorem handshake_is_refused:
  assumes "map toupper (get_header_value (rq_headers req) ''upgrade'') \<noteq> ''WEBSOCKET''
    \<or> (\<exists>f ud. accept_handler = Some f \<and> f req = (False, ud))"
  shows "\<exists>s. new_Connection raw n ps mirror accept_handler req = Some (s, None)
    \<and> ws_written s = [] \<and> ws_calls s = [] \<and> ws_deleted s \<and> \<not> ws_socket_open s"
proof -
  obtain p where p: "choose_subprotocol ps mirror (get_header_value (rq_headers req) ''Sec-WebSocket-Protocol'') = Some p"
    using choose_subprotocol_returns by blast
  have "string_equals False (get_header_value (rq_headers req) ''upgrade'') ''websocket''
      \<longleftrightarrow> map toupper (get_header_value (rq_headers req) ''upgrade'') = ''WEBSOCKET''"
    by (simp only: string_equals_insensitive upper_websocket)
  then show ?thesis
    using p assms by (auto simp: new_Connection_def Let_def refuse_def close_socket_def fresh_ws_def)
qed

end
