(* ===== verification/Routing.thy ===== *)
theory Routing
  imports TextIO Http "HOL-Library.Word"
begin

text \<open>
  The search tree of Crow's router, \<open>lib/crow/routing.h\<close>: adding a rule, merging chains of
  nodes, and finding the rule for a URL. A position in the URL is the text from there on.
\<close>

section \<open>Parameters\<close>

datatype param_type = P_INT | P_UINT | P_DOUBLE | P_STRING | P_PATH | P_MAX

record 'a routing_params =
  int_params :: "int list"
  uint_params :: "int list"
  double_params :: "'a list"
  string_params :: "string list"

definition no_params :: "'a routing_params" where
  "no_params = \<lparr> int_params = [], uint_params = [], double_params = [], string_params = [] \<rparr>"

text \<open>\<open>strtoll\<close> and \<open>strtoull\<close> in base 10: the value and the number of characters, \<open>None\<close> without a number
  or out of range. \<open>strtod\<close> is a parameter with the same result.\<close>

definition strtoll :: "string \<Rightarrow> (int \<times> nat) option" where
  "strtoll s =
     (let (neg, t) = scan_sign (dropWhile is_space s); (ds, u) = scan_digits t;
          v = (if neg then - int (read_nat ds) else int (read_nat ds))
      in if ds = [] \<or> v < - (2 ^ 63) \<or> 2 ^ 63 \<le> v then None else Some (v, length s - length u))"

definition strtoull :: "string \<Rightarrow> (int \<times> nat) option" where
  "strtoull s =
     (let (neg, t) = scan_sign (dropWhile is_space s); (ds, u) = scan_digits t; v = int (read_nat ds)
      in if ds = [] \<or> 2 ^ 64 \<le> v then None else Some ((if neg then - v else v) mod 2 ^ 64, length s - length u))"

type_synonym 'a strtod = "string \<Rightarrow> ('a \<times> nat) option"

text \<open>What a parameter takes of the text: the parameters with the new one, and the number of characters.\<close>

definition take_param ::
  "'a strtod \<Rightarrow> param_type \<Rightarrow> string \<Rightarrow> 'a routing_params \<Rightarrow> ('a routing_params \<times> nat) option" where
  "take_param strtod p s ps =
     (let c = hd s; number = is_digit c
      in case p of
           P_INT \<Rightarrow> if number \<or> c = CHR ''+'' \<or> c = CHR ''-''
                    then map_option (\<lambda>(v, n). (ps\<lparr>int_params := int_params ps @ [v]\<rparr>, n)) (strtoll s) else None
         | P_UINT \<Rightarrow> if number \<or> c = CHR ''+''
                     then map_option (\<lambda>(v, n). (ps\<lparr>uint_params := uint_params ps @ [v]\<rparr>, n)) (strtoull s) else None
         | P_DOUBLE \<Rightarrow> if number \<or> c = CHR ''+'' \<or> c = CHR ''-'' \<or> c = CHR ''.''
                       then map_option (\<lambda>(v, n). (ps\<lparr>double_params := double_params ps @ [v]\<rparr>, n)) (strtod s) else None
         | P_STRING \<Rightarrow> (let w = takeWhile (\<lambda>c. c \<noteq> CHR ''/'') s
                        in if w \<noteq> [] then Some (ps\<lparr>string_params := string_params ps @ [w]\<rparr>, length w) else None)
         | P_PATH \<Rightarrow> if s \<noteq> [] then Some (ps\<lparr>string_params := string_params ps @ [s]\<rparr>, length s) else None
         | P_MAX \<Rightarrow> None)"

section \<open>The tree\<close>

definition INVALID_BP_ID :: "16 word" where "INVALID_BP_ID = - 1"

datatype node = Node (nd_rule: nat) (nd_bp: "16 word") (nd_key: string) (nd_param: param_type) (nd_children: "node list")

definition new_node :: node where
  "new_node = Node 0 INVALID_BP_ID [] P_MAX []"

definition IsSimpleNode :: "node \<Rightarrow> bool" where
  "IsSimpleNode n \<longleftrightarrow>
     nd_rule n = 0 \<and> nd_bp n = INVALID_BP_ID \<and> length (nd_children n) < 2 \<and> nd_param n = P_MAX
     \<and> list_all (\<lambda>x. nd_param x = P_MAX) (nd_children n)"

function optimizeNode :: "node \<Rightarrow> node" where
  "optimizeNode (Node r b k p cs) =
     (if cs = [] then Node r b k p cs
      else if IsSimpleNode (Node r b k p cs)
      then let child_temp = hd cs
           in optimizeNode (Node (nd_rule child_temp) (nd_bp child_temp) (k @ nd_key child_temp) p (nd_children child_temp))
      else Node r b k p (map optimizeNode cs))"
  by pat_completeness auto

lemma size_child: "c \<in> set cs \<Longrightarrow> size c < Suc (size_list size cs)"
  by (induction cs) auto

lemma size_children: "size_list size (nd_children c) < size c"
  by (cases c) simp

termination optimizeNode
proof (relation "measure size", simp_all only: in_measure wf_measure node.size)
  fix r b p and k :: string and cs :: "node list" and c
  assume "cs \<noteq> []"
  then have "hd cs \<in> set cs" by simp
  then show "size_list size (nd_children (hd cs)) + Suc 0 < size_list size cs + Suc 0"
    using size_children [of "hd cs"] size_child [of "hd cs" cs] by linarith
qed (use size_child in auto)

text \<open>\<open>optimize\<close>: the head is kept.\<close>

definition optimize :: "node \<Rightarrow> node" where
  "optimize t = (case t of Node r b k p cs \<Rightarrow> Node r b k p (map optimizeNode cs))"

definition is_empty_trie :: "node \<Rightarrow> bool" where
  "is_empty_trie t \<longleftrightarrow> nd_children t = []"

definition validate_trie :: "node \<Rightarrow> node res" where
  "validate_trie t =
     (if \<not> IsSimpleNode t then Inl (Runtime_error ''Internal error: Trie header should be simple!'')
      else Inr (optimize t))"

section \<open>Finding a rule\<close>

text \<open>
  A result is the rule, the indices of the blueprints and the parameters. The vector of indices
  that is passed by pointer is given and returned; a vector that was moved from is empty. The
  vectors of parameters are pushed to and popped from in pairs.
\<close>

type_synonym 'a found = "nat \<times> 16 word list \<times> 'a routing_params"

definition update_found :: "'a found \<Rightarrow> 'a found \<Rightarrow> 'a found" where
  "update_found ret f =
     (let (found, _, match_params) = f; (rule_index, bps, r_params) = ret
      in if rule_index \<noteq> 0 \<and> (found = 0 \<or> found > rule_index) then (rule_index, bps, r_params)
         else (found, bps, match_params))"

text \<open>How far a child takes the text, and the parameters below it.\<close>

definition enter_child :: "'a strtod \<Rightarrow> node \<Rightarrow> string \<Rightarrow> 'a routing_params \<Rightarrow> ('a routing_params \<times> nat) option" where
  "enter_child strtod child s ps =
     (if nd_param child \<noteq> P_MAX then take_param strtod (nd_param child) s ps
      else if take (length (nd_key child)) s = nd_key child then Some (ps, length (nd_key child)) else None)"

definition push_bp :: "node \<Rightarrow> 16 word list \<Rightarrow> 16 word list" where
  "push_bp child bps = (if nd_bp child \<noteq> INVALID_BP_ID then bps @ [nd_bp child] else bps)"

function (sequential) find ::
    "'a strtod \<Rightarrow> string \<Rightarrow> node \<Rightarrow> 'a routing_params \<Rightarrow> 16 word list \<Rightarrow> 'a found \<times> 16 word list"
  and find_children ::
    "'a strtod \<Rightarrow> string \<Rightarrow> node list \<Rightarrow> 'a routing_params \<Rightarrow> 16 word list \<Rightarrow> bool \<Rightarrow> 'a found
     \<Rightarrow> bool \<times> 'a found \<times> 16 word list" where
  "find strtod s (Node r b k p cs) ps bps =
     (if s = [] then ((r, [], ps), [])
      else let (found_fragment, (found, found_BP, match_params), bps) = find_children strtod s cs ps bps False (0, [], no_params)
           in if \<not> found_fragment then ((found, bps, match_params), [])
              else ((found, found_BP, match_params), bps))"
| "find_children strtod s [] ps bps found_fragment f = (found_fragment, f, bps)"
| "find_children strtod s (child # cs) ps bps found_fragment f =
     (case enter_child strtod child s ps of
        None \<Rightarrow> find_children strtod s cs ps bps found_fragment f
      | Some (ps', n) \<Rightarrow>
          let (ret, bps) = find strtod (drop n s) child ps' (push_bp child bps)
          in find_children strtod s cs ps (butlast bps) True (update_found ret f))"
  by pat_completeness auto

termination
  by (relation "measure (\<lambda>x. case x of Inl (_, _, n, _) \<Rightarrow> 2 * size n | Inr (_, _, cs, _) \<Rightarrow> 2 * size_list size cs + 1)")
    auto

definition find_rule :: "'a strtod \<Rightarrow> string \<Rightarrow> node \<Rightarrow> 'a found" where
  "find_rule strtod req_url t = fst (find strtod req_url t no_params [])"

section \<open>Adding a rule\<close>

definition paramTraits :: "(param_type \<times> string) list" where
  "paramTraits =
     [(P_INT, ''<int>''), (P_UINT, ''<uint>''), (P_DOUBLE, ''<float>''), (P_DOUBLE, ''<double>''),
      (P_STRING, ''<str>''), (P_STRING, ''<string>''), (P_PATH, ''<path>'')]"

definition find_trait :: "string \<Rightarrow> (param_type \<times> string) option" where
  "find_trait s = List.find (\<lambda>(_, name). take (length name) s = name) paramTraits"

text \<open>The index of the first child that satisfies a condition.\<close>

fun find_child :: "(node \<Rightarrow> bool) \<Rightarrow> node list \<Rightarrow> nat option" where
  "find_child f [] = None"
| "find_child f (c # cs) = (if f c then Some 0 else map_option Suc (find_child f cs))"

text \<open>\<open>key[0]\<close>: the terminating NUL for an empty key.\<close>

definition key_starts :: "char \<Rightarrow> node \<Rightarrow> bool" where
  "key_starts c child \<longleftrightarrow> (case nd_key child of [] \<Rightarrow> CHR 0x00 | d # _ \<Rightarrow> d) = c"

text \<open>The child that satisfies a condition, or a new one behind the others: the children and its index.\<close>

definition child_or_new :: "(node \<Rightarrow> bool) \<Rightarrow> node \<Rightarrow> node list \<Rightarrow> node list \<times> nat" where
  "child_or_new f new cs = (case find_child f cs of Some j \<Rightarrow> (cs, j) | None \<Rightarrow> (cs @ [new], length cs))"

text \<open>One pass of the loop at position \<open>i\<close>: the child the pointer moves to and the characters it stands for;
  \<open>None\<close> for an unknown tag.\<close>

definition add_step :: "nat \<Rightarrow> 16 word \<Rightarrow> nat \<Rightarrow> string \<Rightarrow> node list \<Rightarrow> ((node list \<times> nat) \<times> nat) option" where
  "add_step prefix bp i s cs =
     (let c = hd s; has_blueprint = (prefix \<noteq> 0 \<and> bp \<noteq> INVALID_BP_ID)
      in if c = CHR ''<''
         then (case find_trait s of
                 None \<Rightarrow> None
               | Some (type, name) \<Rightarrow>
                   Some (child_or_new (\<lambda>child. nd_param child = type) (Node 0 INVALID_BP_ID [] type []) cs, length name))
         else Some (child_or_new (key_starts c)
                (Node 0 (if has_blueprint \<and> i = prefix then bp else INVALID_BP_ID) [c] P_MAX []) cs, 1))"

text \<open>
  The loop over the URL, at position \<open>i\<close> and the node the pointer is at. An unknown tag leaves \<open>i\<close>
  where it is (\<open>i--\<close>, then \<open>i++\<close>), so that the loop does not end: \<open>None\<close>. When the exception is
  thrown, every node was there already and the tree is unchanged.
\<close>

partial_function (option) add_at ::
  "string \<Rightarrow> nat \<Rightarrow> nat \<Rightarrow> 16 word \<Rightarrow> nat \<Rightarrow> string \<Rightarrow> node \<Rightarrow> node res option" where
  "add_at url rule_index prefix bp i s idx =
     (case idx of Node r b k p cs \<Rightarrow>
        if s = [] then Some (if r \<noteq> 0 then Inl (Runtime_error (''handler already exists for '' @ url))
                             else Inr (Node rule_index b k p cs))
        else case add_step prefix bp i s cs of
               None \<Rightarrow> add_at url rule_index prefix bp i s idx
             | Some ((cs', j), n) \<Rightarrow>
                 Option.bind (add_at url rule_index prefix bp (i + n) (drop n s) (cs' ! j)) (\<lambda>x.
                   Some (map_sum id (\<lambda>child. Node r b k p (cs'[j := child])) x)))"

declare add_at.simps [code]

definition add_rule :: "string \<Rightarrow> nat \<Rightarrow> nat \<Rightarrow> 16 word \<Rightarrow> node \<Rightarrow> node res option" where
  "add_rule url rule_index prefix bp t = add_at url rule_index prefix bp 0 url t"

end
