(* ===== verification/Router.thy ===== *)
theory Router
  imports Routing
begin

unbundle bit_operations_syntax

text \<open>
  Crow's router, \<open>lib/crow/routing.h\<close>: rules, their methods, and what the router answers itself.
  The handlers are of a type \<open>'h\<close>; what they do is a parameter of \<open>router_handle\<close>. Blueprints, which
  the program does not use, are left out: their list is empty.
\<close>

section \<open>Rules\<close>

text \<open>A tagged rule with its handler, or a websocket rule.\<close>

datatype 'h rule_kind = Tagged "'h option" | Websocket 'h

record 'h rule =
  ru_url :: string
  ru_name :: string
  ru_methods :: "32 word"
  ru_kind :: "'h rule_kind"
  ru_upgrade :: "'h option"
  ru_added :: bool

definition new_rule :: "string \<Rightarrow> 'h rule_kind \<Rightarrow> 'h rule" where
  "new_rule url kind = \<lparr> ru_url = url, ru_name = [], ru_methods = push_bit Get 1, ru_kind = kind, ru_upgrade = None,
     ru_added = False \<rparr>"

text \<open>\<open>1 << method\<close> on an \<open>int\<close>.\<close>

definition method_bit :: "nat \<Rightarrow> 32 word res" where
  "method_bit m = (if m < 32 then Inr (push_bit m 1) else Inl (Undefined Bad_shift))"

fun methods_mask :: "nat list \<Rightarrow> 32 word res" where
  "methods_mask [] = Inr 0"
| "methods_mask [m] = method_bit m"
| "methods_mask (m # ms) = bind_res (methods_mask ms) (\<lambda>w. bind_res (method_bit m) (\<lambda>b. Inr (w OR b)))"

definition set_methods :: "nat list \<Rightarrow> 'h rule \<Rightarrow> 'h rule res" where
  "set_methods ms r = bind_res (methods_mask ms) (\<lambda>w. Inr (r\<lparr>ru_methods := w\<rparr>))"

definition set_handler :: "'h \<Rightarrow> 'h rule \<Rightarrow> 'h rule" where
  "set_handler h r = r\<lparr>ru_kind := Tagged (Some h)\<rparr>"

text \<open>\<open>websocket\<close> makes a new rule that replaces this one; it has none of its methods.\<close>

definition set_websocket :: "'h \<Rightarrow> 'h rule \<Rightarrow> 'h rule" where
  "set_websocket h r = r\<lparr>ru_upgrade := Some h\<rparr>"

definition upgraded :: "'h rule \<Rightarrow> 'h rule" where
  "upgraded r = (case ru_upgrade r of Some h \<Rightarrow> new_rule (ru_url r) (Websocket h) | None \<Rightarrow> r)"

definition validate_rule :: "'h rule \<Rightarrow> unit res" where
  "validate_rule r =
     (case ru_kind r of
        Websocket _ \<Rightarrow> Inr ()
      | Tagged h \<Rightarrow>
          if ru_url r = [] then Inl (Out_of_range ''basic_string::at'')
          else if hd (ru_url r) \<noteq> CHR ''/''
          then Inl (Runtime_error (''Internal error: Routes must start with a '' @ [CHR 0x27] @ ''/'' @ [CHR 0x27]))
          else if h = None
          then Inl (Runtime_error (ru_name r @ (if ru_name r \<noteq> [] then '': '' else []) @ ''no handler for url '' @ ru_url r))
          else Inr ())"

text \<open>\<open>foreach_method\<close>: the bit is shifted out after 32 steps.\<close>

definition rule_methods :: "'h rule \<Rightarrow> nat list" where
  "rule_methods r = filter (\<lambda>m. ru_methods r AND push_bit m 1 \<noteq> 0) [0..<InternalMethodCount]"

section \<open>The router\<close>

text \<open>The rules of a method, the first two null, and their tree.\<close>

record 'h per_method =
  pm_rules :: "'h rule option list"
  pm_trie :: node

record 'h router =
  rt_per_methods :: "'h per_method list"
  rt_all_rules :: "'h rule list"
  rt_catchall :: "(request \<Rightarrow> response \<Rightarrow> response res) option"

definition new_router :: "'h router" where
  "new_router = \<lparr> rt_per_methods = replicate InternalMethodCount \<lparr> pm_rules = [None, None], pm_trie = new_node \<rparr>,
     rt_all_rules = [], rt_catchall = None \<rparr>"

definition add_new_rule :: "'h rule \<Rightarrow> 'h router \<Rightarrow> 'h router" where
  "add_new_rule r R = R\<lparr>rt_all_rules := rt_all_rules R @ [r]\<rparr>"

abbreviation (input) RULE_SPECIAL_REDIRECT_SLASH :: nat where "RULE_SPECIAL_REDIRECT_SLASH \<equiv> 1"

definition bind_ores :: "'b res option \<Rightarrow> ('b \<Rightarrow> 'c res option) \<Rightarrow> 'c res option" where
  "bind_ores r f = (case r of None \<Rightarrow> None | Some (Inl e) \<Rightarrow> Some (Inl e) | Some (Inr x) \<Rightarrow> f x)"

text \<open>The index is converted to 16 bits. \<open>None\<close>: adding does not end.\<close>

definition add_for_method :: "'h rule \<Rightarrow> nat \<Rightarrow> 'h per_method list \<Rightarrow> 'h per_method list res option" where
  "add_for_method r m pms =
     (let pm = pms ! m; rule = ru_url r; rules = pm_rules pm @ [Some r];
          has_trailing_slash = (1 < length rule \<and> last rule = CHR ''/'')
      in bind_ores (add_rule rule (unat (of_nat (length rules - 1) :: 16 word)) 0 INVALID_BP_ID (pm_trie pm)) (\<lambda>t.
         bind_ores (if has_trailing_slash then add_rule (butlast rule) RULE_SPECIAL_REDIRECT_SLASH 0 INVALID_BP_ID t
                    else Some (Inr t)) (\<lambda>t.
           Some (Inr (pms[m := \<lparr> pm_rules = rules, pm_trie = t \<rparr>])))))"

fun add_for_methods :: "'h rule \<Rightarrow> nat list \<Rightarrow> 'h per_method list \<Rightarrow> 'h per_method list res option" where
  "add_for_methods r [] pms = Some (Inr pms)"
| "add_for_methods r (m # ms) pms = bind_ores (add_for_method r m pms) (add_for_methods r ms)"

definition internal_add_rule_object :: "'h rule \<Rightarrow> 'h per_method list \<Rightarrow> 'h per_method list res option" where
  "internal_add_rule_object r pms = add_for_methods r (rule_methods r) pms"

text \<open>The loop over all rules; those already added are skipped.\<close>

fun validate_rules :: "'h rule list \<Rightarrow> 'h per_method list \<Rightarrow> ('h rule list \<times> 'h per_method list) res option" where
  "validate_rules [] pms = Some (Inr ([], pms))"
| "validate_rules (r # rs) pms =
     (if ru_added r then bind_ores (validate_rules rs pms) (\<lambda>(rs, pms). Some (Inr (r # rs, pms)))
      else let r = upgraded r
           in bind_ores (Some (validate_rule r)) (\<lambda>_.
              bind_ores (internal_add_rule_object r pms) (\<lambda>pms.
              bind_ores (validate_rules rs pms) (\<lambda>(rs, pms). Some (Inr (r\<lparr>ru_added := True\<rparr> # rs, pms))))))"

definition validate_router :: "'h router \<Rightarrow> 'h router res option" where
  "validate_router R =
     bind_ores (validate_rules (rt_all_rules R) (rt_per_methods R)) (\<lambda>(rs, pms).
     bind_ores (Some (map_res (\<lambda>pm. bind_res (validate_trie (pm_trie pm)) (\<lambda>t. Inr (pm\<lparr>pm_trie := t\<rparr>))) pms)) (\<lambda>pms.
       Some (Inr (R\<lparr>rt_all_rules := rs, rt_per_methods := pms\<rparr>))))"

section \<open>Requests\<close>

definition find_method :: "'a strtod \<Rightarrow> 'h router \<Rightarrow> nat \<Rightarrow> string \<Rightarrow> 'a found" where
  "find_method strtod R m url = find_rule strtod url (pm_trie (rt_per_methods R ! m))"

definition matches :: "'a strtod \<Rightarrow> 'h router \<Rightarrow> nat \<Rightarrow> string \<Rightarrow> bool" where
  "matches strtod R m url \<longleftrightarrow> fst (find_method strtod R m url) \<noteq> 0"

text \<open>\<open>default_exception_handler\<close>.\<close>

definition exception_handler :: "response \<Rightarrow> response" where
  "exception_handler res = assign_response (response_code 500) res"

text \<open>Undefined behaviour is not caught.\<close>

definition get_error :: "int \<Rightarrow> 'h router \<Rightarrow> request \<Rightarrow> response \<Rightarrow> response res" where
  "get_error code R req res =
     (let res = res\<lparr>rs_code := code\<rparr>
      in case rt_catchall R of
           None \<Rightarrow> Inr res
         | Some handler \<Rightarrow>
             (case handler req res of
                Inl (Undefined u) \<Rightarrow> Inl (Undefined u)
              | Inl e \<Rightarrow> Inr (exception_handler res)
              | Inr res \<Rightarrow> Inr res))"

text \<open>The result of the first pass: rule, parameters and method. The completion handler is not set then.\<close>

record 'a route_found =
  rf_rule :: nat
  rf_params :: "'a routing_params"
  rf_method :: nat

definition not_found :: "'a route_found" where
  "not_found = \<lparr> rf_rule = 0, rf_params = no_params, rf_method = InternalMethodCount \<rparr>"

text \<open>A result without its method: the constructor leaves it uninitialised; nothing reads it then.\<close>

definition found_of :: "'a found \<Rightarrow> nat \<Rightarrow> 'a route_found" where
  "found_of f m = (case f of (i, _, ps) \<Rightarrow> \<lparr> rf_rule = i, rf_params = ps, rf_method = m \<rparr>)"

definition allow_header :: "nat list \<Rightarrow> string" where
  "allow_header ms = ''OPTIONS, HEAD'' @ concat (map (\<lambda>m. '', '' @ method_name m) ms)"

definition handle_head :: "'a strtod \<Rightarrow> 'h router \<Rightarrow> request \<Rightarrow> response \<Rightarrow> 'a route_found \<times> response" where
  "handle_head strtod R req res =
     (let found = find_method strtod R Head (rq_url req)
      in if fst found \<noteq> 0 then (found_of found Head, res\<lparr>rs_skip_body := True\<rparr>)
         else let found = find_method strtod R Get (rq_url req)
              in if fst found \<noteq> 0 then (found_of found Get, res\<lparr>rs_skip_body := True\<rparr>)
                 else (found_of found InternalMethodCount, end_response (assign_response (response_code 404) res)))"

definition handle_options :: "'a strtod \<Rightarrow> 'h router \<Rightarrow> request \<Rightarrow> response \<Rightarrow> 'a route_found \<times> response" where
  "handle_options strtod R req res =
     (let others = filter (\<lambda>m. m \<noteq> Head) [0..<InternalMethodCount];
          no_content = (\<lambda>ms. (not_found\<lparr>rf_method := Options\<rparr>,
            end_response (set_header ''Allow'' (allow_header ms) (assign_response (response_code 204) res))))
      in if rq_url req = ''/*''
         then no_content (filter (\<lambda>m. \<not> is_empty_trie (pm_trie (rt_per_methods R ! m))) others)
         else if \<exists>m\<in>set [0..<InternalMethodCount]. matches strtod R m (rq_url req)
         then no_content (filter (\<lambda>m. matches strtod R m (rq_url req)) others)
         else (not_found, end_response (assign_response (response_code 404) res)))"

definition handle_initial :: "'a strtod \<Rightarrow> 'h router \<Rightarrow> request \<Rightarrow> response \<Rightarrow> ('a route_found \<times> response) res" where
  "handle_initial strtod R req res =
     (if InternalMethodCount \<le> rq_method req then Inr (not_found, res)
      else if rq_method req = Head then Inr (handle_head strtod R req res)
      else if rq_method req = Options then Inr (handle_options strtod R req res)
      else let found = find_method strtod R (rq_method req) (rq_url req)
           in if fst found \<noteq> 0 then Inr (found_of found (rq_method req), res)
              else bind_res
                (get_error (if \<exists>m\<in>set [0..<InternalMethodCount]. matches strtod R m (rq_url req) then 405 else 404) R req res)
                (\<lambda>res. Inr (found_of found InternalMethodCount, end_response res)))"

text \<open>The redirection to a URL with a trailing slash.\<close>

definition redirect_slash :: "request \<Rightarrow> response \<Rightarrow> response" where
  "redirect_slash req res = add_header ''Location'' (rq_url req @ ''/'') (assign_response (response_code 301) res)"

text \<open>What a request comes to: a response that ends here, or the call of a rule. A wrong method number
  reads outside the array.\<close>

datatype 'h action = Respond response | Call "'h rule"

definition router_handle :: "'h router \<Rightarrow> request \<Rightarrow> response \<Rightarrow> 'a route_found \<Rightarrow> 'h action res" where
  "router_handle R req res found =
     (if InternalMethodCount \<le> rf_method found then Inl (Undefined Out_of_bounds)
      else let rules = pm_rules (rt_per_methods R ! rf_method found)
           in if length rules \<le> rf_rule found then Inl (Runtime_error ''Trie internal structure corrupted!'')
              else if rf_rule found = RULE_SPECIAL_REDIRECT_SLASH then Inr (Respond (redirect_slash req res))
              else case rules ! rf_rule found of
                     None \<Rightarrow> Inl (Undefined Dangling_pointer)
                   | Some r \<Rightarrow> Inr (Call r))"

text \<open>A request to upgrade: the router's answers, or the rule, whose default is 404.\<close>

definition router_handle_upgrade :: "'a strtod \<Rightarrow> 'h router \<Rightarrow> request \<Rightarrow> response \<Rightarrow> 'h action option res" where
  "router_handle_upgrade strtod R req res =
     (if InternalMethodCount \<le> rq_method req then Inr None
      else let rules = pm_rules (rt_per_methods R ! rq_method req); i = fst (find_method strtod R (rq_method req) (rq_url req))
           in if i = 0
              then Inr (Some (Respond (assign_response (response_code
                (if \<exists>m\<in>set [0..<InternalMethodCount]. matches strtod R m (rq_url req) then 405 else 404)) res)))
              else if length rules \<le> i then Inl (Runtime_error ''Trie internal structure corrupted!'')
              else if i = RULE_SPECIAL_REDIRECT_SLASH then Inr (Some (Respond (redirect_slash req res)))
              else case rules ! i of
                     None \<Rightarrow> Inl (Undefined Dangling_pointer)
                   | Some r \<Rightarrow>
                       Inr (Some (case ru_kind r of
                                    Websocket _ \<Rightarrow> Call r
                                  | Tagged _ \<Rightarrow> Respond (assign_response (response_code 404) res))))"

end
