(* ===== verification/RoutingFacts.thy ===== *)
theory RoutingFacts
  imports Routing
begin

text \<open>
  The search tree as a set of rules: a rule is a list of characters and parameters with its
  index. Adding inserts a rule, merging nodes keeps the set, and a search returns the least
  index among the rules that match the URL.
\<close>

section \<open>The rules of a tree\<close>

datatype piece = Lit char | Par param_type

definition label :: "node \<Rightarrow> piece list" where
  "label n = (if nd_param n \<noteq> P_MAX then [Par (nd_param n)] else map Lit (nd_key n))"

fun entries :: "node \<Rightarrow> (piece list \<times> nat) set" where
  "entries (Node r b k p cs) =
     (if r \<noteq> 0 then {([], r)} else {}) \<union> (\<Union>c\<in>set cs. (\<lambda>(ts, i). (label c @ ts, i)) ` entries c)"

abbreviation labelled :: "node \<Rightarrow> (piece list \<times> nat) set" where
  "labelled c \<equiv> (\<lambda>(ts, i). (label c @ ts, i)) ` entries c"

declare entries.simps [simp del]

lemma entries_not_0: "(ts, i) \<in> entries n \<Longrightarrow> i \<noteq> 0"
proof (induction n arbitrary: ts rule: entries.induct)
  case (1 r b k p cs)
  then show ?case unfolding entries.simps [of r] by (auto split: if_splits)
qed

text \<open>A literal child has a key.\<close>

fun keyed :: "node \<Rightarrow> bool" where
  "keyed (Node r b k p cs) \<longleftrightarrow> (\<forall>c\<in>set cs. label c \<noteq> [] \<and> keyed c)"

section \<open>Matching\<close>

fun match :: "'a strtod \<Rightarrow> piece list \<Rightarrow> string \<Rightarrow> 'a routing_params \<Rightarrow> 'a routing_params option" where
  "match strtod [] s ps = (if s = [] then Some ps else None)"
| "match strtod (Lit c # ts) s ps =
     (case s of [] \<Rightarrow> None | d # s' \<Rightarrow> if c = d then match strtod ts s' ps else None)"
| "match strtod (Par t # ts) s ps =
     (if s = [] then None
      else case take_param strtod t s ps of None \<Rightarrow> None | Some (ps', n) \<Rightarrow> match strtod ts (drop n s) ps')"

lemma match_literals:
  "match strtod (map Lit k @ ts) s ps =
     (if take (length k) s = k then match strtod ts (drop (length k) s) ps else None)"
proof (induction k arbitrary: s)
  case (Cons c k)
  then show ?case by (cases s) auto
qed simp

lemma match_label:
  assumes "s \<noteq> []" "label c \<noteq> []"
  shows "match strtod (label c @ ts) s ps =
    (case enter_child strtod c s ps of None \<Rightarrow> None | Some (ps', n) \<Rightarrow> match strtod ts (drop n s) ps')"
  using assms by (auto simp: label_def enter_child_def match_literals)

lemma match_end: "match strtod (t # ts) [] ps = None"
  by (cases t) simp_all

text \<open>The indices of the rules that match, each with its parameters.\<close>

definition results :: "'a strtod \<Rightarrow> (piece list \<times> nat) set \<Rightarrow> string \<Rightarrow> 'a routing_params \<Rightarrow> (nat \<times> 'a routing_params) set" where
  "results strtod E s ps = {(i, q). \<exists>ts. (ts, i) \<in> E \<and> match strtod ts s ps = Some q}"

definition best :: "(nat \<times> 'b) set \<Rightarrow> nat \<Rightarrow> 'b \<Rightarrow> bool" where
  "best R r q \<longleftrightarrow> (if r = 0 then R = {} else (r, q) \<in> R \<and> (\<forall>(i, _)\<in>R. r \<le> i))"

lemma results_Un: "results strtod (E \<union> F) s ps = results strtod E s ps \<union> results strtod F s ps"
  by (auto simp: results_def)

lemma results_UN: "results strtod (\<Union>c\<in>A. g c) s ps = (\<Union>c\<in>A. results strtod (g c) s ps)"
  by (auto simp: results_def)

lemma results_labelled:
  assumes "s \<noteq> []" "label c \<noteq> []"
  shows "results strtod (labelled c) s ps =
    (case enter_child strtod c s ps of None \<Rightarrow> {} | Some (ps', n) \<Rightarrow> results strtod (entries c) (drop n s) ps')"
proof -
  have "results strtod (labelled c) s ps = {(i, q). \<exists>ts. (ts, i) \<in> entries c \<and> match strtod (label c @ ts) s ps = Some q}"
    unfolding results_def by force
  then show ?thesis by (auto simp: match_label [OF assms] results_def split: option.splits)
qed

lemma results_labelled_end: "label c \<noteq> [] \<Longrightarrow> results strtod (labelled c) [] ps = {}"
  by (cases "label c") (auto simp: results_def match_end)

lemma best_update:
  assumes "best R (fst f) (snd (snd f))" "best S (fst ret) (snd (snd ret))"
  shows "best (R \<union> S) (fst (update_found ret f)) (snd (snd (update_found ret f)))"
  using assms by (cases f; cases ret) (force simp: best_def update_found_def split: if_splits)

section \<open>Searching\<close>

lemma find_best:
  "keyed n \<Longrightarrow> best (results strtod (entries n) s ps) (fst (fst (find strtod s n ps bps)))
     (snd (snd (fst (find strtod s n ps bps))))"
  "s \<noteq> [] \<Longrightarrow> (\<forall>c\<in>set cs. label c \<noteq> [] \<and> keyed c) \<Longrightarrow> best R (fst f) (snd (snd f)) \<Longrightarrow>
   best (R \<union> (\<Union>c\<in>set cs. results strtod (labelled c) s ps))
     (fst (fst (snd (find_children strtod s cs ps bps frag f))))
     (snd (snd (fst (snd (find_children strtod s cs ps bps frag f)))))"
proof (induction strtod s n ps bps and strtod s cs ps bps frag f arbitrary: and R rule: find_find_children.induct)
  case (1 strtod s r b k p cs ps bps)
  show ?case
  proof (cases "s = []")
    case True
    have "results strtod (entries (Node r b k p cs)) [] ps = (if r \<noteq> 0 then {(r, ps)} else {})"
      using 1(2) results_labelled_end [of _ strtod ps]
      by (subst entries.simps) (auto simp: results_Un results_UN, auto simp: results_def)
    with True show ?thesis by (simp add: best_def)
  next
    case False
    have "results strtod (entries (Node r b k p cs)) s ps = (\<Union>c\<in>set cs. results strtod (labelled c) s ps)"
      using False by (subst entries.simps) (auto simp: results_Un results_UN, auto simp: results_def)
    moreover have "best {} (fst (0, [], no_params)) (snd (snd (0, [], no_params)))" by (simp add: best_def)
    ultimately show ?thesis
      using 1(1) [OF False, of "{}"] 1(2) False by (auto split: prod.splits)
  qed
next
  case (3 strtod s c cs ps bps frag f)
  show ?case
  proof (cases "enter_child strtod c s ps")
    case None
    have "results strtod (labelled c) s ps = {}" using results_labelled [of s c strtod ps] 3(4,5) None by auto
    with None 3 show ?thesis by simp
  next
    case (Some psn)
    obtain ps' m where psn: "psn = (ps', m)" by (cases psn)
    obtain ret bps' where ret: "find strtod (drop m s) c ps' (push_bp c bps) = (ret, bps')"
      by (cases "find strtod (drop m s) c ps' (push_bp c bps)")
    have "results strtod (labelled c) s ps = results strtod (entries c) (drop m s) ps'"
      using results_labelled [of s c strtod ps] 3(4,5) Some psn by auto
    then have "best (R \<union> results strtod (labelled c) s ps) (fst (update_found ret f)) (snd (snd (update_found ret f)))"
      using best_update [OF 3(6)] 3(2) [OF Some psn [symmetric]] 3(5) ret by simp
    from 3(3) [OF Some psn [symmetric] ret [symmetric] refl 3(4) _ this] 3(5) show ?thesis
      by (simp add: Some psn ret Un_assoc)
  qed
qed simp

section \<open>Merging nodes\<close>

declare optimizeNode.simps [simp del]

lemma label_simple: "nd_param n = P_MAX \<Longrightarrow> label n = map Lit (nd_key n)"
  by (simp add: label_def)

lemma optimizeNode_keeps:
  "nd_param (optimizeNode n) = nd_param n \<and> labelled (optimizeNode n) = labelled n \<and>
   (keyed n \<longrightarrow> keyed (optimizeNode n)) \<and> (label n \<noteq> [] \<longrightarrow> label (optimizeNode n) \<noteq> [])"
proof (induction n rule: optimizeNode.induct)
  case (1 r b k p cs)
  let ?n = "Node r b k p cs"
  consider "cs = []" | "cs \<noteq> []" "IsSimpleNode ?n" | "cs \<noteq> []" "\<not> IsSimpleNode ?n" by blast
  then show ?case
  proof cases
    case 2
    then obtain r' b' k' p' cs' where cs: "cs = [Node r' b' k' p' cs']"
      by (cases cs; cases "hd cs") (auto simp: IsSimpleNode_def)
    let ?m = "Node r' b' (k @ k') p cs'"
    have p: "p = P_MAX" "p' = P_MAX" "r = 0" using 2(2) by (simp_all add: IsSimpleNode_def cs)
    have opt: "optimizeNode ?n = optimizeNode ?m"
      using 2 by (subst optimizeNode.simps) (simp add: cs)
    have "entries ?m = entries (Node r' b' k' p' cs')" by (simp add: entries.simps)
    then have "labelled ?m = labelled ?n"
      using p by (simp add: entries.simps [of 0] cs label_simple image_image split_beta)
    moreover have "keyed ?n \<longrightarrow> keyed ?m" by (simp add: cs)
    moreover have "label ?n \<noteq> [] \<longrightarrow> label ?m \<noteq> []" using p by (simp add: label_simple)
    ultimately show ?thesis
      using 1(1) [OF 2 refl] unfolding opt by (simp add: cs)
  next
    case 3
    have children: "nd_param (optimizeNode c) = nd_param c \<and> labelled (optimizeNode c) = labelled c \<and>
      (keyed c \<longrightarrow> keyed (optimizeNode c)) \<and> (label c \<noteq> [] \<longrightarrow> label (optimizeNode c) \<noteq> [])" if "c \<in> set cs" for c
      using 1(2) [OF 3 that] .
    let ?m = "Node r b k p (map optimizeNode cs)"
    have "entries ?m = entries ?n" using children by (simp add: entries.simps)
    moreover have "label ?m = label ?n" by (simp add: label_def)
    moreover have "keyed ?n \<longrightarrow> keyed ?m" using children by simp
    moreover have "optimizeNode ?n = ?m" using 3 by (subst optimizeNode.simps) simp
    ultimately show ?thesis by simp
  next
    case 1
    then have "optimizeNode ?n = ?n" by (subst optimizeNode.simps) simp
    then show ?thesis by simp
  qed
qed

lemma optimize_keeps: "entries (optimize t) = entries t" "keyed t \<Longrightarrow> keyed (optimize t)"
  using optimizeNode_keeps by (cases t; simp add: optimize_def entries.simps)+

section \<open>Adding rules\<close>

text \<open>A rule's text in pieces; \<open>None\<close> with an unknown tag.\<close>

lemma find_trait_name: "find_trait s = Some (t, name) \<Longrightarrow> name \<noteq> [] \<and> take (length name) s = name \<and> t \<noteq> P_MAX"
proof -
  assume "find_trait s = Some (t, name)"
  then have "(t, name) \<in> set paramTraits" "take (length name) s = name"
    by (auto simp: find_trait_def find_Some_iff in_set_conv_nth)
  then show ?thesis by (auto simp: paramTraits_def)
qed

function pieces :: "string \<Rightarrow> piece list option" where
  "pieces [] = Some []"
| "pieces (c # s) =
     (if c = CHR ''<''
      then (case find_trait (c # s) of
              None \<Rightarrow> None
            | Some (t, name) \<Rightarrow> map_option (Cons (Par t)) (pieces (drop (length name) (c # s))))
      else map_option (Cons (Lit c)) (pieces s))"
  by pat_completeness auto
termination
  by (relation "measure length") (auto dest!: find_trait_name)

text \<open>Before the merging: a node stands for one piece, and no two children for the same.\<close>

fun raw :: "node \<Rightarrow> bool" where
  "raw (Node r b k p cs) \<longleftrightarrow>
     distinct (map label cs)
     \<and> (\<forall>c\<in>set cs. (if nd_param c = P_MAX then \<exists>d. nd_key c = [d] \<and> d \<noteq> CHR 0x00 else nd_key c = []) \<and> raw c)"

lemma raw_keyed: "raw n \<Longrightarrow> keyed n"
proof (induction n rule: keyed.induct)
  case (1 r b k p cs)
  then show ?case by (force simp: label_def split: if_splits)
qed

lemma find_child_Some: "find_child f cs = Some j \<Longrightarrow> j < length cs \<and> f (cs ! j)"
  by (induction cs arbitrary: j) (auto split: if_splits)

lemma find_child_None: "find_child f cs = None \<longleftrightarrow> (\<forall>c\<in>set cs. \<not> f c)"
  by (induction cs) auto

text \<open>The child a pass goes to has the piece as its label; a new child brings no rule.\<close>

lemma child_or_new_facts:
  assumes "child_or_new f new cs = (cs', j)" "f new" "\<And>c. c \<in> insert new (set cs) \<Longrightarrow> f c \<longleftrightarrow> label c = [t]"
    "entries new = {}" "raw (Node r b k p cs)" "raw new" "if nd_param new = P_MAX then \<exists>d. nd_key new = [d] \<and> d \<noteq> CHR 0x00 else nd_key new = []"
  shows "j < length cs' \<and> label (cs' ! j) = [t] \<and> raw (Node r b k p cs') \<and> entries (Node r b k p cs') = entries (Node r b k p cs)"
proof (cases "find_child f cs")
  case None
  have new: "cs' = cs @ [new]" "j = length cs"
    using assms(1) None by (simp_all add: child_or_new_def)
  have "[t] \<notin> label ` set cs" "label new = [t]"
    using assms(2,3) None by (force simp: find_child_None)+
  note new = this new
  have "raw (Node r b k p cs')" using assms(5-7) new by auto
  moreover have "entries (Node r b k p cs') = entries (Node r b k p cs)"
    by (simp add: entries.simps new assms(4))
  ultimately show ?thesis using new by simp
next
  case (Some i)
  with find_child_Some [OF Some] assms show ?thesis by (auto simp: child_or_new_def)
qed

lemma find_trait_param: "find_trait s = Some (t, name) \<Longrightarrow> t \<noteq> P_MAX"
  using find_trait_name by blast

lemma add_step_pieces:
  assumes "s \<noteq> []" "CHR 0x00 \<notin> set s" "raw (Node r b k p cs)"
  shows "case add_step q bp i s cs of
      None \<Rightarrow> pieces s = None
    | Some ((cs', j), n) \<Rightarrow>
        \<exists>t. pieces s = map_option (Cons t) (pieces (drop n s)) \<and> 0 < n \<and> j < length cs' \<and> label (cs' ! j) = [t]
          \<and> raw (Node r b k p cs') \<and> entries (Node r b k p cs') = entries (Node r b k p cs)"
proof -
  obtain c u where s: "s = c # u" using assms(1) by (cases s) auto
  have shape: "if nd_param x = P_MAX then \<exists>d. nd_key x = [d] \<and> d \<noteq> CHR 0x00 else nd_key x = []" if "x \<in> set cs" for x
    using assms(3) that by simp
  show ?thesis
  proof (cases "c = CHR ''<''")
    case True
    show ?thesis
    proof (cases "find_trait s")
      case None
      with True s show ?thesis by (simp add: add_step_def)
    next
      case (Some tn)
      obtain t name where tn: "tn = (t, name)" by (cases tn)
      note trait = find_trait_name [OF Some [unfolded tn]]
      obtain cs' j where new: "child_or_new (\<lambda>child. nd_param child = t) (Node 0 INVALID_BP_ID [] t []) cs = (cs', j)"
        by (cases "child_or_new (\<lambda>child. nd_param child = t) (Node 0 INVALID_BP_ID [] t []) cs")
      have "nd_param x = t \<longleftrightarrow> label x = [Par t]" for x using trait by (auto simp: label_def)
      then have "j < length cs' \<and> label (cs' ! j) = [Par t] \<and> raw (Node r b k p cs')
          \<and> entries (Node r b k p cs') = entries (Node r b k p cs)"
        using trait by (intro child_or_new_facts [OF new _ _ _ assms(3)]) (simp_all add: entries.simps)
      with True s tn new Some trait show ?thesis by (simp add: add_step_def)
    qed
  next
    case False
    let ?b = "if (q \<noteq> 0 \<and> bp \<noteq> INVALID_BP_ID) \<and> i = q then bp else INVALID_BP_ID"
    obtain cs' j where new: "child_or_new (key_starts c) (Node 0 ?b [c] P_MAX []) cs = (cs', j)"
      by (cases "child_or_new (key_starts c) (Node 0 ?b [c] P_MAX []) cs")
    have c: "c \<noteq> CHR 0x00" using assms(2) s by auto
    then have "key_starts c x \<longleftrightarrow> label x = [Lit c]" if "x \<in> insert (Node 0 ?b [c] P_MAX []) (set cs)" for x
      using that shape [of x] by (auto simp: label_def key_starts_def split: if_splits)
    then have "j < length cs' \<and> label (cs' ! j) = [Lit c] \<and> raw (Node r b k p cs')
        \<and> entries (Node r b k p cs') = entries (Node r b k p cs)"
      using c by (intro child_or_new_facts [OF new _ _ _ assms(3)]) (simp_all add: entries.simps key_starts_def)
    with False s new show ?thesis by (simp add: add_step_def)
  qed
qed

lemma raw_label: "raw (Node r b k p cs) \<Longrightarrow> c \<in> set cs \<Longrightarrow> \<exists>u. label c = [u]"
  by (force simp: label_def split: if_splits)

lemma raw_entry:
  assumes "raw (Node r b k p cs)" "(t # ts, i) \<in> entries (Node r b k p cs)" "j < length cs" "label (cs ! j) = [t]"
  shows "(ts, i) \<in> entries (cs ! j)"
proof -
  obtain c us where c: "c \<in> set cs" "(us, i) \<in> entries c" "label c @ us = t # ts"
    using assms(2) by (auto simp: entries.simps split: if_splits)
  then have "label c = [t]" "us = ts" using raw_label [OF assms(1) c(1)] by auto
  moreover obtain m where m: "m < length cs" "cs ! m = c" using c(1) by (auto simp: in_set_conv_nth)
  moreover have "m = j"
    using assms(1,3,4) m \<open>label c = [t]\<close> nth_eq_iff_index_eq [of "map label cs" m j] by simp
  ultimately show ?thesis using c(2) by simp
qed

lemma entries_update:
  assumes "j < length cs" "label (cs ! j) = [t]" "label c = [t]" "entries c = insert (ts, i) (entries (cs ! j))"
  shows "entries (Node r b k p (cs[j := c])) = insert (t # ts, i) (entries (Node r b k p cs))"
proof -
  have "labelled c = insert (t # ts, i) (labelled (cs ! j))" using assms(2-4) by simp
  moreover have "set (cs[j := c]) = insert c (set (take j cs) \<union> set (drop (Suc j) cs))"
    using assms(1) by (simp add: upd_conv_take_nth_drop Un_commute)
  moreover have "set cs = insert (cs ! j) (set (take j cs) \<union> set (drop (Suc j) cs))"
    using assms(1) id_take_nth_drop [of j cs] by (metis list.simps(15) set_append Un_insert_right)
  ultimately show ?thesis unfolding entries.simps by auto
qed

lemma add_at_pieces:
  assumes "raw n" "CHR 0x00 \<notin> set s" "ri \<noteq> 0" "pieces s = Some ts"
  shows "\<exists>x. add_at url ri q bp i s n = Some x \<and>
    (case x of
       Inl e \<Rightarrow> e = Runtime_error (''handler already exists for '' @ url) \<and> (\<exists>k. (ts, k) \<in> entries n)
     | Inr n' \<Rightarrow> raw n' \<and> nd_param n' = nd_param n \<and> nd_key n' = nd_key n \<and> (\<forall>k. (ts, k) \<notin> entries n)
         \<and> entries n' = insert (ts, ri) (entries n))"
  using assms
proof (induction "length s" arbitrary: s n i ts rule: less_induct)
  case less
  obtain r b k p cs where n: "n = Node r b k p cs" by (cases n)
  show ?case
  proof (cases "s = []")
    case True
    have "r = 0 \<Longrightarrow> ([], m) \<notin> entries n" for m
      using less.prems(1) raw_label n by (fastforce simp: entries.simps)
    moreover have "r \<noteq> 0 \<Longrightarrow> ([], r) \<in> entries n" by (simp add: n entries.simps)
    ultimately show ?thesis
      using True less.prems by (subst add_at.simps) (auto simp: n entries.simps)
  next
    case False
    note step = add_step_pieces [OF False less.prems(2), of r b k p cs q bp i]
    have raw_n: "raw (Node r b k p cs)" using less.prems(1) n by simp
    obtain cs' j m where some: "add_step q bp i s cs = Some ((cs', j), m)"
      using step [OF raw_n] less.prems(4) by (cases "add_step q bp i s cs") auto
    obtain t where t: "pieces s = map_option (Cons t) (pieces (drop m s))" "0 < m" "j < length cs'" "label (cs' ! j) = [t]"
      "raw (Node r b k p cs')" "entries (Node r b k p cs') = entries (Node r b k p cs)"
      using step [OF raw_n] some by auto
    obtain ts' where ts': "ts = t # ts'" "pieces (drop m s) = Some ts'" using t(1) less.prems(4) by (cases "pieces (drop m s)") auto
    have rest: "length (drop m s) < length s" "CHR 0x00 \<notin> set (drop m s)" "raw (cs' ! j)"
      using t(2,3,5) False less.prems(2) by (auto dest: in_set_dropD)
    obtain x where x: "add_at url ri q bp (i + m) (drop m s) (cs' ! j) = Some x"
      and post: "case x of
         Inl e \<Rightarrow> e = Runtime_error (''handler already exists for '' @ url) \<and> (\<exists>k. (ts', k) \<in> entries (cs' ! j))
       | Inr n' \<Rightarrow> raw n' \<and> nd_param n' = nd_param (cs' ! j) \<and> nd_key n' = nd_key (cs' ! j)
           \<and> (\<forall>k. (ts', k) \<notin> entries (cs' ! j)) \<and> entries n' = insert (ts', ri) (entries (cs' ! j))"
      using less.hyps [OF rest(1,3,2) less.prems(3) ts'(2)] by blast
    have here: "add_at url ri q bp i s n = Some (map_sum id (\<lambda>child. Node r b k p (cs'[j := child])) x)"
      by (subst add_at.simps) (simp add: n False some x)
    show ?thesis
    proof (cases x)
      case (Inl e)
      with post obtain l where "(ts', l) \<in> entries (cs' ! j)" by auto
      then have "(ts, l) \<in> entries (Node r b k p cs')"
        using t(3,4) ts'(1) by (force simp: entries.simps)
      then show ?thesis using here Inl post n t(6) by auto
    next
      case (Inr c)
      with post have c: "raw c" "nd_param c = nd_param (cs' ! j)" "nd_key c = nd_key (cs' ! j)"
        "\<And>l. (ts', l) \<notin> entries (cs' ! j)" "entries c = insert (ts', ri) (entries (cs' ! j))" by auto
      have label: "label c = label (cs' ! j)" using c(2,3) by (simp add: label_def)
      have "map label (cs'[j := c]) = map label cs'" using t(3) label by (simp add: map_update list_update_same_conv)
      then have "raw (Node r b k p (cs'[j := c]))"
        using t(3,5) c(1-3) by (auto dest!: set_update_subset_insert [THEN subsetD])
      moreover have "(ts, l) \<notin> entries (Node r b k p cs')" for l
        using raw_entry [OF t(5) _ t(3,4)] c(4) ts'(1) by blast
      ultimately show ?thesis
        using here Inr entries_update [OF t(3,4) label [unfolded t(4)] c(5)] n t(6) ts'(1) by simp
    qed
  qed
qed

lemma add_at_known:
  "add_at url ri q bp i s n = Some x \<Longrightarrow> raw n \<Longrightarrow> CHR 0x00 \<notin> set s \<Longrightarrow> pieces s \<noteq> None"
proof (induction url ri q bp i s n x rule: add_at.raw_induct [rotated, consumes 1, case_names 1])
  case (1 f url ri q bp i s n x)
  obtain r b k p cs where n: "n = Node r b k p cs" by (cases n)
  have raw_n: "raw (Node r b k p cs)" and nul: "CHR 0x00 \<notin> set s" using 1(3-) n by blast+
  show ?case
  proof (cases "s = []")
    case False
    note step = add_step_pieces [OF False nul raw_n, of q bp i]
    show ?thesis
    proof (cases "add_step q bp i s cs")
      case None
      with 1(2) n False have "f url ri q bp i s n = Some x" by simp
      from 1(1) [OF this] show ?thesis using raw_n nul n by blast
    next
      case (Some a)
      obtain cs' j m where a: "a = ((cs', j), m)" by (cases a) auto
      with step Some obtain t where t: "pieces s = map_option (Cons t) (pieces (drop m s))" "j < length cs'"
        "raw (Node r b k p cs')" by auto
      from 1(2) n False Some a obtain y where y: "f url ri q bp (i + m) (drop m s) (cs' ! j) = Some y"
        by (auto split: bind_splits)
      have "raw (cs' ! j)" "CHR 0x00 \<notin> set (drop m s)" using t(2,3) nul by (auto dest: in_set_dropD)
      then have "pieces (drop m s) \<noteq> None" using 1(1) [OF y] by blast
      with t(1) show ?thesis by auto
    qed
  qed simp
qed

text \<open>A rule with an unknown tag is added in a loop that does not end.\<close>

lemma add_rule_unknown: "raw t \<Longrightarrow> CHR 0x00 \<notin> set url \<Longrightarrow> pieces url = None \<Longrightarrow> add_rule url ri q bp t = None"
  unfolding add_rule_def using add_at_known by (cases "add_at url ri q bp 0 url t") blast+

lemma add_rule_pieces:
  assumes "raw t" "CHR 0x00 \<notin> set url" "ri \<noteq> 0" "add_rule url ri q bp t = Some (Inr t')"
  shows "\<exists>ts. pieces url = Some ts \<and> raw t' \<and> (\<forall>k. (ts, k) \<notin> entries t) \<and> entries t' = insert (ts, ri) (entries t)"
proof -
  obtain ts where ts: "pieces url = Some ts" using add_rule_unknown [OF assms(1,2)] assms(4) by fastforce
  from add_at_pieces [OF assms(1,2,3) ts, of url q bp 0] assms(4) ts show ?thesis by (auto simp: add_rule_def)
qed

lemma add_rule_result:
  assumes "raw t" "CHR 0x00 \<notin> set url" "ri \<noteq> 0" "pieces url = Some ts"
  shows "(\<exists>k. (ts, k) \<in> entries t) \<Longrightarrow>
      add_rule url ri q bp t = Some (Inl (Runtime_error (''handler already exists for '' @ url)))"
    and "(\<And>k. (ts, k) \<notin> entries t) \<Longrightarrow>
      \<exists>t'. add_rule url ri q bp t = Some (Inr t') \<and> raw t' \<and> entries t' = insert (ts, ri) (entries t)"
proof -
  obtain x where x: "add_rule url ri q bp t = Some x" and post: "case x of
       Inl e \<Rightarrow> e = Runtime_error (''handler already exists for '' @ url) \<and> (\<exists>k. (ts, k) \<in> entries t)
     | Inr t' \<Rightarrow> raw t' \<and> nd_param t' = nd_param t \<and> nd_key t' = nd_key t \<and> (\<forall>k. (ts, k) \<notin> entries t)
         \<and> entries t' = insert (ts, ri) (entries t)"
    using add_at_pieces [OF assms, of url q bp 0] by (auto simp: add_rule_def)
  show "(\<exists>k. (ts, k) \<in> entries t) \<Longrightarrow>
      add_rule url ri q bp t = Some (Inl (Runtime_error (''handler already exists for '' @ url)))"
    using x post by (cases x) auto
  show "(\<And>k. (ts, k) \<notin> entries t) \<Longrightarrow>
      \<exists>t'. add_rule url ri q bp t = Some (Inr t') \<and> raw t' \<and> entries t' = insert (ts, ri) (entries t)"
    using x post by (cases x) auto
qed

section \<open>The tree of a list of rules\<close>

text \<open>The rules added one after the other.\<close>

fun add_rules :: "(string \<times> nat) list \<Rightarrow> node \<Rightarrow> node res option" where
  "add_rules [] t = Some (Inr t)"
| "add_rules ((url, i) # rs) t =
     (case add_rule url i 0 INVALID_BP_ID t of
        None \<Rightarrow> None
      | Some (Inl e) \<Rightarrow> Some (Inl e)
      | Some (Inr t) \<Rightarrow> add_rules rs t)"

definition rule_pieces :: "string \<times> nat \<Rightarrow> piece list \<times> nat" where
  "rule_pieces = (\<lambda>(url, i). (the (pieces url), i))"

definition proper_rule :: "string \<times> nat \<Rightarrow> bool" where
  "proper_rule = (\<lambda>(url, i). CHR 0x00 \<notin> set url \<and> i \<noteq> 0)"

lemma add_rules_entries:
  "add_rules rs t = Some (Inr t') \<Longrightarrow> raw t \<Longrightarrow> list_all proper_rule rs \<Longrightarrow>
   raw t' \<and> entries t' = entries t \<union> rule_pieces ` set rs"
proof (induction rs t rule: add_rules.induct)
  case (2 url i rs t)
  then obtain u where u: "add_rule url i 0 INVALID_BP_ID t = Some (Inr u)" "add_rules rs u = Some (Inr t')"
    by (auto split: option.splits sum.splits)
  have "CHR 0x00 \<notin> set url" "i \<noteq> 0" using 2(4) by (simp_all add: proper_rule_def)
  from add_rule_pieces [OF 2(3) this u(1)] obtain ts where ts: "pieces url = Some ts" "raw u"
    "entries u = insert (ts, i) (entries t)" by blast
  with 2(1) [OF u(1) refl u(2)] 2(4) show ?case by (auto simp: rule_pieces_def)
qed simp

lemma raw_new_node: "raw new_node" "entries new_node = {}"
  by (simp_all add: new_node_def entries.simps)

text \<open>C12: After any rules have been added and the tree has been merged, a search returns the least index
  among the rules whose pieces match the URL, with that rule's parameters, and 0 when none
  matches: the tree does what trying the rules one by one would do.\<close>

theorem find_returns_least_rule:
  assumes "add_rules rules new_node = Some (Inr t)" "list_all proper_rule rules"
  shows "case find_rule strtod url (optimize t) of (i, _, q) \<Rightarrow>
    if i = 0 then \<forall>(u, k)\<in>set rules. match strtod (the (pieces u)) url no_params = None
    else (\<exists>u. (u, i) \<in> set rules \<and> match strtod (the (pieces u)) url no_params = Some q)
      \<and> (\<forall>(u, k)\<in>set rules. match strtod (the (pieces u)) url no_params \<noteq> None \<longrightarrow> i \<le> k)"
proof -
  have t: "raw t" "entries (optimize t) = rule_pieces ` set rules"
    using add_rules_entries [OF assms(1) raw_new_node(1) assms(2)] by (simp_all add: raw_new_node(2) optimize_keeps)
  obtain i bps q where f: "find_rule strtod url (optimize t) = (i, bps, q)"
    by (cases "find_rule strtod url (optimize t)") auto
  have "keyed (optimize t)" by (intro optimize_keeps raw_keyed t)
  from find_best(1) [OF this, of strtod url no_params "[]"] f
  have "best (results strtod (rule_pieces ` set rules) url no_params) i q"
    by (simp add: find_rule_def t(2))
  moreover have "results strtod (rule_pieces ` set rules) url no_params =
      {(k, q). \<exists>u. (u, k) \<in> set rules \<and> match strtod (the (pieces u)) url no_params = Some q}"
    by (force simp: results_def rule_pieces_def)
  ultimately have b: "best {(k, q). \<exists>u. (u, k) \<in> set rules \<and> match strtod (the (pieces u)) url no_params = Some q} i q"
    by simp
  show ?thesis
  proof (cases "i = 0")
    case True
    with b have "match strtod (the (pieces u)) url no_params \<noteq> Some q'" if "(u, k) \<in> set rules" for u k q'
      using that by (auto simp: best_def)
    then have "\<forall>u k. (u, k) \<in> set rules \<longrightarrow> match strtod (the (pieces u)) url no_params = None"
      by (meson not_Some_eq)
    with True show ?thesis by (auto simp: f)
  next
    case False
    with b have "\<exists>u. (u, i) \<in> set rules \<and> match strtod (the (pieces u)) url no_params = Some q"
      "\<forall>u k. (u, k) \<in> set rules \<longrightarrow> match strtod (the (pieces u)) url no_params \<noteq> None \<longrightarrow> i \<le> k"
      by (auto simp: best_def)
    with False show ?thesis by (auto simp: f)
  qed
qed

definition example_rules :: "(string \<times> nat) list" where
  "example_rules = [(''/item/<int>'', 2), (''/item/new'', 3), (''/item/<string>'', 4)]"

definition example_tree :: node where
  "example_tree = projr (the (add_rules example_rules new_node))"

lemma example_tree: "add_rules example_rules new_node = Some (Inr example_tree)"
  unfolding example_tree_def by code_simp

lemma example_find: "fst (find_rule (\<lambda>_. None :: (nat \<times> nat) option) ''/item/new'' (optimize example_tree)) = 3"
  unfolding example_tree_def by code_simp

theorem find_returns_least_rule_witness:
  "\<exists>u q. (u, 3) \<in> set example_rules \<and>
     match (\<lambda>_. None :: (nat \<times> nat) option) (the (pieces u)) ''/item/new'' no_params = Some q"
proof -
  have "list_all proper_rule example_rules" by code_simp
  from find_returns_least_rule [OF example_tree this, of "\<lambda>_. None :: (nat \<times> nat) option" "''/item/new''"]
  show ?thesis using example_find
    by (cases "find_rule (\<lambda>_. None :: (nat \<times> nat) option) ''/item/new'' (optimize example_tree)") auto
qed

end
