(* ===== verification/RouterFacts.thy ===== *)
theory RouterFacts
  imports Router RoutingFacts
begin

text \<open>
  The router's invariant: the tree of every method holds, under every index, the URL of the rule
  at that index, or a URL to redirect. A found rule therefore exists and matches.
\<close>

section \<open>The invariant\<close>

definition per_method_ok :: "'h per_method \<Rightarrow> bool" where
  "per_method_ok pm \<longleftrightarrow>
     2 \<le> length (pm_rules pm) \<and> keyed (pm_trie pm)
     \<and> (\<forall>(ts, i)\<in>entries (pm_trie pm).
          i < length (pm_rules pm) \<and> (i = 1 \<or> (\<exists>r. pm_rules pm ! i = Some r \<and> pieces (ru_url r) = Some ts)))"

definition router_ok :: "'h router \<Rightarrow> bool" where
  "router_ok R \<longleftrightarrow> length (rt_per_methods R) = InternalMethodCount \<and> list_all per_method_ok (rt_per_methods R)"

text \<open>Before the trees are merged.\<close>

definition building :: "nat \<Rightarrow> 'h per_method list \<Rightarrow> bool" where
  "building n pms \<longleftrightarrow> length pms = InternalMethodCount
     \<and> list_all (\<lambda>pm. per_method_ok pm \<and> raw (pm_trie pm) \<and> length (pm_rules pm) \<le> n) pms"

lemma rule_methods_bits [code]: "rule_methods r = filter (\<lambda>m. bit (ru_methods r) m) [0..<InternalMethodCount]"
  by (simp add: rule_methods_def bit_iff_and_push_bit_not_eq_0)

lemma building_new: "building 2 (rt_per_methods new_router)"
  using raw_new_node raw_keyed [OF raw_new_node(1)]
  by (simp add: building_def new_router_def per_method_ok_def list_all_iff InternalMethodCount_def)

lemma bind_ores_Inr: "bind_ores r f = Some (Inr y) \<longleftrightarrow> (\<exists>x. r = Some (Inr x) \<and> f x = Some (Inr y))"
  by (auto simp: bind_ores_def split: option.splits sum.splits)

lemma per_method_ok_add:
  assumes "per_method_ok pm" "raw (pm_trie pm)" "CHR 0x00 \<notin> set url" "0 < i"
    and "add_rule url i 0 INVALID_BP_ID (pm_trie pm) = Some (Inr t)"
    and "i < length rules" "\<And>j. j < length (pm_rules pm) \<Longrightarrow> rules ! j = pm_rules pm ! j" "length (pm_rules pm) \<le> length rules"
    and "i = 1 \<or> (\<exists>r. rules ! i = Some r \<and> ru_url r = url)"
  shows "per_method_ok \<lparr> pm_rules = rules, pm_trie = t \<rparr> \<and> raw t"
proof -
  obtain ts where ts: "pieces url = Some ts" "raw t" "entries t = insert (ts, i) (entries (pm_trie pm))"
    using add_rule_pieces [OF assms(2,3) _ assms(5)] assms(4) by blast
  have "\<exists>r. rules ! k = Some r \<and> pieces (ru_url r) = Some us" if "(us, k) \<in> entries t" "k \<noteq> 1" for us k
  proof (cases "(us, k) = (ts, i)")
    case True
    with assms(9) that(2) ts(1) show ?thesis by auto
  next
    case False
    with that ts(3) have "(us, k) \<in> entries (pm_trie pm)" by auto
    with assms(1) that(2) have "k < length (pm_rules pm)" "\<exists>r. pm_rules pm ! k = Some r \<and> pieces (ru_url r) = Some us"
      by (auto simp: per_method_ok_def)
    then show ?thesis using assms(7) by simp
  qed
  moreover have "k < length rules" if "(us, k) \<in> entries t" for us k
    using that ts(3) assms(1,6,8) by (force simp: per_method_ok_def)
  ultimately show ?thesis
    using assms(1,8) ts(2) raw_keyed [OF ts(2)] by (auto simp: per_method_ok_def)
qed

lemma building_add_for_method:
  assumes "building n pms" "m < InternalMethodCount" "n < 65536" "CHR 0x00 \<notin> set (ru_url r)"
    and "add_for_method r m pms = Some (Inr pms')"
  shows "building (Suc n) pms'"
proof -
  let ?pm = "pms ! m" and ?rules = "pm_rules (pms ! m) @ [Some r]"
  have pm: "per_method_ok ?pm" "raw (pm_trie ?pm)" "length (pm_rules ?pm) \<le> n" "m < length pms"
    using assms(1,2) by (auto simp: building_def list_all_length)
  have i: "unat (of_nat (length ?rules - 1) :: 16 word) = length (pm_rules ?pm)" "2 \<le> length (pm_rules ?pm)"
    using pm assms(3) by (auto simp: per_method_ok_def unat_of_nat)
  obtain t where t: "add_rule (ru_url r) (length (pm_rules ?pm)) 0 INVALID_BP_ID (pm_trie ?pm) = Some (Inr t)"
    using assms(5) i(1) by (auto simp: add_for_method_def bind_ores_Inr Let_def)
  have ok: "per_method_ok \<lparr> pm_rules = ?rules, pm_trie = t \<rparr> \<and> raw t"
    using i(2) by (intro per_method_ok_add [OF pm(1,2) assms(4) _ t]) (auto simp: nth_append)
  obtain u where u: "per_method_ok \<lparr> pm_rules = ?rules, pm_trie = u \<rparr> \<and> raw u"
    and pms': "pms' = pms[m := \<lparr> pm_rules = ?rules, pm_trie = u \<rparr>]"
  proof (cases "1 < length (ru_url r) \<and> last (ru_url r) = CHR ''/''")
    case False
    with that [OF ok] assms(5) i(1) t show ?thesis
      by (auto simp: add_for_method_def bind_ores_Inr Let_def)
  next
    case True
    with assms(5) i(1) t obtain u where u: "add_rule (butlast (ru_url r)) 1 0 INVALID_BP_ID t = Some (Inr u)"
      "pms' = pms[m := \<lparr> pm_rules = ?rules, pm_trie = u \<rparr>]"
      by (auto simp: add_for_method_def bind_ores_Inr Let_def)
    have "per_method_ok \<lparr> pm_rules = ?rules, pm_trie = u \<rparr> \<and> raw u"
      using ok assms(4) i(2)
      by (intro per_method_ok_add [where pm = "\<lparr> pm_rules = ?rules, pm_trie = t \<rparr>" and url = "butlast (ru_url r)" and i = 1])
        (auto simp: u(1) [unfolded One_nat_def] dest: in_set_butlastD)
    from that [OF this u(2)] show ?thesis .
  qed
  have "per_method_ok pm \<and> raw (pm_trie pm) \<and> length (pm_rules pm) \<le> Suc n" if "pm \<in> set pms'" for pm
    using that u pm(3) assms(1) set_update_subset_insert [of pms m] unfolding pms' building_def list_all_iff
    by fastforce
  then show ?thesis using assms(1) by (simp add: building_def list_all_iff pms')
qed

lemma building_mono: "building n pms \<Longrightarrow> n \<le> k \<Longrightarrow> building k pms"
  by (auto simp: building_def list_all_iff)

lemma building_add_for_methods:
  "add_for_methods r ms pms = Some (Inr pms') \<Longrightarrow> building n pms \<Longrightarrow> set ms \<subseteq> {..<InternalMethodCount} \<Longrightarrow>
   n + length ms \<le> 65536 \<Longrightarrow> CHR 0x00 \<notin> set (ru_url r) \<Longrightarrow> building (n + length ms) pms'"
proof (induction r ms pms arbitrary: n rule: add_for_methods.induct)
  case (2 r m ms pms)
  then obtain qms where q: "add_for_method r m pms = Some (Inr qms)" "add_for_methods r ms qms = Some (Inr pms')"
    by (auto simp: bind_ores_Inr)
  from building_add_for_method [OF 2(3) _ _ _ q(1)] 2(4-6) have "building (Suc n) qms" by simp
  from 2(1) [OF q(2) this] 2(4-6) show ?case by simp
qed simp

lemma rule_methods_bound: "set (rule_methods r) \<subseteq> {..<InternalMethodCount}" "length (rule_methods r) \<le> InternalMethodCount"
  using length_filter_le [of "\<lambda>m. ru_methods r AND push_bit m 1 \<noteq> 0" "[0..<InternalMethodCount]"]
  by (auto simp: rule_methods_def)

lemma upgraded_url [simp]: "ru_url (upgraded r) = ru_url r"
  by (simp add: upgraded_def new_rule_def split: option.split)

lemma building_validate_rules:
  "validate_rules rs pms = Some (Inr (rs', pms')) \<Longrightarrow> building n pms \<Longrightarrow> n + InternalMethodCount * length rs \<le> 65536 \<Longrightarrow>
   \<forall>r\<in>set rs. CHR 0x00 \<notin> set (ru_url r) \<Longrightarrow> building (n + InternalMethodCount * length rs) pms'"
proof (induction rs pms arbitrary: n rs' rule: validate_rules.induct)
  case (2 r rs pms)
  show ?case
  proof (cases "ru_added r")
    case True
    with 2(3) obtain rs2 where "validate_rules rs pms = Some (Inr (rs2, pms'))" by (auto simp: bind_ores_Inr)
    from 2(1) [OF True this 2(4)] 2(5,6) show ?thesis by (auto intro: building_mono)
  next
    case False
    with 2(3) obtain qms rs2 where q: "internal_add_rule_object (upgraded r) pms = Some (Inr qms)"
      "validate_rules rs qms = Some (Inr (rs2, pms'))"
      by (auto simp: bind_ores_Inr Let_def)
    have "building (n + length (rule_methods (upgraded r))) qms"
      using q(1) 2(4-6) rule_methods_bound [of "upgraded r"]
      by (intro building_add_for_methods) (auto simp: internal_add_rule_object_def)
    then have "building (n + InternalMethodCount) qms"
      using rule_methods_bound(2) [of "upgraded r"] by (auto intro: building_mono)
    from 2(2) [OF False refl q(2) this] 2(5,6) show ?thesis by (simp add: algebra_simps)
  qed
qed simp

lemma per_method_ok_optimize: "per_method_ok pm \<Longrightarrow> per_method_ok (pm\<lparr>pm_trie := optimize (pm_trie pm)\<rparr>)"
  by (simp add: per_method_ok_def optimize_keeps)

text \<open>A router with the rules of a program, in the order in which they were made.\<close>

definition router_of :: "'h rule list \<Rightarrow> 'h router" where
  "router_of rules = foldl (\<lambda>R r. add_new_rule r R) new_router rules"

text \<open>A router whose rules have been validated satisfies the invariant.\<close>

lemma validated_router_ok:
  assumes "validate_router (router_of rules) = Some (Inr R)"
    and "InternalMethodCount * length rules \<le> 65000" "\<forall>r\<in>set rules. CHR 0x00 \<notin> set (ru_url r)"
  shows "router_ok R"
proof -
  have start: "rt_all_rules (router_of rules) = rules
    \<and> rt_per_methods (router_of rules) = rt_per_methods new_router" unfolding router_of_def
    by (induction rules rule: rev_induct) (simp_all add: add_new_rule_def, simp add: new_router_def)
  obtain rs pms pms' where v: "validate_rules rules (rt_per_methods new_router) = Some (Inr (rs, pms))"
    "map_res (\<lambda>pm. bind_res (validate_trie (pm_trie pm)) (\<lambda>t. Inr (pm\<lparr>pm_trie := t\<rparr>))) pms = Inr pms'"
    "rt_per_methods R = pms'"
    using assms(1) by (auto simp: validate_router_def bind_ores_Inr start)
  have b: "building (2 + InternalMethodCount * length rules) pms"
    using assms(2,3) by (intro building_validate_rules [OF v(1) building_new]) auto
  have "per_method_ok (pms' ! m)" if "m < length pms'" for m
  proof -
    have m: "m < length pms" using that map_res_length [OF v(2)] by simp
    then have "per_method_ok (pms ! m)" using b by (simp add: building_def list_all_length)
    moreover have "pms' ! m = (pms ! m)\<lparr>pm_trie := optimize (pm_trie (pms ! m))\<rparr>"
      using map_res_nth [OF v(2) m] by (auto simp: bind_res_eq_Inr validate_trie_def split: if_splits)
    ultimately show ?thesis by (simp only: per_method_ok_optimize)
  qed
  then show ?thesis
    using b map_res_length [OF v(2)] by (simp add: router_ok_def v(3) list_all_length building_def)
qed

section \<open>Found rules\<close>

lemma find_method_found:
  assumes "router_ok R" "m < InternalMethodCount" "find_method strtod R m url = (i, bps, q)" "i \<noteq> 0"
  shows "i < length (pm_rules (rt_per_methods R ! m)) \<and>
    (i \<noteq> 1 \<longrightarrow> (\<exists>r. pm_rules (rt_per_methods R ! m) ! i = Some r \<and> match strtod (the (pieces (ru_url r))) url no_params = Some q))"
proof -
  let ?pm = "rt_per_methods R ! m"
  have ok: "per_method_ok ?pm" using assms(1,2) by (simp add: router_ok_def list_all_length)
  then have "keyed (pm_trie ?pm)" by (simp add: per_method_ok_def)
  from find_best(1) [OF this, of strtod url no_params "[]"] assms(3,4)
  obtain ts where ts: "(ts, i) \<in> entries (pm_trie ?pm)" "match strtod ts url no_params = Some q"
    by (auto simp: find_method_def find_rule_def best_def results_def split: if_splits)
  with ok have "i < length (pm_rules ?pm)" "i = 1 \<or> (\<exists>r. pm_rules ?pm ! i = Some r \<and> pieces (ru_url r) = Some ts)"
    by (auto simp: per_method_ok_def)
  with ts(2) show ?thesis by auto
qed

lemma rule_found_of: "rf_rule (found_of f m) = fst f"
  by (simp add: found_of_def split: prod.split)

text \<open>C11: The routes of a program whose rules were accepted: whatever the request, when the first pass finds
  a route, the second pass neither reads outside an array or through a null pointer nor finds the
  tree corrupted: it redirects, or calls a rule whose URL matches the request's with the parameters
  that were found.\<close>

theorem found_route_is_called:
  assumes "validate_router (router_of rules) = Some (Inr R)"
    and "InternalMethodCount * length rules \<le> 65000" "\<forall>r\<in>set rules. CHR 0x00 \<notin> set (ru_url r)"
    and "handle_initial strtod R req res = Inr (found, res')" "rf_rule found \<noteq> 0"
  shows "router_handle R req' res'' found = Inr (Respond (redirect_slash req' res'')) \<or>
    (\<exists>r. router_handle R req' res'' found = Inr (Call r)
      \<and> match strtod (the (pieces (ru_url r))) (rq_url req) no_params = Some (rf_params found))"
proof -
  have ok: "router_ok R" by (rule validated_router_ok [OF assms(1-3)])
  have "\<exists>m\<in>{Head, Get, rq_method req}. m < InternalMethodCount \<and> found = found_of (find_method strtod R m (rq_url req)) m"
    using assms(4,5)
    by (auto simp: handle_initial_def handle_head_def handle_options_def Let_def rule_found_of not_found_def
        InternalMethodCount_def bind_res_eq_Inr split: if_splits)
  then obtain m where m: "m < InternalMethodCount" "found = found_of (find_method strtod R m (rq_url req)) m" by blast
  obtain i bps q where f: "find_method strtod R m (rq_url req) = (i, bps, q)"
    by (cases "find_method strtod R m (rq_url req)") auto
  from find_method_found [OF ok m(1) f] assms(5) m(2) show ?thesis
    using m(1) by (auto simp: router_handle_def f found_of_def Let_def)
qed

text \<open>The routes \<open>/static/<path>\<close> and \<open>/health\<close>, and a request for a file.\<close>

definition example_routes :: "nat rule list" where
  "example_routes = [new_rule ''/static/<path>'' (Tagged (Some 0)), new_rule ''/health'' (Tagged (Some 1))]"

definition example_get :: request where
  "example_get = \<lparr> rq_method = Get, rq_raw_url = ''/static/a/b'', rq_url = ''/static/a/b'', rq_headers = [], rq_body = [], rq_version = (1, 1),
     rq_keep_alive = True, rq_close = False, rq_upgrade = False \<rparr>"

definition example_pass :: "(nat router \<times> nat route_found) res option" where
  "example_pass =
     bind_ores (validate_router (router_of example_routes)) (\<lambda>R.
       Some (bind_res (handle_initial (\<lambda>_. None) R example_get (response_code 200)) (\<lambda>(found, _). Inr (R, found))))"

lemma example_found:
  "(case example_pass of Some (Inr (R, found)) \<Rightarrow> rf_rule found = 2 \<and> string_params (rf_params found) = [''a/b''] | _ \<Rightarrow> False)"
  by code_simp

theorem found_route_is_called_witness:
  "\<exists>R found. example_pass = Some (Inr (R, found)) \<and>
    (router_handle R example_get (response_code 200) found = Inr (Respond (redirect_slash example_get (response_code 200))) \<or>
     (\<exists>r. router_handle R example_get (response_code 200) found = Inr (Call r)
       \<and> match (\<lambda>_. None) (the (pieces (ru_url r))) (rq_url example_get) no_params = Some (rf_params found)))"
proof -
  obtain R found where e: "example_pass = Some (Inr (R, found))" "rf_rule found = 2"
    using example_found by (auto split: option.splits sum.splits)
  then obtain res' where v: "validate_router (router_of example_routes) = Some (Inr R)"
    and h: "handle_initial (\<lambda>_. None) R example_get (response_code 200) = Inr (found, res')"
    by (auto simp: example_pass_def bind_ores_Inr bind_res_eq_Inr split: prod.splits)
  have "InternalMethodCount * length example_routes \<le> 65000" "\<forall>r\<in>set example_routes. CHR 0x00 \<notin> set (ru_url r)"
    by (simp_all add: example_routes_def InternalMethodCount_def new_rule_def)
  then show ?thesis
    using e(1) found_route_is_called [OF v _ _ h, of example_get "response_code 200"] e(2) by (intro exI conjI) auto
qed

end
