(* ===== verification/HttpParser.thy ===== *)
theory HttpParser
  imports Http "HOL-Library.Word"
begin

text \<open>
  The HTTP parser of Crow, \<open>lib/crow/http_parser_merged.h\<close>: one call of \<open>http_parser_execute\<close> takes
  the bytes of one read and calls back with what it recognises. A pointer into the buffer is the
  text from there to the end of the buffer. An assertion that fails is an error of the model.
\<close>

section \<open>The parser's data\<close>

datatype http_connection_flag =
  F_CHUNKED | F_CONNECTION_KEEP_ALIVE | F_CONNECTION_CLOSE | F_TRAILING | F_UPGRADE | F_SKIPBODY | F_CONTENTLENGTH

datatype http_errno =
    CHPE_OK
  | CHPE_CB_message_begin | CHPE_CB_method | CHPE_CB_url | CHPE_CB_header_field | CHPE_CB_header_value
  | CHPE_CB_headers_complete | CHPE_CB_body | CHPE_CB_message_complete | CHPE_CB_status
  | CHPE_INVALID_EOF_STATE | CHPE_HEADER_OVERFLOW | CHPE_CLOSED_CONNECTION | CHPE_INVALID_VERSION
  | CHPE_INVALID_STATUS | CHPE_INVALID_METHOD | CHPE_INVALID_URL | CHPE_INVALID_HOST | CHPE_INVALID_PORT
  | CHPE_INVALID_PATH | CHPE_INVALID_QUERY_STRING | CHPE_INVALID_FRAGMENT | CHPE_LF_EXPECTED
  | CHPE_INVALID_HEADER_TOKEN | CHPE_INVALID_CONTENT_LENGTH | CHPE_UNEXPECTED_CONTENT_LENGTH
  | CHPE_INVALID_CHUNK_SIZE | CHPE_INVALID_CONSTANT | CHPE_INVALID_INTERNAL_STATE | CHPE_STRICT | CHPE_UNKNOWN
  | CHPE_INVALID_TRANSFER_ENCODING

datatype state =
    s_dead
  | s_start_req
  | s_req_method | s_req_spaces_before_url | s_req_schema | s_req_schema_slash | s_req_schema_slash_slash
  | s_req_server_start | s_req_server | s_req_server_with_at | s_req_path | s_req_query_string_start
  | s_req_query_string | s_req_http_start | s_req_http_H | s_req_http_HT | s_req_http_HTT | s_req_http_HTTP
  | s_req_http_I | s_req_http_IC | s_req_http_major | s_req_http_dot | s_req_http_minor | s_req_http_end
  | s_req_line_almost_done
  | s_header_field_start | s_header_field | s_header_value_discard_ws | s_header_value_discard_ws_almost_done
  | s_header_value_discard_lws | s_header_value_start | s_header_value | s_header_value_lws
  | s_header_almost_done
  | s_chunk_size_start | s_chunk_size | s_chunk_parameters | s_chunk_size_almost_done
  | s_headers_almost_done | s_headers_done
  | s_chunk_data | s_chunk_data_almost_done | s_chunk_data_done
  | s_body_identity | s_body_identity_eof
  | s_message_done

datatype header_state =
    h_general | h_C | h_CO | h_CON
  | h_matching_connection | h_matching_proxy_connection | h_matching_content_length
  | h_matching_transfer_encoding | h_matching_upgrade
  | h_connection | h_content_length | h_content_length_num | h_content_length_ws | h_transfer_encoding | h_upgrade
  | h_matching_transfer_encoding_token_start | h_matching_transfer_encoding_chunked
  | h_matching_transfer_encoding_token
  | h_matching_connection_keep_alive | h_matching_connection_close
  | h_transfer_encoding_chunked | h_connection_keep_alive | h_connection_close

text \<open>The states beyond \<open>s_headers_done\<close> are the body states.\<close>

definition CROW_PARSING_HEADER :: "state \<Rightarrow> bool" where
  "CROW_PARSING_HEADER s \<longleftrightarrow>
     s \<notin> {s_chunk_data, s_chunk_data_almost_done, s_chunk_data_done, s_body_identity, s_body_identity_eof, s_message_done}"

record http_parser =
  flags :: "http_connection_flag set"
  pstate :: state
  hstate :: header_state
  index :: nat                       \<comment> \<open>five bits\<close>
  uses_transfer_encoding :: bool
  allow_chunked_length :: bool
  lenient_http_headers :: bool
  nread :: "32 word"
  content_length :: "64 word"
  qs_point :: nat
  http_major :: nat
  http_minor :: nat
  rmethod :: nat
  http_errno :: http_errno
  upgrade :: bool

definition max_header_size :: "32 word" where
  "max_header_size = 80 * 1024"

definition CROW_ULLONG_MAX :: "64 word" where
  "CROW_ULLONG_MAX = - 1"

definition http_parser_init :: http_parser where
  "http_parser_init = \<lparr> flags = {}, pstate = s_start_req, hstate = h_general, index = 0, uses_transfer_encoding = False,
     allow_chunked_length = False, lenient_http_headers = False, nread = 0, content_length = 0, qs_point = 0,
     http_major = 0, http_minor = 0, rmethod = 0, http_errno = CHPE_OK, upgrade = False \<rparr>"

definition bump :: "http_parser \<Rightarrow> http_parser" where
  "bump p = p\<lparr>index := (index p + 1) mod 32\<rparr>"

section \<open>Characters\<close>

definition cr :: char where "cr = CHR 0x0D"
definition lf :: char where "lf = CHR 0x0A"

definition char_in :: "nat \<Rightarrow> nat \<Rightarrow> char \<Rightarrow> bool" where
  "char_in a b c \<longleftrightarrow> a \<le> of_char c \<and> of_char c \<le> b"

definition CROW_LOWER :: "char \<Rightarrow> char" where
  "CROW_LOWER c = char_of (or (of_char c) (32 :: nat))"

definition CROW_IS_ALPHA :: "char \<Rightarrow> bool" where
  "CROW_IS_ALPHA c \<longleftrightarrow> char_in 97 122 (CROW_LOWER c)"

definition CROW_IS_NUM :: "char \<Rightarrow> bool" where
  "CROW_IS_NUM c \<longleftrightarrow> char_in 48 57 c"

definition CROW_IS_MARK :: "char \<Rightarrow> bool" where
  "CROW_IS_MARK c \<longleftrightarrow> c \<in> {CHR ''-'', CHR ''_'', CHR ''.'', CHR ''!'', CHR ''~'', CHR ''*'', CHR 0x27, CHR ''('', CHR '')''}"

definition CROW_IS_USERINFO_CHAR :: "char \<Rightarrow> bool" where
  "CROW_IS_USERINFO_CHAR c \<longleftrightarrow> CROW_IS_ALPHA c \<or> CROW_IS_NUM c \<or> CROW_IS_MARK c
     \<or> c \<in> {CHR ''%'', CHR '';'', CHR '':'', CHR ''&'', CHR ''='', CHR ''+'', CHR ''$'', CHR '',''}"

text \<open>The table \<open>tokens\<close>: the token character in lower case, NUL for the others.\<close>

definition CROW_TOKEN :: "char \<Rightarrow> char" where
  "CROW_TOKEN c =
     (if char_in 65 90 c then char_of (of_char c + 32 :: nat)
      else if char_in 97 122 c \<or> char_in 48 57 c
           \<or> c \<in> {CHR ''!'', CHR ''#'', CHR ''$'', CHR ''%'', CHR ''&'', CHR 0x27, CHR ''*'', CHR ''+'', CHR ''-'', CHR ''.'',
                CHR ''^'', CHR ''_'', CHR 0x60, CHR ''|'', CHR ''~''} then c
      else CHR 0x00)"

text \<open>The table \<open>normal_url_char\<close>: the visible ASCII characters but the number sign and the question mark.\<close>

definition CROW_IS_URL_CHAR :: "char \<Rightarrow> bool" where
  "CROW_IS_URL_CHAR c \<longleftrightarrow> char_in 33 126 c \<and> c \<noteq> CHR ''#'' \<and> c \<noteq> CHR ''?''"

definition CROW_IS_HEADER_CHAR :: "char \<Rightarrow> bool" where
  "CROW_IS_HEADER_CHAR c \<longleftrightarrow> c = cr \<or> c = lf \<or> c = CHR 0x09 \<or> (char_in 32 255 c \<and> c \<noteq> CHR 0x7F)"

text \<open>The table \<open>unhex\<close> has 128 entries; the other half of the array is zero.\<close>

definition unhex :: "char \<Rightarrow> nat option" where
  "unhex c =
     (if char_in 48 57 c then Some (of_char c - 48)
      else if char_in 65 70 c then Some (of_char c - 55)
      else if char_in 97 102 c then Some (of_char c - 87)
      else if char_in 128 255 c then Some 0
      else None)"

text \<open>\<open>literal[i]\<close>, with the terminating NUL.\<close>

definition c_at :: "string \<Rightarrow> nat \<Rightarrow> char" where
  "c_at s i = (if i < length s then s ! i else CHR 0x00)"

section \<open>Characters of a URL\<close>

text \<open>
  \<open>parse_url_char\<close>: the next state, \<open>s_dead\<close> for an error. The start of the URL is only known in the
  read in which the URL started; later the difference with it is undefined.
\<close>

definition url_offset :: "string option \<Rightarrow> string \<Rightarrow> nat res" where
  "url_offset url_mark s =
     (case url_mark of None \<Rightarrow> Inl (Undefined Null_difference) | Some m \<Rightarrow> Inr (length m - length s))"

definition query_starts :: "string option \<Rightarrow> string \<Rightarrow> http_parser \<Rightarrow> (state \<times> http_parser) res" where
  "query_starts url_mark s p =
     bind_res (url_offset url_mark s) (\<lambda>n. Inr (s_req_query_string_start, p\<lparr>qs_point := n\<rparr>))"

definition parse_server_char :: "char \<Rightarrow> string option \<Rightarrow> string \<Rightarrow> http_parser \<Rightarrow> (state \<times> http_parser) res" where
  "parse_server_char ch url_mark s p =
     (if ch = CHR ''/'' then Inr (s_req_path, p)
      else if ch = CHR ''?'' then query_starts url_mark s p
      else if ch = CHR ''@'' then Inr (s_req_server_with_at, p)
      else if CROW_IS_USERINFO_CHAR ch \<or> ch = CHR ''['' \<or> ch = CHR '']'' then Inr (s_req_server, p)
      else Inr (s_dead, p))"

definition parse_url_char :: "state \<Rightarrow> char \<Rightarrow> string option \<Rightarrow> string \<Rightarrow> http_parser \<Rightarrow> (state \<times> http_parser) res" where
  "parse_url_char st ch url_mark s p =
     (if ch = CHR '' '' \<or> ch = cr \<or> ch = lf then Inr (s_dead, p)
      else if ch = CHR 0x09 \<or> ch = CHR 0x0C then Inr (s_dead, p)
      else case st of
        s_req_spaces_before_url \<Rightarrow>
          if ch = CHR ''/'' \<or> ch = CHR ''*'' then Inr (s_req_path, p)
          else if CROW_IS_ALPHA ch then Inr (s_req_schema, p) else Inr (s_dead, p)
      | s_req_schema \<Rightarrow>
          if CROW_IS_ALPHA ch then Inr (st, p)
          else if ch = CHR '':'' then Inr (s_req_schema_slash, p) else Inr (s_dead, p)
      | s_req_schema_slash \<Rightarrow> Inr (if ch = CHR ''/'' then s_req_schema_slash_slash else s_dead, p)
      | s_req_schema_slash_slash \<Rightarrow> Inr (if ch = CHR ''/'' then s_req_server_start else s_dead, p)
      | s_req_server_with_at \<Rightarrow> if ch = CHR ''@'' then Inr (s_dead, p) else parse_server_char ch url_mark s p
      | s_req_server_start \<Rightarrow> parse_server_char ch url_mark s p
      | s_req_server \<Rightarrow> parse_server_char ch url_mark s p
      | s_req_path \<Rightarrow>
          if CROW_IS_URL_CHAR ch then Inr (st, p)
          else if ch = CHR ''?'' then query_starts url_mark s p else Inr (s_dead, p)
      | s_req_query_string_start \<Rightarrow> Inr (if CROW_IS_URL_CHAR ch \<or> ch = CHR ''?'' then s_req_query_string else s_dead, p)
      | s_req_query_string \<Rightarrow> Inr (if CROW_IS_URL_CHAR ch \<or> ch = CHR ''?'' then s_req_query_string else s_dead, p)
      | _ \<Rightarrow> Inr (s_dead, p))"

section \<open>Callbacks\<close>

text \<open>
  A callback changes its environment, may change the parser, and returns a number; undefined
  behaviour in it is an error of the model. The variables of one call: the parser, the environment,
  the marks and the count of header bytes.
\<close>

type_synonym 'c notify = "http_parser \<Rightarrow> 'c \<Rightarrow> (http_parser \<times> 'c \<times> int) res"

record 'c settings =
  on_message_begin :: "'c notify"
  on_method :: "'c notify"
  on_url :: "string \<Rightarrow> 'c notify"
  on_header_field :: "string \<Rightarrow> 'c notify"
  on_header_value :: "string \<Rightarrow> 'c notify"
  on_headers_complete :: "'c notify"
  on_body :: "string \<Rightarrow> 'c notify"
  on_message_complete :: "'c notify"

record 'c exec =
  ex_parser :: http_parser
  ex_env :: 'c
  ex_nread :: "32 word"
  header_field_mark :: "string option"
  header_value_mark :: "string option"
  url_mark :: "string option"
  url_start_mark :: "string option"
  body_mark :: "string option"

text \<open>How the code for one character ends: the loop goes on with the text given, the switch is entered again, or
  the function returns with the text given unparsed.\<close>

datatype 'c control = Continue "'c exec" string | Reexecute "'c exec" string | Return "'c exec" string

definition with_parser :: "(http_parser \<Rightarrow> http_parser) \<Rightarrow> 'c exec \<Rightarrow> 'c exec" where
  "with_parser f x = x\<lparr>ex_parser := f (ex_parser x)\<rparr>"

definition to_state :: "state \<Rightarrow> 'c exec \<Rightarrow> 'c exec" where
  "to_state st = with_parser (\<lambda>p. p\<lparr>pstate := st\<rparr>)"

definition CROW_SET_ERRNO :: "http_errno \<Rightarrow> 'c exec \<Rightarrow> 'c exec" where
  "CROW_SET_ERRNO e x = with_parser (\<lambda>p. p\<lparr>nread := ex_nread x, http_errno := e\<rparr>) x"

definition go_error :: "http_errno \<Rightarrow> 'c exec \<Rightarrow> string \<Rightarrow> 'c control res" where
  "go_error e x s = Inr (Return (CROW_SET_ERRNO e x) s)"

definition CROW_STRICT_CHECK :: "bool \<Rightarrow> 'c exec \<Rightarrow> string \<Rightarrow> 'c control res \<Rightarrow> 'c control res" where
  "CROW_STRICT_CHECK cond x s k = (if cond then go_error CHPE_STRICT x s else k)"

definition CROW_ASSERT :: "bool \<Rightarrow> 'c control res \<Rightarrow> 'c control res" where
  "CROW_ASSERT cond k = (if cond then k else Inl (Undefined Assertion))"

text \<open>\<open>k\<close> is the code behind the macro, \<open>er\<close> the text from where it returns on.\<close>

definition CROW_CALLBACK_NOTIFY :: "'c notify \<Rightarrow> http_errno \<Rightarrow> string \<Rightarrow> 'c exec \<Rightarrow> ('c exec \<Rightarrow> 'c control res) \<Rightarrow> 'c control res" where
  "CROW_CALLBACK_NOTIFY f e er x k =
     CROW_ASSERT (http_errno (ex_parser x) = CHPE_OK) (bind_res (f (ex_parser x) (ex_env x)) (\<lambda>(p, c, n).
       let x = x\<lparr>ex_parser := p, ex_env := c\<rparr>; x = (if n \<noteq> 0 then CROW_SET_ERRNO e x else x)
       in if http_errno (ex_parser x) \<noteq> CHPE_OK then Inr (Return x er) else k x))"

definition COUNT_HEADER_SIZE :: "nat \<Rightarrow> 'c exec \<Rightarrow> string \<Rightarrow> ('c exec \<Rightarrow> 'c control res) \<Rightarrow> 'c control res" where
  "COUNT_HEADER_SIZE v x s k =
     (let x = x\<lparr>ex_nread := ex_nread x + of_nat v\<rparr>
      in if max_header_size < ex_nread x then go_error CHPE_HEADER_OVERFLOW x s else k x)"

text \<open>The data callbacks: nothing without a mark, else the text from the mark to the end position given.\<close>

definition between :: "string \<Rightarrow> string \<Rightarrow> string" where
  "between mark e = take (length mark - length e) mark"

definition call_url :: "'c settings \<Rightarrow> string \<Rightarrow> string \<Rightarrow> 'c exec \<Rightarrow> ('c exec \<Rightarrow> 'c control res) \<Rightarrow> 'c control res" where
  "call_url st e er x k =
     (case url_mark x of None \<Rightarrow> CROW_ASSERT (http_errno (ex_parser x) = CHPE_OK) (k x)
      | Some m \<Rightarrow> CROW_CALLBACK_NOTIFY (on_url st (between m e)) CHPE_CB_url er x (\<lambda>x. k (x\<lparr>url_mark := None\<rparr>)))"

definition call_header_field :: "'c settings \<Rightarrow> string \<Rightarrow> string \<Rightarrow> 'c exec \<Rightarrow> ('c exec \<Rightarrow> 'c control res) \<Rightarrow> 'c control res" where
  "call_header_field st e er x k =
     (case header_field_mark x of None \<Rightarrow> CROW_ASSERT (http_errno (ex_parser x) = CHPE_OK) (k x)
      | Some m \<Rightarrow> CROW_CALLBACK_NOTIFY (on_header_field st (between m e)) CHPE_CB_header_field er x
          (\<lambda>x. k (x\<lparr>header_field_mark := None\<rparr>)))"

definition call_header_value :: "'c settings \<Rightarrow> string \<Rightarrow> string \<Rightarrow> 'c exec \<Rightarrow> ('c exec \<Rightarrow> 'c control res) \<Rightarrow> 'c control res" where
  "call_header_value st e er x k =
     (case header_value_mark x of None \<Rightarrow> CROW_ASSERT (http_errno (ex_parser x) = CHPE_OK) (k x)
      | Some m \<Rightarrow> CROW_CALLBACK_NOTIFY (on_header_value st (between m e)) CHPE_CB_header_value er x
          (\<lambda>x. k (x\<lparr>header_value_mark := None\<rparr>)))"

definition call_body :: "'c settings \<Rightarrow> string \<Rightarrow> string \<Rightarrow> 'c exec \<Rightarrow> ('c exec \<Rightarrow> 'c control res) \<Rightarrow> 'c control res" where
  "call_body st e er x k =
     (case body_mark x of None \<Rightarrow> CROW_ASSERT (http_errno (ex_parser x) = CHPE_OK) (k x)
      | Some m \<Rightarrow> CROW_CALLBACK_NOTIFY (on_body st (between m e)) CHPE_CB_body er x (\<lambda>x. k (x\<lparr>body_mark := None\<rparr>)))"

definition mark :: "string option \<Rightarrow> string \<Rightarrow> string option" where
  "mark m s = (case m of None \<Rightarrow> Some s | Some _ \<Rightarrow> m)"

section \<open>The request line\<close>

definition first_method :: "char \<Rightarrow> nat option" where
  "first_method ch =
     map_of [(CHR ''A'', 21), (CHR ''B'', 18), (CHR ''C'', 5), (CHR ''D'', 0), (CHR ''G'', 1), (CHR ''H'', 2), (CHR ''L'', 11),
       (CHR ''M'', 12), (CHR ''N'', 27), (CHR ''O'', 6), (CHR ''P'', 3), (CHR ''R'', 22), (CHR ''S'', 28), (CHR ''T'', 7),
       (CHR ''U'', 17)] ch"

definition at_start_req :: "'c settings \<Rightarrow> 'c exec \<Rightarrow> string \<Rightarrow> 'c control res" where
  "at_start_req st x s =
     (let ch = hd s
      in if ch = cr \<or> ch = lf then Inr (Continue x (tl s))
         else let x = with_parser (\<lambda>p. p\<lparr>flags := {}, uses_transfer_encoding := False, content_length := CROW_ULLONG_MAX\<rparr>) x
              in if \<not> CROW_IS_ALPHA ch then go_error CHPE_INVALID_METHOD x s
                 else let x = with_parser (\<lambda>p. p\<lparr>rmethod := 0, index := 1\<rparr>) x
                      in case first_method ch of
                           None \<Rightarrow> go_error CHPE_INVALID_METHOD x s
                         | Some m \<Rightarrow>
                             CROW_CALLBACK_NOTIFY (on_message_begin st) CHPE_CB_message_begin (tl s)
                               (with_parser (\<lambda>p. p\<lparr>rmethod := m, pstate := s_req_method\<rparr>) x) (\<lambda>x. Inr (Continue x (tl s))))"

text \<open>The rows of the switch: method, position, character, new method.\<close>

definition method_changes :: "((nat \<times> nat \<times> char) \<times> nat) list" where
  "method_changes =
     [((3, 1, CHR ''U''), 4), ((3, 1, CHR ''A''), 8), ((3, 1, CHR ''R''), 14), ((4, 2, CHR ''R''), 9),
      ((5, 1, CHR ''H''), 24), ((5, 2, CHR ''P''), 10), ((12, 1, CHR ''O''), 13), ((12, 1, CHR ''E''), 25),
      ((12, 1, CHR ''-''), 26), ((12, 2, CHR ''A''), 23), ((12, 3, CHR ''A''), 30), ((28, 1, CHR ''E''), 16),
      ((28, 1, CHR ''O''), 33), ((22, 2, CHR ''B''), 19), ((14, 4, CHR ''P''), 15), ((11, 1, CHR ''I''), 31),
      ((17, 2, CHR ''S''), 29), ((17, 2, CHR ''B''), 20), ((17, 3, CHR ''I''), 32)]"

definition at_req_method :: "'c settings \<Rightarrow> 'c exec \<Rightarrow> string \<Rightarrow> 'c control res" where
  "at_req_method st x s =
     (let ch = hd s; p = ex_parser x; matcher = method_strings ! rmethod p;
          call = (\<lambda>x. CROW_CALLBACK_NOTIFY (on_method st) CHPE_CB_method s x (\<lambda>x. Inr (Continue (with_parser bump x) (tl s))))
      in if ch = CHR 0x00 then go_error CHPE_INVALID_METHOD x s
         else if ch = CHR '' '' \<and> c_at matcher (index p) = CHR 0x00 then call (to_state s_req_spaces_before_url x)
         else if ch = c_at matcher (index p) then call x
         else if char_in 65 90 ch \<or> ch = CHR ''-''
         then (case map_of method_changes (rmethod p, index p, ch) of
                 Some m \<Rightarrow> call (with_parser (\<lambda>p. p\<lparr>rmethod := m\<rparr>) x)
               | None \<Rightarrow> go_error CHPE_INVALID_METHOD x s)
         else go_error CHPE_INVALID_METHOD x s)"

definition url_char :: "'c exec \<Rightarrow> string \<Rightarrow> 'c control res" where
  "url_char x s =
     bind_res (parse_url_char (pstate (ex_parser x)) (hd s) (url_start_mark x) s (ex_parser x)) (\<lambda>(new, p).
       let x = x\<lparr>ex_parser := p\<lparr>pstate := new\<rparr>\<rparr>
       in if new = s_dead then go_error CHPE_INVALID_URL x s else Inr (Continue x (tl s)))"

definition at_req_spaces_before_url :: "'c exec \<Rightarrow> string \<Rightarrow> 'c control res" where
  "at_req_spaces_before_url x s =
     (if hd s = CHR '' '' then Inr (Continue x (tl s))
      else let x = x\<lparr>url_mark := mark (url_mark x) s, url_start_mark := mark (url_start_mark x) s\<rparr>
           in url_char (if rmethod (ex_parser x) = 5 then to_state s_req_server_start x else x) s)"

definition at_req_schema :: "'c exec \<Rightarrow> string \<Rightarrow> 'c control res" where
  "at_req_schema x s =
     (if hd s \<in> {CHR '' '', cr, lf} then go_error CHPE_INVALID_URL x s else url_char x s)"

definition at_req_path :: "'c settings \<Rightarrow> 'c exec \<Rightarrow> string \<Rightarrow> 'c control res" where
  "at_req_path st x s =
     (let ch = hd s; call = (\<lambda>x. call_url st s (tl s) x (\<lambda>x. Inr (Continue x (tl s))))
      in if ch = CHR '' '' then call (to_state s_req_http_start x)
         else if ch = cr \<or> ch = lf
         then (if rmethod (ex_parser x) \<noteq> Get then go_error CHPE_INVALID_VERSION (to_state s_dead x) s
               else call (with_parser (\<lambda>p. p\<lparr>http_major := 0, http_minor := 9,
                      pstate := (if ch = cr then s_req_line_almost_done else s_header_field_start)\<rparr>) x))
         else url_char x s)"

definition at_req_http_start :: "'c exec \<Rightarrow> string \<Rightarrow> 'c control res" where
  "at_req_http_start x s =
     (let ch = hd s
      in if ch = CHR '' '' then Inr (Continue x (tl s))
         else if ch = CHR ''H'' then Inr (Continue (to_state s_req_http_H x) (tl s))
         else if ch = CHR ''I'' \<and> rmethod (ex_parser x) = 33 then Inr (Continue (to_state s_req_http_I x) (tl s))
         else go_error CHPE_INVALID_CONSTANT x s)"

text \<open>A state that takes one character only.\<close>

definition at_literal :: "char \<Rightarrow> http_errno \<Rightarrow> state \<Rightarrow> 'c exec \<Rightarrow> string \<Rightarrow> 'c control res" where
  "at_literal c e new x s = (if hd s \<noteq> c then go_error e x s else Inr (Continue (to_state new x) (tl s)))"

definition at_req_http_major :: "'c exec \<Rightarrow> string \<Rightarrow> 'c control res" where
  "at_req_http_major x s =
     (if \<not> CROW_IS_NUM (hd s) then go_error CHPE_INVALID_VERSION x s
      else Inr (Continue (with_parser (\<lambda>p. p\<lparr>http_major := of_char (hd s) - 48, pstate := s_req_http_dot\<rparr>) x) (tl s)))"

definition at_req_http_minor :: "'c exec \<Rightarrow> string \<Rightarrow> 'c control res" where
  "at_req_http_minor x s =
     (if \<not> CROW_IS_NUM (hd s) then go_error CHPE_INVALID_VERSION x s
      else Inr (Continue (with_parser (\<lambda>p. p\<lparr>http_minor := of_char (hd s) - 48, pstate := s_req_http_end\<rparr>) x) (tl s)))"

definition at_req_http_end :: "'c exec \<Rightarrow> string \<Rightarrow> 'c control res" where
  "at_req_http_end x s =
     (if hd s = cr then Inr (Continue (to_state s_req_line_almost_done x) (tl s))
      else if hd s = lf then Inr (Continue (to_state s_header_field_start x) (tl s))
      else go_error CHPE_INVALID_VERSION x s)"

section \<open>Header fields\<close>

definition at_header_field_start :: "'c exec \<Rightarrow> string \<Rightarrow> 'c control res" where
  "at_header_field_start x s =
     (let ch = hd s; c = CROW_TOKEN ch
      in if ch = cr then Inr (Continue (to_state s_headers_almost_done x) (tl s))
         else if ch = lf then Inr (Reexecute (to_state s_headers_almost_done x) s)
         else if c = CHR 0x00 then go_error CHPE_INVALID_HEADER_TOKEN x s
         else Inr (Continue (with_parser (\<lambda>p. p\<lparr>index := 0, pstate := s_header_field,
                hstate := (if c = CHR ''c'' then h_C
                           else if c = CHR ''p'' then h_matching_proxy_connection
                           else if c = CHR ''t'' then h_matching_transfer_encoding
                           else if c = CHR ''u'' then h_matching_upgrade
                           else h_general)\<rparr>) (x\<lparr>header_field_mark := mark (header_field_mark x) s\<rparr>)) (tl s)))"

text \<open>Matching the rest of a literal, with the size of the literal and its NUL.\<close>

definition match_rest :: "string \<Rightarrow> header_state \<Rightarrow> char \<Rightarrow> http_parser \<Rightarrow> http_parser" where
  "match_rest literal full c p =
     (let p = bump p
      in if length literal < index p \<or> c \<noteq> c_at literal (index p) then p\<lparr>hstate := h_general\<rparr>
         else if index p = length literal - 1 then p\<lparr>hstate := full\<rparr>
         else p)"

text \<open>One character \<open>ch\<close> of a field, with its token \<open>c\<close>. In \<open>h_general\<close> the code only moves on.\<close>

definition field_char :: "char \<Rightarrow> char \<Rightarrow> http_parser \<Rightarrow> http_parser res" where
  "field_char ch c p =
     (case hstate p of
        h_general \<Rightarrow> Inr p
      | h_C \<Rightarrow> Inr ((bump p)\<lparr>hstate := (if c = CHR ''o'' then h_CO else h_general)\<rparr>)
      | h_CO \<Rightarrow> Inr ((bump p)\<lparr>hstate := (if c = CHR ''n'' then h_CON else h_general)\<rparr>)
      | h_CON \<Rightarrow> Inr ((bump p)\<lparr>hstate := (if c = CHR ''n'' then h_matching_connection
                                          else if c = CHR ''t'' then h_matching_content_length else h_general)\<rparr>)
      | h_matching_connection \<Rightarrow> Inr (match_rest ''connection'' h_connection c p)
      | h_matching_proxy_connection \<Rightarrow> Inr (match_rest ''proxy-connection'' h_connection c p)
      | h_matching_content_length \<Rightarrow> Inr (match_rest ''content-length'' h_content_length c p)
      | h_matching_transfer_encoding \<Rightarrow>
          (let p = match_rest ''transfer-encoding'' h_transfer_encoding c p
           in Inr (if hstate p = h_transfer_encoding then p\<lparr>uses_transfer_encoding := True\<rparr> else p))
      | h_matching_upgrade \<Rightarrow> Inr (match_rest ''upgrade'' h_upgrade c p)
      | h_connection \<Rightarrow> Inr (if ch \<noteq> CHR '' '' then p\<lparr>hstate := h_general\<rparr> else p)
      | h_content_length \<Rightarrow> Inr (if ch \<noteq> CHR '' '' then p\<lparr>hstate := h_general\<rparr> else p)
      | h_transfer_encoding \<Rightarrow> Inr (if ch \<noteq> CHR '' '' then p\<lparr>hstate := h_general\<rparr> else p)
      | h_upgrade \<Rightarrow> Inr (if ch \<noteq> CHR '' '' then p\<lparr>hstate := h_general\<rparr> else p)
      | _ \<Rightarrow> Inl (Undefined Assertion))"

fun field_loop :: "http_parser \<Rightarrow> string \<Rightarrow> (http_parser \<times> string) res" where
  "field_loop p [] = Inr (p, [])"
| "field_loop p (ch # s) =
     (let c = CROW_TOKEN ch
      in if c = CHR 0x00 then Inr (p, ch # s) else bind_res (field_char ch c p) (\<lambda>p. field_loop p s))"

definition at_header_field :: "'c settings \<Rightarrow> 'c exec \<Rightarrow> string \<Rightarrow> 'c control res" where
  "at_header_field st x s =
     bind_res (field_loop (ex_parser x) s) (\<lambda>(p, t). let x = x\<lparr>ex_parser := p\<rparr>
      in if t = [] then COUNT_HEADER_SIZE (length s - 1) x [last s] (\<lambda>x. Inr (Continue x []))
         else COUNT_HEADER_SIZE (length s - length t) x t (\<lambda>x.
                if hd t = CHR '':''
                then call_header_field st t (tl t) (to_state s_header_value_discard_ws x) (\<lambda>x. Inr (Continue x (tl t)))
                else go_error CHPE_INVALID_HEADER_TOKEN x t))"

section \<open>Header values\<close>

text \<open>The state after the first character. For an upgrade the next character is looked at, if it is in the buffer.\<close>

definition at_header_value_start :: "'c exec \<Rightarrow> string \<Rightarrow> 'c control res" where
  "at_header_value_start x s =
     (let ch = hd s; c = CROW_LOWER ch;
          x = with_parser (\<lambda>p. p\<lparr>pstate := s_header_value, index := 0\<rparr>) (x\<lparr>header_value_mark := mark (header_value_mark x) s\<rparr>);
          header = (\<lambda>h. Inr (Continue (with_parser (\<lambda>p. p\<lparr>hstate := h\<rparr>) x) (tl s)))
      in case hstate (ex_parser x) of
           h_upgrade \<Rightarrow>
             Inr (Continue (with_parser (\<lambda>p. p\<lparr>
               flags := (if ch \<noteq> CHR ''h'' \<or> tl s = [] \<or> hd (tl s) \<noteq> CHR ''2'' then insert F_UPGRADE (flags p) else flags p),
               hstate := h_general\<rparr>) x) (tl s))
         | h_transfer_encoding \<Rightarrow>
             header (if c = CHR ''c'' then h_matching_transfer_encoding_chunked else h_matching_transfer_encoding_token)
         | h_matching_transfer_encoding_token_start \<Rightarrow> Inr (Continue x (tl s))
         | h_content_length \<Rightarrow>
             if \<not> CROW_IS_NUM ch then go_error CHPE_INVALID_CONTENT_LENGTH x s
             else if F_CONTENTLENGTH \<in> flags (ex_parser x) then go_error CHPE_UNEXPECTED_CONTENT_LENGTH x s
             else Inr (Continue (with_parser (\<lambda>p. p\<lparr>flags := insert F_CONTENTLENGTH (flags p),
                    content_length := of_nat (of_char ch - 48), hstate := h_content_length_num\<rparr>) x) (tl s))
         | h_content_length_ws \<Rightarrow> Inr (Continue x (tl s))
         | h_connection \<Rightarrow>
             if c = CHR ''k'' then header h_matching_connection_keep_alive
             else if c = CHR ''c'' then header h_matching_connection_close
             else if c = CHR '' '' \<or> c = CHR 0x09 then Inr (Continue x (tl s))
             else header h_general
         | _ \<Rightarrow> header h_general)"

definition at_header_value_discard_ws :: "'c exec \<Rightarrow> string \<Rightarrow> 'c control res" where
  "at_header_value_discard_ws x s =
     (let ch = hd s
      in if ch = CHR '' '' \<or> ch = CHR 0x09 then Inr (Continue x (tl s))
         else if ch = cr then Inr (Continue (to_state s_header_value_discard_ws_almost_done x) (tl s))
         else if ch = lf then Inr (Continue (to_state s_header_value_discard_lws x) (tl s))
         else at_header_value_start x s)"

text \<open>One character of a value that goes on: the parser and the new header state, which the code has in a local
  variable, or an error and the header state to write back. An assertion that fails is the error \<open>None\<close>.\<close>

definition length_digit :: "char \<Rightarrow> http_parser \<Rightarrow> (http_errno option \<times> header_state) + (http_parser \<times> header_state)" where
  "length_digit ch p =
     (if ch = CHR '' '' then Inr (p, h_content_length_ws)
      else if \<not> CROW_IS_NUM ch then Inl (Some CHPE_INVALID_CONTENT_LENGTH, h_content_length_num)
      else if (CROW_ULLONG_MAX - 10) div 10 < content_length p then Inl (Some CHPE_INVALID_CONTENT_LENGTH, h_content_length_num)
      else Inr (p\<lparr>content_length := content_length p * 10 + of_nat (of_char ch - 48)\<rparr>, h_content_length_num))"

text \<open>The rest of a literal in a value; what it falls back to, and the state when it is complete.\<close>

definition match_value :: "string \<Rightarrow> header_state \<Rightarrow> header_state \<Rightarrow> char \<Rightarrow> http_parser \<Rightarrow> header_state \<Rightarrow> http_parser \<times> header_state" where
  "match_value literal other full c p h =
     (let p = bump p
      in if length literal < index p \<or> c \<noteq> c_at literal (index p) then (p, other)
         else if index p = length literal - 1 then (p, full)
         else (p, h))"

definition value_char :: "char \<Rightarrow> http_parser \<Rightarrow> header_state \<Rightarrow> (http_errno option \<times> header_state) + (http_parser \<times> header_state)" where
  "value_char ch p h =
     (let c = CROW_LOWER ch
      in case h of
           h_connection \<Rightarrow> Inl (None, h)
         | h_transfer_encoding \<Rightarrow> Inl (None, h)
         | h_content_length \<Rightarrow> if ch = CHR '' '' then Inr (p, h) else length_digit ch p
         | h_content_length_num \<Rightarrow> length_digit ch p
         | h_content_length_ws \<Rightarrow> if ch = CHR '' '' then Inr (p, h) else Inl (Some CHPE_INVALID_CONTENT_LENGTH, h)
         | h_matching_transfer_encoding_token_start \<Rightarrow>
             Inr (p, if c = CHR ''c'' then h_matching_transfer_encoding_chunked
                     else if CROW_TOKEN c \<noteq> CHR 0x00 then h_matching_transfer_encoding_token
                     else if c = CHR '' '' \<or> c = CHR 0x09 then h
                     else h_general)
         | h_matching_transfer_encoding_chunked \<Rightarrow>
             Inr (match_value ''chunked'' h_matching_transfer_encoding_token h_transfer_encoding_chunked c p h)
         | h_matching_transfer_encoding_token \<Rightarrow>
             if ch = CHR '','' then Inr (p\<lparr>index := 0\<rparr>, h_matching_transfer_encoding_token_start) else Inr (p, h)
         | h_matching_connection_keep_alive \<Rightarrow> Inr (match_value ''keep-alive'' h_general h_connection_keep_alive c p h)
         | h_matching_connection_close \<Rightarrow> Inr (match_value ''close'' h_general h_connection_close c p h)
         | h_transfer_encoding_chunked \<Rightarrow> Inr (p, if ch \<noteq> CHR '' '' then h_matching_transfer_encoding_token else h)
         | h_connection_keep_alive \<Rightarrow> Inr (p, if ch \<noteq> CHR '' '' then h_general else h)
         | h_connection_close \<Rightarrow> Inr (p, if ch \<noteq> CHR '' '' then h_general else h)
         | _ \<Rightarrow> Inr (p\<lparr>pstate := s_header_value\<rparr>, h_general))"

text \<open>The inner loop of \<open>h_general\<close>, of at most \<open>n\<close> characters: the text at which the outer loop goes on, or the one with
  a forbidden character. When \<open>n\<close> runs out before the text, the outer loop steps over a character.\<close>

fun general_loop :: "bool \<Rightarrow> 64 word \<Rightarrow> string \<Rightarrow> string + string" where
  "general_loop lenient n [] = Inr []"
| "general_loop lenient n (ch # s) =
     (if n = 0 then Inr s
      else if ch = cr \<or> ch = lf then Inr (ch # s)
      else if \<not> lenient \<and> \<not> CROW_IS_HEADER_CHAR ch then Inl (ch # s)
      else general_loop lenient (n - 1) s)"

lemma general_loop_shorter: "general_loop lenient n s = Inr t \<Longrightarrow> length t \<le> length s"
  by (induction lenient n s rule: general_loop.induct) (fastforce split: if_splits)+

text \<open>How the loop over a value ends: at the end of the text, at a line end, or with an error.\<close>

datatype value_end = Value_text | Value_line string | Value_error "http_errno option" string

function value_loop :: "http_parser \<Rightarrow> header_state \<Rightarrow> string \<Rightarrow> http_parser \<times> header_state \<times> value_end" where
  "value_loop p h [] = (p, h, Value_text)"
| "value_loop p h (ch # s) =
     (if ch = cr \<or> ch = lf then (p, h, Value_line (ch # s))
      else if \<not> lenient_http_headers p \<and> \<not> CROW_IS_HEADER_CHAR ch
      then (p, hstate p, Value_error (Some CHPE_INVALID_HEADER_TOKEN) (ch # s))
      else if h = h_general
      then (case general_loop (lenient_http_headers p) (min (of_nat (length s + 1)) (ucast max_header_size) - 1) s of
              Inl t \<Rightarrow> (p, hstate p, Value_error (Some CHPE_INVALID_HEADER_TOKEN) t)
            | Inr t \<Rightarrow> value_loop p h t)
      else (case value_char ch p h of
              Inl (e, h) \<Rightarrow> (p, h, Value_error e (ch # s))
            | Inr (p, h) \<Rightarrow> value_loop p h s))"
  by pat_completeness auto

termination
  by (relation "measure (\<lambda>(_, _, s). length s)") (auto dest: general_loop_shorter)

definition at_header_value :: "'c settings \<Rightarrow> 'c exec \<Rightarrow> string \<Rightarrow> 'c control res" where
  "at_header_value st x s =
     (let (p, h, end) = value_loop (ex_parser x) (hstate (ex_parser x)) s; x = x\<lparr>ex_parser := p\<rparr>;
          keep = with_parser (\<lambda>p. p\<lparr>hstate := h\<rparr>)
      in case end of
           Value_text \<Rightarrow> COUNT_HEADER_SIZE (length s - 1) (keep x) [last s] (\<lambda>x. Inr (Continue x []))
         | Value_line t \<Rightarrow>
             (let x = to_state s_header_almost_done x
              in if hd t = cr
                 then call_header_value st t (tl t) (keep x) (\<lambda>x.
                        COUNT_HEADER_SIZE (length s - length t) (keep x) t (\<lambda>x. Inr (Continue x (tl t))))
                 else COUNT_HEADER_SIZE (length s - length t) x t (\<lambda>x.
                        call_header_value st t t (keep x) (\<lambda>x. Inr (Reexecute x t))))
         | Value_error (Some e) t \<Rightarrow> Inr (Return (keep (CROW_SET_ERRNO e x)) t)
         | Value_error None t \<Rightarrow> Inl (Undefined Assertion))"

definition at_header_value_lws :: "'c exec \<Rightarrow> string \<Rightarrow> 'c control res" where
  "at_header_value_lws x s =
     (if hd s = CHR '' '' \<or> hd s = CHR 0x09
      then Inr (Reexecute (with_parser (\<lambda>p. p\<lparr>
             hstate := (if hstate p = h_content_length_num then h_content_length_ws else hstate p),
             pstate := s_header_value_start\<rparr>) x) s)
      else Inr (Reexecute (with_parser (\<lambda>p. p\<lparr>
             flags := (case hstate p of
                         h_connection_keep_alive \<Rightarrow> insert F_CONNECTION_KEEP_ALIVE (flags p)
                       | h_connection_close \<Rightarrow> insert F_CONNECTION_CLOSE (flags p)
                       | h_transfer_encoding_chunked \<Rightarrow> insert F_CHUNKED (flags p)
                       | _ \<Rightarrow> flags p),
             pstate := s_header_field_start\<rparr>) x) s))"

definition at_header_value_discard_lws :: "'c settings \<Rightarrow> 'c exec \<Rightarrow> string \<Rightarrow> 'c control res" where
  "at_header_value_discard_lws st x s =
     (if hd s = CHR '' '' \<or> hd s = CHR 0x09 then Inr (Continue (to_state s_header_value_discard_ws x) (tl s))
      else call_header_value st s s (to_state s_header_field_start (x\<lparr>header_value_mark := mark (header_value_mark x) s\<rparr>))
             (\<lambda>x. Inr (Reexecute x s)))"

section \<open>The end of the headers\<close>

text \<open>\<open>on_headers_complete\<close> may say that there is no body, or nothing more on this connection.\<close>

definition call_headers_complete :: "'c settings \<Rightarrow> 'c exec \<Rightarrow> string \<Rightarrow> 'c control res" where
  "call_headers_complete st x s =
     bind_res (on_headers_complete st (ex_parser x) (ex_env x)) (\<lambda>(p, c, n).
       let x = x\<lparr>ex_parser := p, ex_env := c\<rparr>;
           x = (if n = 2 then with_parser (\<lambda>p. p\<lparr>upgrade := True, flags := insert F_SKIPBODY (flags p)\<rparr>) x
                else if n = 1 then with_parser (\<lambda>p. p\<lparr>flags := insert F_SKIPBODY (flags p)\<rparr>) x
                else x);
           keep = with_parser (\<lambda>p. p\<lparr>nread := ex_nread x\<rparr>)
       in if n \<notin> {0, 1, 2} then Inr (Return (keep (CROW_SET_ERRNO CHPE_CB_headers_complete x)) s)
          else if http_errno (ex_parser x) \<noteq> CHPE_OK then Inr (Return (keep x) s)
          else Inr (Reexecute x s))"

definition at_headers_almost_done :: "'c settings \<Rightarrow> 'c exec \<Rightarrow> string \<Rightarrow> 'c control res" where
  "at_headers_almost_done st x s =
     CROW_STRICT_CHECK (hd s \<noteq> lf) x s
       (let p = ex_parser x
        in if F_TRAILING \<in> flags p
           then CROW_CALLBACK_NOTIFY (on_message_complete st) CHPE_CB_message_complete (tl s) x (\<lambda>x. Inr (Continue x (tl s)))
           else if uses_transfer_encoding p \<and> F_CONTENTLENGTH \<in> flags p
                   \<and> (if F_CHUNKED \<in> flags p then \<not> allow_chunked_length p else \<not> lenient_http_headers p)
           then go_error CHPE_UNEXPECTED_CONTENT_LENGTH x s
           else call_headers_complete st (with_parser (\<lambda>p. p\<lparr>pstate := s_headers_done,
                  upgrade := (F_UPGRADE \<in> flags p \<or> rmethod p = 5)\<rparr>) x) s)"

definition at_headers_done :: "'c settings \<Rightarrow> 'c exec \<Rightarrow> string \<Rightarrow> 'c control res" where
  "at_headers_done st x s =
     CROW_STRICT_CHECK (hd s \<noteq> lf) x s
       (let x = with_parser (\<lambda>p. p\<lparr>nread := 0\<rparr>) (x\<lparr>ex_nread := 0\<rparr>); p = ex_parser x;
            complete = CROW_CALLBACK_NOTIFY (on_message_complete st) CHPE_CB_message_complete (tl s) x
        in if upgrade p then complete (\<lambda>x. Inr (Return (with_parser (\<lambda>p. p\<lparr>nread := ex_nread x\<rparr>) x) (tl s)))
           else if F_SKIPBODY \<in> flags p then complete (\<lambda>x. Inr (Continue x (tl s)))
           else if F_CHUNKED \<in> flags p then Inr (Continue (to_state s_chunk_size_start x) (tl s))
           else if uses_transfer_encoding p
           then (if \<not> lenient_http_headers p then Inr (Return (CROW_SET_ERRNO CHPE_INVALID_TRANSFER_ENCODING x) s)
                 else Inr (Continue (to_state s_body_identity_eof x) (tl s)))
           else if content_length p = 0 then complete (\<lambda>x. Inr (Continue x (tl s)))
           else if content_length p \<noteq> CROW_ULLONG_MAX then Inr (Continue (to_state s_body_identity x) (tl s))
           else complete (\<lambda>x. Inr (Continue x (tl s))))"

section \<open>Bodies\<close>

text \<open>How many bytes of the body the buffer has.\<close>

definition to_read :: "http_parser \<Rightarrow> string \<Rightarrow> nat" where
  "to_read p s = (if content_length p < of_nat (length s) then unat (content_length p) else length s)"

text \<open>The last byte of the body is looked at again.\<close>

definition at_body_identity :: "'c settings \<Rightarrow> 'c exec \<Rightarrow> string \<Rightarrow> 'c control res" where
  "at_body_identity st x s =
     (let p = ex_parser x; n = to_read p s
      in CROW_ASSERT (content_length p \<noteq> 0 \<and> content_length p \<noteq> CROW_ULLONG_MAX)
        (let x = with_parser (\<lambda>p. p\<lparr>content_length := content_length p - of_nat n\<rparr>) (x\<lparr>body_mark := mark (body_mark x) s\<rparr>);
             t = drop (n - 1) s
         in if content_length (ex_parser x) = 0
            then call_body st (tl t) t (to_state s_message_done x) (\<lambda>x. Inr (Reexecute x t))
            else Inr (Continue x (tl t))))"

definition at_body_identity_eof :: "'c exec \<Rightarrow> string \<Rightarrow> 'c control res" where
  "at_body_identity_eof x s = Inr (Continue (x\<lparr>body_mark := mark (body_mark x) s\<rparr>) [])"

definition at_message_done :: "'c settings \<Rightarrow> 'c exec \<Rightarrow> string \<Rightarrow> 'c control res" where
  "at_message_done st x s =
     CROW_CALLBACK_NOTIFY (on_message_complete st) CHPE_CB_message_complete (tl s) x (\<lambda>x. Inr (Continue x (tl s)))"

definition at_chunk_size_start :: "'c exec \<Rightarrow> string \<Rightarrow> 'c control res" where
  "at_chunk_size_start x s =
     CROW_ASSERT (ex_nread x = 1 \<and> F_CHUNKED \<in> flags (ex_parser x))
       (case unhex (hd s) of
          None \<Rightarrow> go_error CHPE_INVALID_CHUNK_SIZE x s
        | Some n \<Rightarrow> Inr (Continue (with_parser (\<lambda>p. p\<lparr>content_length := of_nat n, pstate := s_chunk_size\<rparr>) x) (tl s)))"

definition at_chunk_size :: "'c exec \<Rightarrow> string \<Rightarrow> 'c control res" where
  "at_chunk_size x s =
     CROW_ASSERT (F_CHUNKED \<in> flags (ex_parser x))
       (let ch = hd s
        in if ch = cr then Inr (Continue (to_state s_chunk_size_almost_done x) (tl s))
           else case unhex ch of
             None \<Rightarrow> if ch = CHR '';'' \<or> ch = CHR '' '' then Inr (Continue (to_state s_chunk_parameters x) (tl s))
                     else go_error CHPE_INVALID_CHUNK_SIZE x s
           | Some n \<Rightarrow>
               if (CROW_ULLONG_MAX - 16) div 16 < content_length (ex_parser x) then go_error CHPE_INVALID_CONTENT_LENGTH x s
               else Inr (Continue (with_parser (\<lambda>p. p\<lparr>content_length := content_length p * 16 + of_nat n\<rparr>) x) (tl s)))"

definition at_chunk_parameters :: "'c exec \<Rightarrow> string \<Rightarrow> 'c control res" where
  "at_chunk_parameters x s =
     CROW_ASSERT (F_CHUNKED \<in> flags (ex_parser x))
       (Inr (Continue (if hd s = cr then to_state s_chunk_size_almost_done x else x) (tl s)))"

definition at_chunk_size_almost_done :: "'c exec \<Rightarrow> string \<Rightarrow> 'c control res" where
  "at_chunk_size_almost_done x s =
     CROW_ASSERT (F_CHUNKED \<in> flags (ex_parser x)) (CROW_STRICT_CHECK (hd s \<noteq> lf) x s
       (let x = with_parser (\<lambda>p. p\<lparr>nread := 0\<rparr>) (x\<lparr>ex_nread := 0\<rparr>)
        in Inr (Continue (if content_length (ex_parser x) = 0
                          then with_parser (\<lambda>p. p\<lparr>flags := insert F_TRAILING (flags p), pstate := s_header_field_start\<rparr>) x
                          else to_state s_chunk_data x) (tl s))))"

definition at_chunk_data :: "'c exec \<Rightarrow> string \<Rightarrow> 'c control res" where
  "at_chunk_data x s =
     (let p = ex_parser x; n = to_read p s
      in CROW_ASSERT (F_CHUNKED \<in> flags p \<and> content_length p \<noteq> 0 \<and> content_length p \<noteq> CROW_ULLONG_MAX)
        (let x = with_parser (\<lambda>p. p\<lparr>content_length := content_length p - of_nat n\<rparr>) (x\<lparr>body_mark := mark (body_mark x) s\<rparr>)
         in Inr (Continue (if content_length (ex_parser x) = 0 then to_state s_chunk_data_almost_done x else x) (drop n s))))"

definition at_chunk_data_almost_done :: "'c settings \<Rightarrow> 'c exec \<Rightarrow> string \<Rightarrow> 'c control res" where
  "at_chunk_data_almost_done st x s =
     CROW_ASSERT (F_CHUNKED \<in> flags (ex_parser x) \<and> content_length (ex_parser x) = 0) (CROW_STRICT_CHECK (hd s \<noteq> cr) x s
       (call_body st s (tl s) (to_state s_chunk_data_done x) (\<lambda>x. Inr (Continue x (tl s)))))"

definition at_chunk_data_done :: "'c exec \<Rightarrow> string \<Rightarrow> 'c control res" where
  "at_chunk_data_done x s =
     CROW_ASSERT (F_CHUNKED \<in> flags (ex_parser x)) (CROW_STRICT_CHECK (hd s \<noteq> lf) x s
       (Inr (Continue (with_parser (\<lambda>p. p\<lparr>nread := 0, pstate := s_chunk_size_start\<rparr>) (x\<lparr>ex_nread := 0\<rparr>)) (tl s))))"

section \<open>One call\<close>

definition at_dead :: "'c exec \<Rightarrow> string \<Rightarrow> 'c control res" where
  "at_dead x s = (if hd s = cr \<or> hd s = lf then Inr (Continue x (tl s)) else go_error CHPE_CLOSED_CONNECTION x s)"

definition switch :: "'c settings \<Rightarrow> 'c exec \<Rightarrow> string \<Rightarrow> 'c control res" where
  "switch st x s =
     (case pstate (ex_parser x) of
        s_dead \<Rightarrow> at_dead x s
      | s_start_req \<Rightarrow> at_start_req st x s
      | s_req_method \<Rightarrow> at_req_method st x s
      | s_req_spaces_before_url \<Rightarrow> at_req_spaces_before_url x s
      | s_req_schema \<Rightarrow> at_req_schema x s
      | s_req_schema_slash \<Rightarrow> at_req_schema x s
      | s_req_schema_slash_slash \<Rightarrow> at_req_schema x s
      | s_req_server_start \<Rightarrow> at_req_schema x s
      | s_req_server \<Rightarrow> at_req_path st x s
      | s_req_server_with_at \<Rightarrow> at_req_path st x s
      | s_req_path \<Rightarrow> at_req_path st x s
      | s_req_query_string_start \<Rightarrow> at_req_path st x s
      | s_req_query_string \<Rightarrow> at_req_path st x s
      | s_req_http_start \<Rightarrow> at_req_http_start x s
      | s_req_http_H \<Rightarrow> at_literal (CHR ''T'') CHPE_STRICT s_req_http_HT x s
      | s_req_http_HT \<Rightarrow> at_literal (CHR ''T'') CHPE_STRICT s_req_http_HTT x s
      | s_req_http_HTT \<Rightarrow> at_literal (CHR ''P'') CHPE_STRICT s_req_http_HTTP x s
      | s_req_http_I \<Rightarrow> at_literal (CHR ''C'') CHPE_STRICT s_req_http_IC x s
      | s_req_http_IC \<Rightarrow> at_literal (CHR ''E'') CHPE_STRICT s_req_http_HTTP x s
      | s_req_http_HTTP \<Rightarrow> at_literal (CHR ''/'') CHPE_STRICT s_req_http_major x s
      | s_req_http_major \<Rightarrow> at_req_http_major x s
      | s_req_http_dot \<Rightarrow> at_literal (CHR ''.'') CHPE_INVALID_VERSION s_req_http_minor x s
      | s_req_http_minor \<Rightarrow> at_req_http_minor x s
      | s_req_http_end \<Rightarrow> at_req_http_end x s
      | s_req_line_almost_done \<Rightarrow> at_literal lf CHPE_LF_EXPECTED s_header_field_start x s
      | s_header_field_start \<Rightarrow> at_header_field_start x s
      | s_header_field \<Rightarrow> at_header_field st x s
      | s_header_value_discard_ws \<Rightarrow> at_header_value_discard_ws x s
      | s_header_value_start \<Rightarrow> at_header_value_start x s
      | s_header_value \<Rightarrow> at_header_value st x s
      | s_header_almost_done \<Rightarrow> at_literal lf CHPE_LF_EXPECTED s_header_value_lws x s
      | s_header_value_lws \<Rightarrow> at_header_value_lws x s
      | s_header_value_discard_ws_almost_done \<Rightarrow> at_literal lf CHPE_STRICT s_header_value_discard_lws x s
      | s_header_value_discard_lws \<Rightarrow> at_header_value_discard_lws st x s
      | s_headers_almost_done \<Rightarrow> at_headers_almost_done st x s
      | s_headers_done \<Rightarrow> at_headers_done st x s
      | s_body_identity \<Rightarrow> at_body_identity st x s
      | s_body_identity_eof \<Rightarrow> at_body_identity_eof x s
      | s_message_done \<Rightarrow> at_message_done st x s
      | s_chunk_size_start \<Rightarrow> at_chunk_size_start x s
      | s_chunk_size \<Rightarrow> at_chunk_size x s
      | s_chunk_parameters \<Rightarrow> at_chunk_parameters x s
      | s_chunk_size_almost_done \<Rightarrow> at_chunk_size_almost_done x s
      | s_chunk_data \<Rightarrow> at_chunk_data x s
      | s_chunk_data_almost_done \<Rightarrow> at_chunk_data_almost_done st x s
      | s_chunk_data_done \<Rightarrow> at_chunk_data_done x s)"

lemma switch_at:
  "pstate (ex_parser x) = s_dead \<Longrightarrow> switch st x s = at_dead x s"
  "pstate (ex_parser x) = s_start_req \<Longrightarrow> switch st x s = at_start_req st x s"
  "pstate (ex_parser x) = s_req_method \<Longrightarrow> switch st x s = at_req_method st x s"
  "pstate (ex_parser x) = s_req_spaces_before_url \<Longrightarrow> switch st x s = at_req_spaces_before_url x s"
  "pstate (ex_parser x) = s_req_schema \<Longrightarrow> switch st x s = at_req_schema x s"
  "pstate (ex_parser x) = s_req_schema_slash \<Longrightarrow> switch st x s = at_req_schema x s"
  "pstate (ex_parser x) = s_req_schema_slash_slash \<Longrightarrow> switch st x s = at_req_schema x s"
  "pstate (ex_parser x) = s_req_server_start \<Longrightarrow> switch st x s = at_req_schema x s"
  "pstate (ex_parser x) = s_req_server \<Longrightarrow> switch st x s = at_req_path st x s"
  "pstate (ex_parser x) = s_req_server_with_at \<Longrightarrow> switch st x s = at_req_path st x s"
  "pstate (ex_parser x) = s_req_path \<Longrightarrow> switch st x s = at_req_path st x s"
  "pstate (ex_parser x) = s_req_query_string_start \<Longrightarrow> switch st x s = at_req_path st x s"
  "pstate (ex_parser x) = s_req_query_string \<Longrightarrow> switch st x s = at_req_path st x s"
  "pstate (ex_parser x) = s_req_http_start \<Longrightarrow> switch st x s = at_req_http_start x s"
  "pstate (ex_parser x) = s_req_http_H \<Longrightarrow> switch st x s = at_literal (CHR ''T'') CHPE_STRICT s_req_http_HT x s"
  "pstate (ex_parser x) = s_req_http_HT \<Longrightarrow> switch st x s = at_literal (CHR ''T'') CHPE_STRICT s_req_http_HTT x s"
  "pstate (ex_parser x) = s_req_http_HTT \<Longrightarrow> switch st x s = at_literal (CHR ''P'') CHPE_STRICT s_req_http_HTTP x s"
  "pstate (ex_parser x) = s_req_http_I \<Longrightarrow> switch st x s = at_literal (CHR ''C'') CHPE_STRICT s_req_http_IC x s"
  "pstate (ex_parser x) = s_req_http_IC \<Longrightarrow> switch st x s = at_literal (CHR ''E'') CHPE_STRICT s_req_http_HTTP x s"
  "pstate (ex_parser x) = s_req_http_HTTP \<Longrightarrow> switch st x s = at_literal (CHR ''/'') CHPE_STRICT s_req_http_major x s"
  "pstate (ex_parser x) = s_req_http_major \<Longrightarrow> switch st x s = at_req_http_major x s"
  "pstate (ex_parser x) = s_req_http_dot \<Longrightarrow> switch st x s = at_literal (CHR ''.'') CHPE_INVALID_VERSION s_req_http_minor x s"
  "pstate (ex_parser x) = s_req_http_minor \<Longrightarrow> switch st x s = at_req_http_minor x s"
  "pstate (ex_parser x) = s_req_http_end \<Longrightarrow> switch st x s = at_req_http_end x s"
  "pstate (ex_parser x) = s_req_line_almost_done \<Longrightarrow> switch st x s = at_literal lf CHPE_LF_EXPECTED s_header_field_start x s"
  "pstate (ex_parser x) = s_header_field_start \<Longrightarrow> switch st x s = at_header_field_start x s"
  "pstate (ex_parser x) = s_header_field \<Longrightarrow> switch st x s = at_header_field st x s"
  "pstate (ex_parser x) = s_header_value_discard_ws \<Longrightarrow> switch st x s = at_header_value_discard_ws x s"
  "pstate (ex_parser x) = s_header_value_start \<Longrightarrow> switch st x s = at_header_value_start x s"
  "pstate (ex_parser x) = s_header_value \<Longrightarrow> switch st x s = at_header_value st x s"
  "pstate (ex_parser x) = s_header_almost_done \<Longrightarrow> switch st x s = at_literal lf CHPE_LF_EXPECTED s_header_value_lws x s"
  "pstate (ex_parser x) = s_header_value_lws \<Longrightarrow> switch st x s = at_header_value_lws x s"
  "pstate (ex_parser x) = s_header_value_discard_ws_almost_done \<Longrightarrow> switch st x s = at_literal lf CHPE_STRICT s_header_value_discard_lws x s"
  "pstate (ex_parser x) = s_header_value_discard_lws \<Longrightarrow> switch st x s = at_header_value_discard_lws st x s"
  "pstate (ex_parser x) = s_headers_almost_done \<Longrightarrow> switch st x s = at_headers_almost_done st x s"
  "pstate (ex_parser x) = s_headers_done \<Longrightarrow> switch st x s = at_headers_done st x s"
  "pstate (ex_parser x) = s_body_identity \<Longrightarrow> switch st x s = at_body_identity st x s"
  "pstate (ex_parser x) = s_body_identity_eof \<Longrightarrow> switch st x s = at_body_identity_eof x s"
  "pstate (ex_parser x) = s_message_done \<Longrightarrow> switch st x s = at_message_done st x s"
  "pstate (ex_parser x) = s_chunk_size_start \<Longrightarrow> switch st x s = at_chunk_size_start x s"
  "pstate (ex_parser x) = s_chunk_size \<Longrightarrow> switch st x s = at_chunk_size x s"
  "pstate (ex_parser x) = s_chunk_parameters \<Longrightarrow> switch st x s = at_chunk_parameters x s"
  "pstate (ex_parser x) = s_chunk_size_almost_done \<Longrightarrow> switch st x s = at_chunk_size_almost_done x s"
  "pstate (ex_parser x) = s_chunk_data \<Longrightarrow> switch st x s = at_chunk_data x s"
  "pstate (ex_parser x) = s_chunk_data_almost_done \<Longrightarrow> switch st x s = at_chunk_data_almost_done st x s"
  "pstate (ex_parser x) = s_chunk_data_done \<Longrightarrow> switch st x s = at_chunk_data_done x s"
  by (simp_all add: switch_def)

text \<open>The switch may be entered again for the same character. \<open>None\<close>: \<open>n\<close> times were not enough.\<close>

fun reexecute :: "nat \<Rightarrow> 'c settings \<Rightarrow> 'c exec \<Rightarrow> string \<Rightarrow> 'c control res option" where
  "reexecute 0 st x s = None"
| "reexecute (Suc n) st x s =
     (case switch st x s of
        Inr (Reexecute x s) \<Rightarrow> reexecute n st x s
      | r \<Rightarrow> Some r)"

text \<open>The loop over the text, at most \<open>n\<close> characters.\<close>

fun execute_loop :: "nat \<Rightarrow> 'c settings \<Rightarrow> 'c exec \<Rightarrow> string \<Rightarrow> ('c exec \<times> string option) res option" where
  "execute_loop n st x [] = Some (Inr (x, None))"
| "execute_loop 0 st x s = None"
| "execute_loop (Suc n) st x s =
     (let go = (\<lambda>x. case reexecute 6 st x s of
                  None \<Rightarrow> None
                | Some (Inl e) \<Rightarrow> Some (Inl e)
                | Some (Inr (Continue x t)) \<Rightarrow> execute_loop n st x t
                | Some (Inr (Reexecute x t)) \<Rightarrow> None
                | Some (Inr (Return x t)) \<Rightarrow> Some (Inr (x, Some t)))
      in if CROW_PARSING_HEADER (pstate (ex_parser x))
         then (let x = x\<lparr>ex_nread := ex_nread x + 1\<rparr>
               in if max_header_size < ex_nread x then Some (Inr (CROW_SET_ERRNO CHPE_HEADER_OVERFLOW x, Some s)) else go x)
         else go x)"

definition start_exec :: "http_parser \<Rightarrow> 'c \<Rightarrow> string \<Rightarrow> 'c exec" where
  "start_exec p c s = \<lparr> ex_parser = p, ex_env = c, ex_nread = nread p,
     header_field_mark = (if pstate p = s_header_field then Some s else None),
     header_value_mark = (if pstate p = s_header_value then Some s else None),
     url_mark = (if pstate p \<in> {s_req_path, s_req_schema, s_req_schema_slash, s_req_schema_slash_slash, s_req_server_start,
                   s_req_server, s_req_server_with_at, s_req_query_string_start, s_req_query_string}
                 then Some s else None),
     url_start_mark = None, body_mark = None \<rparr>"

text \<open>The callbacks for the marks that are left at the end of the text.\<close>

definition left_over :: "'c settings \<Rightarrow> 'c exec \<Rightarrow> 'c control res" where
  "left_over st x =
     CROW_ASSERT (length (filter (\<lambda>m. m \<noteq> None) [header_field_mark x, header_value_mark x, url_mark x, body_mark x]) \<le> 1)
       (call_header_field st [] [] x (\<lambda>x. call_header_value st [] [] x (\<lambda>x. call_url st [] [] x (\<lambda>x.
     call_body st [] [] x (\<lambda>x. Inr (Continue (with_parser (\<lambda>p. p\<lparr>nread := ex_nread x\<rparr>) x) []))))))"

definition result :: "string \<Rightarrow> 'c exec \<Rightarrow> string \<Rightarrow> http_parser \<times> 'c \<times> nat" where
  "result s x t = (ex_parser x, ex_env x, length s - length t)"

text \<open>At the end of the input, which is a call with no bytes.\<close>

definition execute_end :: "'c settings \<Rightarrow> http_parser \<Rightarrow> 'c \<Rightarrow> (http_parser \<times> 'c \<times> nat) res" where
  "execute_end st p c =
     (if pstate p = s_body_identity_eof
      then bind_res (CROW_CALLBACK_NOTIFY (on_message_complete st) CHPE_CB_message_complete [] (start_exec p c [])
             (\<lambda>x. Inr (Return x []))) (\<lambda>r. case r of Return x t \<Rightarrow> Inr (result [] x t) | Continue x t \<Rightarrow> Inr (result [] x t)
                                            | Reexecute x t \<Rightarrow> Inr (result [] x t))
      else if pstate p = s_dead \<or> pstate p = s_start_req then Inr (p, c, 0)
      else Inr (p\<lparr>http_errno := CHPE_INVALID_EOF_STATE\<rparr>, c, 1))"

definition http_parser_execute :: "'c settings \<Rightarrow> http_parser \<Rightarrow> 'c \<Rightarrow> string \<Rightarrow> (http_parser \<times> 'c \<times> nat) res option" where
  "http_parser_execute st p c s =
     (if http_errno p \<noteq> CHPE_OK then Some (Inr (p, c, 0))
      else if s = [] then Some (execute_end st p c)
      else case execute_loop (length s) st (start_exec p c s) s of
             None \<Rightarrow> None
           | Some (Inl e) \<Rightarrow> Some (Inl e)
           | Some (Inr (x, Some t)) \<Rightarrow> Some (Inr (result s x t))
           | Some (Inr (x, None)) \<Rightarrow>
               Some (bind_res (left_over st x) (\<lambda>r. case r of Continue x t \<Rightarrow> Inr (result s x t)
                       | Return x t \<Rightarrow> Inr (result s x t) | Reexecute x t \<Rightarrow> Inr (result s x t))))"

end
