(* ===== verification/HttpMethods.thy ===== *)
theory HttpMethods
  imports HttpParser
begin

text \<open>The methods of the HTTP parser: the automaton that changes its guess accepts exactly the names of the methods.\<close>

text \<open>Callbacks that do nothing.\<close>

definition quiet :: "unit settings" where
  "quiet = (let f = (\<lambda>p c. Inr (p, c, 0))
     in \<lparr> on_message_begin = f, on_method = f, on_url = (\<lambda>_. f), on_header_field = (\<lambda>_. f), on_header_value = (\<lambda>_. f),
          on_headers_complete = f, on_body = (\<lambda>_. f), on_message_complete = f \<rparr>)"

lemma notify_done:
  assumes "f (ex_parser x) (ex_env x) = Inr (ex_parser x, c, 0)" "http_errno (ex_parser x) = CHPE_OK"
  shows "CROW_CALLBACK_NOTIFY f e er x k = k (x\<lparr>ex_env := c\<rparr>)"
  using assms by (simp add: CROW_CALLBACK_NOTIFY_def CROW_ASSERT_def)

lemma quiet_method: "http_errno (ex_parser x) = CHPE_OK \<Longrightarrow> CROW_CALLBACK_NOTIFY (on_method quiet) e er x k = k x"
  by (cases x, subst notify_done [where c = "()"]) (simp_all add: quiet_def Let_def)

lemma quiet_begin: "http_errno (ex_parser x) = CHPE_OK \<Longrightarrow> CROW_CALLBACK_NOTIFY (on_message_begin quiet) e er x k = k x"
  by (cases x, subst notify_done [where c = "()"]) (simp_all add: quiet_def Let_def)

text \<open>The guess is right so far.\<close>

definition guessed :: "string \<Rightarrow> http_parser \<Rightarrow> bool" where
  "guessed t p \<longleftrightarrow> rmethod p < InternalMethodCount \<and> index p = length t \<and> length t \<le> length (method_strings ! rmethod p)
     \<and> take (length t) (method_strings ! rmethod p) = t"

text \<open>The rows of the tables agree with the names.\<close>

lemma method_tables:
  "list_all (\<lambda>((m, i, c), n). m < 34 \<and> n < 34 \<and> i < length (method_strings ! n) \<and> i < length (method_strings ! m)
      \<and> take (i + 1) (method_strings ! n) = take i (method_strings ! m) @ [c]) method_changes"
  "list_all (\<lambda>n. CHR 0x00 \<notin> set n \<and> CHR '' '' \<notin> set n \<and> length n < 31) method_strings"
  "length method_strings = 34"
  by code_simp+

definition guess :: "char \<times> nat \<Rightarrow> bool" where
  "guess cm \<longleftrightarrow> snd cm < 34 \<and> take 1 (method_strings ! snd cm) = [fst cm] \<and> 1 \<le> length (method_strings ! snd cm)"

lemma first_methods: "first_method c = Some m \<Longrightarrow> guess (c, m)"
proof -
  have *: "(if c = a then Some n else r) = Some m \<Longrightarrow> guess (a, n) \<Longrightarrow> (r = Some m \<Longrightarrow> guess (c, m)) \<Longrightarrow> guess (c, m)"
    for a n r by (auto split: if_splits)
  have g: "guess (CHR ''A'', 21)" "guess (CHR ''B'', 18)" "guess (CHR ''C'', 5)" "guess (CHR ''D'', 0)" "guess (CHR ''G'', 1)"
    "guess (CHR ''H'', 2)" "guess (CHR ''L'', 11)" "guess (CHR ''M'', 12)" "guess (CHR ''N'', 27)" "guess (CHR ''O'', 6)"
    "guess (CHR ''P'', 3)" "guess (CHR ''R'', 22)" "guess (CHR ''S'', 28)" "guess (CHR ''T'', 7)" "guess (CHR ''U'', 17)"
    by code_simp+
  show "first_method c = Some m \<Longrightarrow> guess (c, m)"
    unfolding first_method_def map_of.simps fun_upd_apply fst_conv snd_conv
    by (elim *) (use g in simp_all)
qed

lemma method_name_ok: "m < 34 \<Longrightarrow> CHR 0x00 \<notin> set (method_strings ! m) \<and> CHR '' '' \<notin> set (method_strings ! m) \<and> length (method_strings ! m) < 31"
  using method_tables(2,3) by (auto simp: list_all_length)

text \<open>One character of the method.\<close>

lemma guessed_step:
  assumes "guessed t p" "ch \<noteq> CHR '' ''" "pstate p = s_req_method"
    and "ex_parser x = p" "http_errno p = CHPE_OK"
  shows "(\<exists>q. at_req_method quiet x (ch # s) = Inr (Continue (x\<lparr>ex_parser := q\<rparr>) s)
      \<and> guessed (t @ [ch]) q \<and> pstate q = s_req_method \<and> http_errno q = CHPE_OK)
    \<or> (\<exists>y u. at_req_method quiet x (ch # s) = Inr (Return y u) \<and> http_errno (ex_parser y) \<noteq> CHPE_OK)"
proof (cases "ch \<noteq> CHR 0x00 \<and> ch = c_at (method_strings ! rmethod p) (length t)")
  case True
  then have "length t < length (method_strings ! rmethod p)" "method_strings ! rmethod p ! length t = ch"
    by (auto simp: c_at_def split: if_splits)
  then show ?thesis
    using assms True method_name_ok [of "rmethod p"]
    by (auto simp: at_req_method_def Let_def guessed_def quiet_method with_parser_def bump_def
        take_Suc_conv_app_nth InternalMethodCount_def go_error_def CROW_SET_ERRNO_def)
next
  case False
  show ?thesis
  proof (cases "(char_in 65 90 ch \<or> ch = CHR ''-'') \<and> map_of method_changes (rmethod p, length t, ch) \<noteq> None")
    case True
    then obtain m where m: "map_of method_changes (rmethod p, length t, ch) = Some m" by blast
    then have t: "m < 34" "length t < length (method_strings ! m)"
      "take (length t + 1) (method_strings ! m) = take (length t) (method_strings ! rmethod p) @ [ch]"
      using method_tables(1) map_of_SomeD [OF m] by (auto simp: list_all_iff)
    then show ?thesis
      using assms True False m method_name_ok [OF t(1)]
      by (auto simp: at_req_method_def Let_def guessed_def quiet_method with_parser_def bump_def
          InternalMethodCount_def go_error_def CROW_SET_ERRNO_def)
  next
    case no: False
    with assms False show ?thesis
      by (auto simp: at_req_method_def Let_def guessed_def go_error_def CROW_SET_ERRNO_def with_parser_def)
  qed
qed

lemma reexecute_step:
  "switch st x s = Inr (Continue y t) \<Longrightarrow> reexecute 6 st x s = Some (Inr (Continue y t))"
  "switch st x s = Inr (Return y t) \<Longrightarrow> reexecute 6 st x s = Some (Inr (Return y t))"
  "switch st x s = Inl e \<Longrightarrow> reexecute 6 st x s = Some (Inl e)"
  by (simp_all add: eval_nat_numeral)

text \<open>The rest of the method, up to a space.\<close>

lemma method_run:
  assumes "execute_loop n quiet x (t @ '' '') = Some (Inr (y, r))" "http_errno (ex_parser y) = CHPE_OK" "CHR '' '' \<notin> set t"
    and "pstate (ex_parser x) = s_req_method" "guessed u (ex_parser x)" "http_errno (ex_parser x) = CHPE_OK"
  shows "rmethod (ex_parser y) < 34 \<and> method_strings ! rmethod (ex_parser y) = u @ t"
  using assms
proof (induction t arbitrary: n x u)
  case Nil
  then obtain m where n: "n = Suc m" by (cases n) auto
  let ?x = "x\<lparr>ex_nread := ex_nread x + 1\<rparr>" and ?p = "ex_parser x"
  have small: "\<not> max_header_size < ex_nread x + 1"
    using Nil.prems(1,2,4) by (auto simp: n Let_def CROW_PARSING_HEADER_def CROW_SET_ERRNO_def with_parser_def)
  show ?case
  proof (cases "c_at (method_strings ! rmethod ?p) (index ?p) = CHR 0x00")
    case True
    have "\<not> length u < length (method_strings ! rmethod ?p)"
    proof
      assume u: "length u < length (method_strings ! rmethod ?p)"
      then have "method_strings ! rmethod ?p ! length u = CHR 0x00" using True Nil.prems(5) by (simp add: c_at_def guessed_def)
      with u nth_mem [OF u] Nil.prems(5) method_name_ok [of "rmethod ?p"] show False
        by (simp add: guessed_def InternalMethodCount_def)
    qed
    then have l: "length u = length (method_strings ! rmethod ?p)" using Nil.prems(5) unfolding guessed_def by linarith
    have "switch quiet ?x '' '' = Inr (Continue (with_parser bump (to_state s_req_spaces_before_url ?x)) [])"
      using Nil.prems(4,6) True
      by (simp add: switch_at at_req_method_def Let_def quiet_method to_state_def with_parser_def)
    then have "y = with_parser bump (to_state s_req_spaces_before_url ?x)"
      using Nil.prems(1,4) small by (simp add: n Let_def CROW_PARSING_HEADER_def reexecute_step)
    then show ?thesis using Nil.prems(5) l by (simp add: with_parser_def to_state_def bump_def guessed_def InternalMethodCount_def)
  next
    case False
    have "c_at (method_strings ! rmethod ?p) (index ?p) \<noteq> CHR '' ''"
      using False Nil.prems(5) method_name_ok [of "rmethod ?p"]
      by (auto simp: guessed_def c_at_def InternalMethodCount_def in_set_conv_nth split: if_splits)
    moreover have "\<not> char_in 65 90 (CHR '' '')" by code_simp
    ultimately have "switch quiet ?x '' '' = go_error CHPE_INVALID_METHOD ?x '' ''"
      using False Nil.prems(4) by (simp add: switch_at at_req_method_def Let_def)
    then show ?thesis
      using Nil.prems(1,2,4) small
      by (auto simp: n Let_def CROW_PARSING_HEADER_def reexecute_step go_error_def CROW_SET_ERRNO_def with_parser_def)
  qed
next
  case (Cons c t)
  then obtain m where n: "n = Suc m" by (cases n) auto
  let ?x = "x\<lparr>ex_nread := ex_nread x + 1\<rparr>"
  have small: "\<not> max_header_size < ex_nread x + 1"
    using Cons.prems(1,2,4) by (auto simp: n Let_def CROW_PARSING_HEADER_def CROW_SET_ERRNO_def with_parser_def)
  have sw: "switch quiet ?x (c # t @ '' '') = at_req_method quiet ?x (c # t @ '' '')"
    using Cons.prems(4) by (simp add: switch_at)
  from guessed_step [of u "ex_parser x" c ?x "t @ '' ''"] Cons.prems(3-6)
  consider q where "at_req_method quiet ?x (c # t @ '' '') = Inr (Continue (?x\<lparr>ex_parser := q\<rparr>) (t @ '' ''))"
      "guessed (u @ [c]) q" "pstate q = s_req_method" "http_errno q = CHPE_OK"
    | z v where "at_req_method quiet ?x (c # t @ '' '') = Inr (Return z v)" "http_errno (ex_parser z) \<noteq> CHPE_OK" by auto
  then show ?case
  proof cases
    case 1
    have "execute_loop m quiet (?x\<lparr>ex_parser := q\<rparr>) (t @ '' '') = Some (Inr (y, r))"
      using Cons.prems(1,4) small 1(1) by (simp add: n Let_def CROW_PARSING_HEADER_def reexecute_step sw)
    from Cons.IH [OF this Cons.prems(2)] Cons.prems(3) 1(2-4) show ?thesis by simp
  next
    case 2
    then show ?thesis using Cons.prems(1,2,4) small by (auto simp: n Let_def CROW_PARSING_HEADER_def reexecute_step sw)
  qed
qed

definition reads_method :: "string \<Rightarrow> nat \<Rightarrow> bool" where
  "reads_method m k \<longleftrightarrow>
     (case http_parser_execute quiet http_parser_init () (m @ '' '') of
        Some (Inr (p, _, n)) \<Rightarrow> http_errno p = CHPE_OK \<and> n = length m + 1 \<and> pstate p = s_req_spaces_before_url \<and> rmethod p = k
      | _ \<Rightarrow> False)"

lemma reads_all_methods: "list_all (\<lambda>k. reads_method (method_strings ! k) k) [0..<34]"
  by code_simp

text \<open>The first character.\<close>

lemma first_run:
  assumes "execute_loop n quiet (start_exec http_parser_init () s) (c # t @ '' '') = Some (Inr (y, r))" "http_errno (ex_parser y) = CHPE_OK"
    and "CHR '' '' \<notin> set t" "c \<noteq> cr" "c \<noteq> lf" "CHR '' '' \<noteq> c"
  shows "rmethod (ex_parser y) < 34 \<and> method_strings ! rmethod (ex_parser y) = c # t"
proof -
  obtain m where n: "n = Suc m" using assms(1) by (cases n) auto
  define x where "x = (start_exec http_parser_init () s)\<lparr>ex_nread := 1\<rparr>"
  have x: "pstate (ex_parser x) = s_start_req" "http_errno (ex_parser x) = CHPE_OK"
    by (simp_all add: x_def start_exec_def http_parser_init_def)
  have "\<not> max_header_size < (1 :: 32 word)" by (simp add: max_header_size_def)
  then have loop: "(case reexecute 6 quiet x (c # t @ '' '') of
        Some (Inr (Continue x t)) \<Rightarrow> execute_loop m quiet x t
      | Some (Inr (Return x t)) \<Rightarrow> Some (Inr (x, Some t)) | Some (Inl e) \<Rightarrow> Some (Inl e) | _ \<Rightarrow> None) = Some (Inr (y, r))"
    using assms(1) by (simp add: n x_def start_exec_def http_parser_init_def CROW_PARSING_HEADER_def Let_def
        split: option.splits sum.splits control.splits)
  show ?thesis
  proof (cases "CROW_IS_ALPHA c \<and> first_method c \<noteq> None")
    case True
    then obtain k where k: "first_method c = Some k" by blast
    let ?p = "\<lambda>p. p\<lparr>flags := {}, uses_transfer_encoding := False, content_length := CROW_ULLONG_MAX, rmethod := k, index := 1, pstate := s_req_method\<rparr>"
    have "switch quiet x (c # t @ '' '') = Inr (Continue (with_parser ?p x) (t @ '' ''))"
      using True k assms(4,5) x
      by (simp add: switch_at(2) at_start_req_def Let_def quiet_begin with_parser_def)
    with loop have l: "execute_loop m quiet (with_parser ?p x) (t @ '' '') = Some (Inr (y, r))"
      by (simp add: reexecute_step)
    have "guessed [c] (ex_parser (with_parser ?p x))"
      using first_methods [OF k] by (simp add: guessed_def guess_def with_parser_def InternalMethodCount_def)
    from method_run [OF l assms(2,3) _ this] x show ?thesis by (simp add: with_parser_def)
  next
    case False
    then have "\<exists>z v. switch quiet x (c # t @ '' '') = Inr (Return z v) \<and> http_errno (ex_parser z) \<noteq> CHPE_OK"
      using assms(4,5) x(1)
      by (auto simp: switch_at(2) at_start_req_def Let_def go_error_def CROW_SET_ERRNO_def with_parser_def)
    with loop assms(2) show ?thesis by (auto simp: reexecute_step)
  qed
qed

lemma left_over_quiet:
  assumes "left_over quiet x = Inr r"
  shows "\<exists>y t. (r = Continue y t \<or> r = Return y t) \<and> http_errno (ex_parser y) = http_errno (ex_parser x)
     \<and> rmethod (ex_parser y) = rmethod (ex_parser x)"
  using assms
  by (cases x)
    (auto simp: left_over_def call_header_field_def call_header_value_def call_url_def call_body_def CROW_CALLBACK_NOTIFY_def
      CROW_ASSERT_def quiet_def Let_def with_parser_def split: option.splits if_splits)

text \<open>C16: The parser accepts a method exactly if it is the name of one of the 34 methods, and reports that one:
  the table that changes the first guess by position and character has every name and no other text.\<close>

theorem method_language:
  assumes "set m \<inter> {CHR '' '', cr, lf} = {}"
  shows "reads_method m k \<longleftrightarrow> k < InternalMethodCount \<and> m = method_strings ! k"
proof
  assume "k < InternalMethodCount \<and> m = method_strings ! k"
  then show "reads_method m k" using reads_all_methods by (simp add: list_all_iff InternalMethodCount_def)
next
  assume r: "reads_method m k"
  then obtain p where p: "http_parser_execute quiet http_parser_init () (m @ '' '') = Some (Inr (p, (), length m + 1))"
    "http_errno p = CHPE_OK" "rmethod p = k"
    by (auto simp: reads_method_def split: option.splits sum.splits)
  then obtain y v where y: "execute_loop (length m + 1) quiet (start_exec http_parser_init () (m @ '' '')) (m @ '' '') = Some (Inr (y, v))"
    by (auto simp: http_parser_execute_def http_parser_init_def split: option.splits sum.splits)
  have e: "http_errno (ex_parser y) = CHPE_OK \<and> rmethod (ex_parser y) = k"
    using p y by (auto simp: http_parser_execute_def http_parser_init_def result_def split: option.splits sum.splits)
      (cases "left_over quiet y"; force dest: left_over_quiet)+
  obtain c t where m: "m = c # t"
  proof (cases m)
    case Nil
    have "\<not> reads_method [] k" by (cases "reads_method [] k") (code_simp)
    with r Nil show ?thesis by simp
  qed (use that in blast)
  from first_run [of "length m + 1" "m @ '' ''" c t y v] y e assms show "k < InternalMethodCount \<and> m = method_strings ! k"
    by (auto simp: m InternalMethodCount_def)
qed

theorem method_language_witness: "reads_method ''M-SEARCH'' 26 \<longleftrightarrow> 26 < InternalMethodCount \<and> ''M-SEARCH'' = method_strings ! 26"
  by (rule method_language) (simp add: cr_def lf_def)

end
