(* ===== verification/Sanitize.thy ===== *)
theory Sanitize
  imports Prelude
begin

text \<open>
  File names from URLs, \<open>lib/crow/utility.h\<close>: \<open>normalize_path\<close> and \<open>sanitize_filename\<close>, which stand
  between the URLs below \<open>/static/\<close> and the file system.
\<close>

definition normalize_path :: "string \<Rightarrow> string" where
  "normalize_path directoryPath =
     (let p = map (\<lambda>c. if c = CHR 0x5C then CHR ''/'' else c) directoryPath
      in if p \<noteq> [] \<and> last p \<noteq> CHR ''/'' then p @ ''/'' else p)"

section \<open>The code\<close>

definition to_upper :: "char \<Rightarrow> char" where
  "to_upper c = (let n = of_char c :: nat in if 97 \<le> n \<and> n \<le> 122 then char_of (n - 32) else c)"

definition is_slash :: "char \<Rightarrow> bool" where
  "is_slash c \<longleftrightarrow> c = CHR ''/'' \<or> c = CHR 0x5C"

text \<open>\<open>sanitizeSpecialFile\<close> on the text from the offset on.\<close>

definition sanitizeSpecialFile :: "string \<Rightarrow> bool \<Rightarrow> char \<Rightarrow> string \<Rightarrow> string" where
  "sanitizeSpecialFile pattern includeNumber replacement s =
     (if map to_upper (take (length pattern) s) \<noteq> pattern then s
      else let t = drop (length pattern) s
           in if includeNumber \<and> (t = [] \<or> \<not> (49 \<le> (of_char (hd t) :: nat) \<and> (of_char (hd t) :: nat) \<le> 57)) then s
              else let t = (if includeNumber then tl t else t)
                   in if t = [] \<or> hd t = CHR ''.'' \<or> hd t = CHR '':'' \<or> is_slash (hd t) then replacement # t else s)"

text \<open>The switch over the first character of an entry.\<close>

definition special_entry :: "char \<Rightarrow> string \<Rightarrow> string" where
  "special_entry replacement s =
     (let c = to_upper (hd s); special = (\<lambda>pattern number. sanitizeSpecialFile pattern number replacement)
      in if c = CHR ''A'' then special ''AUX'' False s
         else if c = CHR ''C'' then special ''COM'' True (special ''CON'' False s)
         else if c = CHR ''L'' then special ''LPT'' True s
         else if c = CHR ''N'' then special ''NUL'' False s
         else if c = CHR ''P'' then special ''PRN'' False s
         else if c = CHR ''.'' then special ''..'' False s
         else s)"

definition bad_char :: "char \<Rightarrow> bool" where
  "bad_char c \<longleftrightarrow> (of_char c :: nat) < 32 \<or> 128 \<le> (of_char c :: nat) \<and> (of_char c :: nat) \<le> 159
     \<or> c \<in> {CHR ''?'', CHR ''<'', CHR ''>'', CHR '':'', CHR ''*'', CHR ''|'', CHR 0x22}"

lemma sanitizeSpecialFile_shorter:
  "pattern \<noteq> [] \<Longrightarrow> length (sanitizeSpecialFile pattern n r s) \<le> length s \<and> (s \<noteq> [] \<longrightarrow> sanitizeSpecialFile pattern n r s \<noteq> [])"
  by (cases s; cases pattern) (auto simp: sanitizeSpecialFile_def Let_def)

lemma special_entry_shorter:
  assumes "s \<noteq> []"
  shows "length (special_entry r s) \<le> length s \<and> special_entry r s \<noteq> []"
proof -
  have "length (sanitizeSpecialFile ''COM'' True r (sanitizeSpecialFile ''CON'' False r s)) \<le> length s
      \<and> sanitizeSpecialFile ''COM'' True r (sanitizeSpecialFile ''CON'' False r s) \<noteq> []"
    using assms sanitizeSpecialFile_shorter [of "''CON''" False r s]
      sanitizeSpecialFile_shorter [of "''COM''" True r "sanitizeSpecialFile ''CON'' False r s"] by auto
  then show ?thesis using assms sanitizeSpecialFile_shorter [of _ _ r s] by (simp add: special_entry_def Let_def)
qed

lemma tl_special_entry: "s \<noteq> [] \<Longrightarrow> length (tl (if b then special_entry r s else s)) < length s"
  using special_entry_shorter [of s r] by (cases "special_entry r s") auto

text \<open>The loop from position \<open>i\<close> on: whether \<open>i\<close> is 0, the flag, and the text from there.\<close>

function sanitize_from :: "char \<Rightarrow> bool \<Rightarrow> bool \<Rightarrow> string \<Rightarrow> string" where
  "sanitize_from replacement first checkForSpecialEntries data =
     (if data = [] then []
      else let data = (if checkForSpecialEntries then special_entry replacement data else data); c = hd data
           in if bad_char c then replacement # sanitize_from replacement False False (tl data)
              else if is_slash c
              then (if first then replacement # sanitize_from replacement False False (tl data)
                    else c # sanitize_from replacement False True (tl data))
              else c # sanitize_from replacement False False (tl data))"
  by pat_completeness auto
termination
  by (relation "measure (\<lambda>(_, _, _, s). length s)") (simp_all only: in_measure split_conv wf_measure, (rule tl_special_entry, assumption)+)

declare sanitize_from.simps [simp del]

definition sanitize_filename :: "char \<Rightarrow> string \<Rightarrow> string" where
  "sanitize_filename replacement data = sanitize_from replacement True True (take 255 data)"

section \<open>Entries of a path\<close>

text \<open>The names between the slashes of both kinds.\<close>

fun path_entries :: "string \<Rightarrow> string list" where
  "path_entries [] = [[]]"
| "path_entries (c # s) =
     (if is_slash c then [] # path_entries s
      else case path_entries s of e # es \<Rightarrow> (c # e) # es | [] \<Rightarrow> [[c]])"

text \<open>A name that stands for a device on Windows, with any extension.\<close>

definition device_name :: "string \<Rightarrow> bool" where
  "device_name e \<longleftrightarrow>
     (let stem = map to_upper (takeWhile (\<lambda>c. c \<noteq> CHR ''.'') e)
      in stem \<in> {''AUX'', ''CON'', ''NUL'', ''PRN''} \<or>
         (\<exists>d. 49 \<le> (of_char d :: nat) \<and> (of_char d :: nat) \<le> 57 \<and> stem \<in> {''COM'' @ [d], ''LPT'' @ [d]}))"

abbreviation first_entry :: "string \<Rightarrow> string" where
  "first_entry s \<equiv> takeWhile (\<lambda>c. \<not> is_slash c) s"

lemma path_entries_first: "path_entries s = first_entry s # (case dropWhile (\<lambda>c. \<not> is_slash c) s of [] \<Rightarrow> [] | _ # t \<Rightarrow> path_entries t)"
  by (induction s) auto

text \<open>What an entry must be for the switch to act, character by character.\<close>

definition is_number :: "char \<Rightarrow> bool" where
  "is_number c \<longleftrightarrow> 49 \<le> (of_char c :: nat) \<and> (of_char c :: nat) \<le> 57"

fun special_pattern :: "string \<Rightarrow> bool \<Rightarrow> string \<Rightarrow> bool" where
  "special_pattern [] False s \<longleftrightarrow> s = [] \<or> hd s = CHR ''.'' \<or> hd s = CHR '':'' \<or> is_slash (hd s)"
| "special_pattern [] True s \<longleftrightarrow> (case s of [] \<Rightarrow> False | c # s \<Rightarrow> is_number c \<and> special_pattern [] False s)"
| "special_pattern (p # ps) n s \<longleftrightarrow> (case s of [] \<Rightarrow> False | c # s \<Rightarrow> to_upper c = p \<and> special_pattern ps n s)"

definition special_here :: "string \<Rightarrow> bool" where
  "special_here s \<longleftrightarrow> special_pattern ''AUX'' False s \<or> special_pattern ''CON'' False s \<or> special_pattern ''COM'' True s
     \<or> special_pattern ''LPT'' True s \<or> special_pattern ''NUL'' False s \<or> special_pattern ''PRN'' False s
     \<or> special_pattern ''..'' False s"

lemma special_pattern_code:
  "special_pattern p n s \<longleftrightarrow>
     map to_upper (take (length p) s) = p \<and>
     (let t = drop (length p) s
      in (n \<longrightarrow> t \<noteq> [] \<and> is_number (hd t)) \<and>
         (let t = (if n then tl t else t) in t = [] \<or> hd t = CHR ''.'' \<or> hd t = CHR '':'' \<or> is_slash (hd t)))"
  by (induction p n s rule: special_pattern.induct) (auto simp: Let_def split: list.split)

lemma sanitizeSpecialFile_pattern:
  "sanitizeSpecialFile p n r s = (if special_pattern p n s then r # drop (length p + (if n then 1 else 0)) s else s)"
  by (auto simp: sanitizeSpecialFile_def special_pattern_code is_number_def Let_def drop_Suc tl_drop)

lemma special_pattern_first: "special_pattern (p # ps) n s \<Longrightarrow> s \<noteq> [] \<and> to_upper (hd s) = p"
  by (cases s) auto

text \<open>The replacement starts no special entry.\<close>

lemma underscore: "to_upper (CHR ''_'') = CHR ''_''" "\<not> is_slash (CHR ''_'')" "\<not> bad_char (CHR ''_'')"
  by code_simp+

lemma special_here_underscore: "\<not> special_here (CHR ''_'' # s)"
  by (simp add: special_here_def underscore)

lemma special_entry_cases:
  "s \<noteq> [] \<Longrightarrow> (if special_here s then \<exists>t. special_entry (CHR ''_'') s = CHR ''_'' # t else special_entry (CHR ''_'') s = s)"
  by (cases s) (auto simp: special_entry_def special_here_def Let_def sanitizeSpecialFile_pattern underscore)

lemma special_entry_same: "s \<noteq> [] \<Longrightarrow> \<not> special_here s \<Longrightarrow> special_entry (CHR ''_'') s = s"
  using special_entry_cases [of s] by simp

section \<open>What is left\<close>

text \<open>The characters before the first slash, with the bad ones replaced.\<close>

inductive cleaned :: "string \<Rightarrow> string \<Rightarrow> bool" where
  cleaned_Nil: "cleaned [] []"
| cleaned_slash: "is_slash c \<Longrightarrow> cleaned (c # s) (c # t)"
| cleaned_char: "\<not> is_slash c \<Longrightarrow> cleaned s t \<Longrightarrow> cleaned (c # s) ((if bad_char c then CHR ''_'' else c) # t)"

inductive_cases cleaned_elims: "cleaned s []" "cleaned s (c # t)"

lemma slash_facts: "is_slash c \<Longrightarrow> to_upper c = c \<and> \<not> is_number c \<and> \<not> bad_char c"
  by (auto simp: is_slash_def to_upper_def is_number_def bad_char_def)

lemma underscore_no_number: "\<not> is_number (CHR ''_'')"
  by code_simp

lemma cleaned_special:
  "special_pattern p n t \<Longrightarrow> cleaned s t \<Longrightarrow> \<forall>c\<in>set p. c \<noteq> CHR ''_'' \<and> \<not> is_slash c \<Longrightarrow> special_pattern p n s"
proof (induction p n t arbitrary: s rule: special_pattern.induct)
  case (1 t)
  from 1(2) show ?case using 1(1) by cases (auto simp: underscore split: if_splits)
next
  case (2 t)
  from 2(3) show ?case
  proof cases
    case (cleaned_char c s' t')
    then have "is_number (if bad_char c then CHR ''_'' else c)" "special_pattern [] False t'" using 2(2) by simp_all
    with 2(1) [OF cleaned_char(2) _ cleaned_char(4)] cleaned_char(1) show ?thesis
      by (auto simp: underscore_no_number split: if_splits)
  qed (use 2(2) slash_facts in auto)
next
  case (3 p ps n t)
  from 3(3) show ?case
  proof cases
    case (cleaned_char c s' t')
    then have "to_upper (if bad_char c then CHR ''_'' else c) = p" "special_pattern ps n t'" using 3(2) by simp_all
    with 3(1) [OF cleaned_char(2) _ cleaned_char(4)] 3(4) cleaned_char(1) show ?thesis
      by (auto simp: underscore split: if_splits)
  qed (use 3(2,4) slash_facts in auto)
qed

lemma special_pattern_entry: "special_pattern p n (first_entry s) \<Longrightarrow> \<forall>c\<in>set p. \<not> is_slash c \<Longrightarrow> special_pattern p n s"
proof (induction p n s rule: special_pattern.induct)
  case (1 s)
  then show ?case by (cases s) (auto split: if_splits)
next
  case (2 s)
  then show ?case by (cases s) (auto split: if_splits)
next
  case (3 p ps n s)
  then show ?case by (cases s) (auto split: if_splits)
qed

lemmas no_slash_patterns = is_slash_def

lemma special_here_entry: "special_here (first_entry s) \<Longrightarrow> special_here s"
  unfolding special_here_def using special_pattern_entry [of _ _ s] by (auto simp: is_slash_def simp del: special_pattern.simps)

lemma special_here_cleaned: "cleaned s t \<Longrightarrow> special_here t \<Longrightarrow> special_here s"
  unfolding special_here_def using cleaned_special [of _ _ t s] by (auto simp: is_slash_def simp del: special_pattern.simps)

lemma cleaned_sanitize: "cleaned s (sanitize_from (CHR ''_'') False False s)"
proof (induction s)
  case (Cons c s)
  then show ?case
    using cleaned_slash [of c s] cleaned_char [OF _ Cons, of c] slash_facts [of c]
    by (subst sanitize_from.simps) (auto simp: Let_def)
qed (subst sanitize_from.simps, simp add: cleaned_Nil)

text \<open>An entry that starts after a slash is not special, and neither is the first one if it was looked at.\<close>

definition entries_safe :: "string \<Rightarrow> bool" where
  "entries_safe t \<longleftrightarrow> (\<forall>u c v. t = u @ c # v \<longrightarrow> is_slash c \<longrightarrow> \<not> special_here v)"

lemma entries_safe_Cons: "entries_safe (c # t) \<longleftrightarrow> (is_slash c \<longrightarrow> \<not> special_here t) \<and> entries_safe t"
  by (auto simp: entries_safe_def Cons_eq_append_conv)

lemma special_here_Nil: "\<not> special_here []"
  by (simp add: special_here_def)

lemma sanitize_safe:
  "r = CHR ''_'' \<Longrightarrow> entries_safe (sanitize_from r first check data) \<and> (check \<longrightarrow> \<not> special_here (sanitize_from r first check data))"
proof (induction r first check data rule: sanitize_from.induct)
  case (1 r first check data)
  show ?case
  proof (cases "data = []")
    case True
    then show ?thesis
      by (subst (1 2) sanitize_from.simps) (simp add: special_here_Nil entries_safe_def)
  next
    case False
    note nonempty = False
    define s where "s = (if check then special_entry r data else data)"
    have "s \<noteq> []" using False special_entry_shorter by (simp add: s_def)
    then obtain c t where s: "s = c # t" by (cases s) auto
    note IH = 1(1-4) [OF False s_def, of c, simplified s, simplified]
    have out: "sanitize_from r first check data =
       (if bad_char c then r # sanitize_from r False False t
        else if is_slash c
        then (if first then r # sanitize_from r False False t else c # sanitize_from r False True t)
        else c # sanitize_from r False False t)"
      using False s by (subst sanitize_from.simps) (simp add: s_def [symmetric] Let_def)
    have "entries_safe (sanitize_from r first check data)"
      using IH 1(5) unfolding out by (auto simp: entries_safe_Cons underscore)
    moreover have "\<not> special_here (sanitize_from r first check data)" if check
    proof (cases "special_here data \<or> is_slash c \<and> first")
      case True
      then have "\<exists>u. sanitize_from r first check data = CHR ''_'' # u"
        using special_entry_cases [OF False] that s 1(5) underscore slash_facts [of c] unfolding out s_def
        by (auto split: if_splits)
      then show ?thesis using special_here_underscore by auto
    next
      case False
      have plain: "\<not> special_here data" using False by (rule contrapos_nn) (rule disjI1)
      have not_first: "is_slash c \<Longrightarrow> \<not> first" using False by (rule contrapos_nn) (rule disjI2, rule conjI)
      have "special_entry (CHR ''_'') data = data" by (rule special_entry_same [OF nonempty plain])
      then have "s = data" using that 1(5) by (simp add: s_def)
      moreover have "cleaned s (sanitize_from r first check data)"
      proof (cases "is_slash c")
        case True
        with not_first slash_facts [of c] cleaned_slash [of c t] show ?thesis unfolding out s by simp
      next
        case False
        with 1(5) cleaned_char [OF False cleaned_sanitize, of t] show ?thesis unfolding out s by (cases "bad_char c") simp_all
      qed
      ultimately show ?thesis using plain special_here_cleaned by blast
    qed
    ultimately show ?thesis by blast
  qed
qed

lemma special_entries:
  "entries_safe t \<Longrightarrow> \<not> special_here t \<Longrightarrow> e \<in> set (path_entries t) \<Longrightarrow> \<not> special_here e"
proof (induction "length t" arbitrary: t rule: less_induct)
  case less
  obtain v where v: "dropWhile (\<lambda>c. \<not> is_slash c) t = v" by simp
  then have t: "t = first_entry t @ v" using takeWhile_dropWhile_id [of "\<lambda>c. \<not> is_slash c" t] by simp
  consider "e = first_entry t" | c w where "v = c # w" "e \<in> set (path_entries w)"
    using less.prems(3) v by (cases v) (auto simp: path_entries_first [of t])
  then show ?case
  proof cases
    case 1
    with less.prems(2) special_here_entry show ?thesis by blast
  next
    case 2
    have c: "is_slash c" using v 2(1) hd_dropWhile [of "\<lambda>c. \<not> is_slash c" t] by simp
    have split_t: "t = first_entry t @ c # w" using t 2(1) by simp
    have "entries_safe w"
      unfolding entries_safe_def
    proof (intro allI impI)
      fix u d x
      assume "w = u @ d # x" "is_slash d"
      then have "t = (first_entry t @ c # u) @ d # x" using split_t by simp
      with \<open>is_slash d\<close> less.prems(1) show "\<not> special_here x" unfolding entries_safe_def by blast
    qed
    moreover have "\<not> special_here w" using split_t c less.prems(1) unfolding entries_safe_def by blast
    moreover have "length w < length t" using arg_cong [OF split_t, of length] by simp
    ultimately show ?thesis using less.hyps 2(2) by blast
  qed
qed

text \<open>The names to keep out are among the special ones.\<close>

lemma special_dots: "special_here ''..''"
  by (simp add: special_here_def to_upper_def)

lemma stem_special:
  "map to_upper (takeWhile (\<lambda>c. c \<noteq> CHR ''.'') e) = p \<Longrightarrow> special_pattern p False e"
proof (induction p arbitrary: e)
  case Nil
  then show ?case by (cases e) (auto split: if_splits)
next
  case (Cons q p)
  then show ?case by (cases e) (auto split: if_splits)
qed

lemma to_upper_number: "is_number (to_upper c) \<Longrightarrow> is_number c"
  by (auto simp: to_upper_def is_number_def Let_def split: if_splits)

lemma stem_special_number:
  "map to_upper (takeWhile (\<lambda>c. c \<noteq> CHR ''.'') e) = p @ [d] \<Longrightarrow> is_number d \<Longrightarrow> special_pattern p True e"
proof (induction p arbitrary: e)
  case Nil
  then obtain c s where "e = c # s" by (cases e) auto
  with Nil stem_special [of s "[]"] to_upper_number [of c] show ?case by (auto split: if_splits)
next
  case (Cons q p)
  then show ?case by (cases e) (auto split: if_splits)
qed

lemma device_special: "device_name e \<Longrightarrow> special_here e"
  unfolding device_name_def Let_def special_here_def
  using stem_special [of e] stem_special_number [of e "''COM''"] stem_special_number [of e "''LPT''"]
  by (auto simp: is_number_def simp del: special_pattern.simps)

lemma sanitize_no_bad: "r = CHR ''_'' \<Longrightarrow> c \<in> set (sanitize_from r first check data) \<Longrightarrow> \<not> bad_char c"
proof (induction r first check data rule: sanitize_from.induct)
  case (1 r first check data)
  show ?case
  proof (cases "data = []")
    case True
    with 1(6) show ?thesis by (simp add: sanitize_from.simps)
  next
    case False
    from 1(6) show ?thesis
      using False 1(1-4) [OF False refl refl] 1(5) underscore(3)
      by (subst (asm) sanitize_from.simps) (auto simp: Let_def split: if_splits)
  qed
qed

lemma sanitize_relative:
  "sanitize_from (CHR ''_'') True check data = [] \<or> \<not> is_slash (hd (sanitize_from (CHR ''_'') True check data))"
  using underscore(2) by (subst (1 2) sanitize_from.simps) (auto simp: Let_def)

lemma sanitize_shorter: "length (sanitize_from r first check data) \<le> length data"
proof (induction r first check data rule: sanitize_from.induct)
  case (1 r first check data)
  show ?case
  proof (cases "data = []")
    case True
    then show ?thesis by (simp add: sanitize_from.simps)
  next
    case False
    define s where "s = (if check then special_entry r data else data)"
    have "length (tl s) < length data" unfolding s_def by (rule tl_special_entry [OF False])
    then show ?thesis
      using False 1 [OF False s_def refl]
      by (subst sanitize_from.simps) (cases "bad_char (hd s)"; cases "is_slash (hd s)"; cases first; simp add: Let_def flip: s_def)
  qed
qed

text \<open>C17: A file name that has passed \<open>sanitize_filename\<close> is relative, has no entry \<open>..\<close> between slashes of
  either kind, no entry that names a device, no control character and no other reserved character:
  a URL below \<open>/static/\<close> cannot reach a file outside the static directory.\<close>

theorem sanitized_names_stay_below:
  "(sanitize_filename (CHR ''_'') url = [] \<or> is_slash (hd (sanitize_filename (CHR ''_'') url)) = False)
    \<and> length (sanitize_filename (CHR ''_'') url) \<le> 255
    \<and> set (path_entries (sanitize_filename (CHR ''_'') url)) \<inter> ({''..''} \<union> {e. device_name e}) = {}
    \<and> set (sanitize_filename (CHR ''_'') url) \<inter> {c. bad_char c} = {}"
proof -
  let ?t = "sanitize_from (CHR ''_'') True True (take 255 url)"
  have safe: "entries_safe ?t" "\<not> special_here ?t" using sanitize_safe [OF refl, of True True "take 255 url"] by simp_all
  then have "\<not> special_here e" if "e \<in> set (path_entries ?t)" for e using special_entries that by blast
  then show ?thesis
    using sanitize_relative [of True "take 255 url"] sanitize_shorter [of "CHR ''_''" True True "take 255 url"]
      special_dots device_special sanitize_no_bad [OF refl, of _ True True "take 255 url"]
    unfolding sanitize_filename_def by auto
qed

end
