(* ===== verification/HttpFiles.thy ===== *)
theory HttpFiles
  imports Http Sanitize
begin

text \<open>
  The rest of the response class, \<open>lib/crow/http_response.h\<close>: redirections, MIME types
  (\<open>mime_types.h\<close>) and static files. The file system is a map from paths to the contents of
  regular files.
\<close>

type_synonym files = "string \<Rightarrow> string option"

definition mime_types :: "(string \<times> string) list" where
  "mime_types =
     [(''gz'', ''application/gzip''), (''shtml'', ''text/html''), (''htm'', ''text/html''), (''html'', ''text/html''),
      (''css'', ''text/css''), (''xml'', ''text/xml''), (''gif'', ''image/gif''), (''jpg'', ''image/jpeg''),
      (''jpeg'', ''image/jpeg''), (''js'', ''application/javascript''), (''atom'', ''application/atom+xml''),
      (''rss'', ''application/rss+xml''), (''mml'', ''text/mathml''), (''txt'', ''text/plain''),
      (''jad'', ''text/vnd.sun.j2me.app-descriptor''), (''wml'', ''text/vnd.wap.wml''),
      (''htc'', ''text/x-component''), (''avif'', ''image/avif''), (''png'', ''image/png''),
      (''svgz'', ''image/svg+xml''), (''svg'', ''image/svg+xml''), (''tiff'', ''image/tiff''),
      (''tif'', ''image/tiff''), (''wbmp'', ''image/vnd.wap.wbmp''), (''webp'', ''image/webp''),
      (''ico'', ''image/x-icon''), (''jng'', ''image/x-jng''), (''bmp'', ''image/x-ms-bmp''),
      (''woff'', ''font/woff''), (''woff2'', ''font/woff2''), (''ear'', ''application/java-archive''),
      (''war'', ''application/java-archive''), (''jar'', ''application/java-archive''),
      (''json'', ''application/json''), (''hqx'', ''application/mac-binhex40''), (''doc'', ''application/msword''),
      (''pdf'', ''application/pdf''), (''ai'', ''application/postscript''), (''eps'', ''application/postscript''),
      (''ps'', ''application/postscript''), (''rtf'', ''application/rtf''),
      (''m3u8'', ''application/vnd.apple.mpegurl''), (''kml'', ''application/vnd.google-earth.kml+xml''),
      (''kmz'', ''application/vnd.google-earth.kmz''), (''xls'', ''application/vnd.ms-excel''),
      (''eot'', ''application/vnd.ms-fontobject''), (''ppt'', ''application/vnd.ms-powerpoint''),
      (''odg'', ''application/vnd.oasis.opendocument.graphics''),
      (''odp'', ''application/vnd.oasis.opendocument.presentation''),
      (''ods'', ''application/vnd.oasis.opendocument.spreadsheet''),
      (''odt'', ''application/vnd.oasis.opendocument.text''),
      (''pptx'', ''application/vnd.openxmlformats-officedocument.presentationml.presentation''),
      (''xlsx'', ''application/vnd.openxmlformats-officedocument.spreadsheetml.sheet''),
      (''docx'', ''application/vnd.openxmlformats-officedocument.wordprocessingml.document''),
      (''wmlc'', ''application/vnd.wap.wmlc''), (''wasm'', ''application/wasm''),
      (''7z'', ''application/x-7z-compressed''), (''cco'', ''application/x-cocoa''),
      (''jardiff'', ''application/x-java-archive-diff''), (''jnlp'', ''application/x-java-jnlp-file''),
      (''run'', ''application/x-makeself''), (''pm'', ''application/x-perl''), (''pl'', ''application/x-perl''),
      (''pdb'', ''application/x-pilot''), (''prc'', ''application/x-pilot''),
      (''rar'', ''application/x-rar-compressed''), (''rpm'', ''application/x-redhat-package-manager''),
      (''sea'', ''application/x-sea''), (''swf'', ''application/x-shockwave-flash''),
      (''sit'', ''application/x-stuffit''), (''tk'', ''application/x-tcl''), (''tcl'', ''application/x-tcl''),
      (''crt'', ''application/x-x509-ca-cert''), (''pem'', ''application/x-x509-ca-cert''),
      (''der'', ''application/x-x509-ca-cert''), (''xpi'', ''application/x-xpinstall''),
      (''xhtml'', ''application/xhtml+xml''), (''xspf'', ''application/xspf+xml''), (''zip'', ''application/zip''),
      (''dll'', ''application/octet-stream''), (''exe'', ''application/octet-stream''),
      (''bin'', ''application/octet-stream''), (''deb'', ''application/octet-stream''),
      (''dmg'', ''application/octet-stream''), (''img'', ''application/octet-stream''),
      (''iso'', ''application/octet-stream''), (''msm'', ''application/octet-stream''),
      (''msp'', ''application/octet-stream''), (''msi'', ''application/octet-stream''), (''kar'', ''audio/midi''),
      (''midi'', ''audio/midi''), (''mid'', ''audio/midi''), (''mp3'', ''audio/mpeg''), (''ogg'', ''audio/ogg''),
      (''m4a'', ''audio/x-m4a''), (''ra'', ''audio/x-realaudio''), (''3gp'', ''video/3gpp''),
      (''3gpp'', ''video/3gpp''), (''ts'', ''video/mp2t''), (''mp4'', ''video/mp4''), (''mpg'', ''video/mpeg''),
      (''mpeg'', ''video/mpeg''), (''mov'', ''video/quicktime''), (''webm'', ''video/webm''),
      (''flv'', ''video/x-flv''), (''m4v'', ''video/x-m4v''), (''mng'', ''video/x-mng''),
      (''asf'', ''video/x-ms-asf''), (''asx'', ''video/x-ms-asf''), (''wmv'', ''video/x-ms-wmv''),
      (''avi'', ''video/x-msvideo'')]"

definition valid_parent_types :: "string list" where
  "valid_parent_types = [''application/'', ''audio/'', ''font/'', ''example/'', ''image/'', ''message/'', ''model/'',
     ''multipart/'', ''text/'', ''video/'']"

definition validate_mime_type :: "string \<Rightarrow> bool" where
  "validate_mime_type candidate \<longleftrightarrow>
     list_ex (\<lambda>parent. length parent < length candidate \<and> take (length parent) candidate = parent) valid_parent_types"

definition get_mime_type :: "string \<Rightarrow> string" where
  "get_mime_type contentType =
     (case map_of mime_types contentType of
        Some t \<Rightarrow> t
      | None \<Rightarrow> if validate_mime_type contentType then contentType else ''text/plain'')"

definition response_typed :: "int \<Rightarrow> string \<Rightarrow> string \<Rightarrow> response" where
  "response_typed code contentType body = set_header ''Content-Type'' (get_mime_type contentType) (response_text code body)"

definition redirect_to :: "int \<Rightarrow> string \<Rightarrow> response \<Rightarrow> response" where
  "redirect_to code location res = set_header ''Location'' location (res\<lparr>rs_code := code\<rparr>)"

definition redirect :: "string \<Rightarrow> response \<Rightarrow> response" where "redirect = redirect_to 307"
definition redirect_perm :: "string \<Rightarrow> response \<Rightarrow> response" where "redirect_perm = redirect_to 308"
definition moved :: "string \<Rightarrow> response \<Rightarrow> response" where "moved = redirect_to 302"
definition moved_perm :: "string \<Rightarrow> response \<Rightarrow> response" where "moved_perm = redirect_to 301"

definition write_body :: "string \<Rightarrow> response \<Rightarrow> response" where
  "write_body part res = res\<lparr>rs_text := rs_text res @ part\<rparr>"

definition is_static_type :: "response \<Rightarrow> bool" where
  "is_static_type res \<longleftrightarrow> rs_file res \<noteq> []"

text \<open>What is behind the last dot; the whole path without a dot.\<close>

definition extension :: "string \<Rightarrow> string" where
  "extension path = rev (takeWhile (\<lambda>c. c \<noteq> CHR ''.'') (rev path))"

definition set_static_file_info_unsafe :: "files \<Rightarrow> string \<Rightarrow> response \<Rightarrow> response" where
  "set_static_file_info_unsafe fs path res =
     (case fs path of
        Some content \<Rightarrow>
          (let res = add_header ''Content-Length'' (show_nat (length content)) (res\<lparr>rs_file := path, rs_code := 200\<rparr>)
           in if extension path \<noteq> [] then add_header ''Content-Type'' (get_mime_type (extension path)) res else res)
      | None \<Rightarrow> res\<lparr>rs_code := 404, rs_file := []\<rparr>)"

definition set_static_file_info :: "files \<Rightarrow> string \<Rightarrow> response \<Rightarrow> response" where
  "set_static_file_info fs path = set_static_file_info_unsafe fs (sanitize_filename (CHR ''_'') path)"

text \<open>The handler of \<open>/static/<path>\<close>, \<open>app.h\<close>, up to \<open>end\<close>.\<close>

definition static_handler :: "files \<Rightarrow> string \<Rightarrow> response \<Rightarrow> response" where
  "static_handler fs file_path_partial =
     set_static_file_info_unsafe fs (normalize_path ''static/'' @ sanitize_filename (CHR ''_'') file_path_partial)"

end
