(* ===== verification/HttpConnection.thy ===== *)
theory HttpConnection
  imports HttpParser HttpFiles Router
begin

text \<open>
  An HTTP connection of Crow, \<open>lib/crow/http_connection.h\<close> and \<open>lib/crow/parser.h\<close>: the callbacks of the
  parser build the request, ask the router, run the rule's handler on the application's state and
  write the response. Timers and logging are left out; a write to an open socket succeeds.
\<close>

section \<open>The application and the connection\<close>

text \<open>
  What the connection gets from the application: the router, what a handler does to the response
  before \<open>end\<close> and to the state, what a websocket rule does with a request, the two functions of
  the middleware, the name of the server, the date, the size from which on a body is streamed, and
  the files. An exception is an error that is not \<open>Undefined\<close>.
\<close>

record ('a, 'h, 's) app =
  ap_strtod :: "'a strtod"
  ap_router :: "'h router"
  ap_call :: "'h \<Rightarrow> request \<Rightarrow> 'a routing_params \<Rightarrow> response \<Rightarrow> 's \<Rightarrow> (response \<times> 's) res"
  ap_websocket :: "'h \<Rightarrow> request \<Rightarrow> 's \<Rightarrow> 's res"
  ap_before :: "request \<Rightarrow> response \<Rightarrow> response"
  ap_after :: "response \<Rightarrow> response"
  ap_server_name :: string
  ap_date :: string
  ap_threshold :: "64 word"
  ap_files :: files

text \<open>The members of the connection and of its parser; \<open>cn_handler\<close>: the completion handler of the response is set;
  \<open>cn_reading\<close>: a read is pending; \<open>cn_out\<close>: the bytes written so far.\<close>

record ('a, 's) conn =
  cn_req :: request
  cn_header_field :: string
  cn_header_value :: string
  cn_header_building_state :: nat
  cn_message_complete :: bool
  cn_found :: "'a route_found option"
  cn_res :: response
  cn_handler :: bool
  cn_close_connection :: bool
  cn_add_keep_alive :: bool
  cn_continue_requested :: bool
  cn_need_to_call_after_handlers :: bool
  cn_need_to_start_read :: bool
  cn_open :: bool
  cn_reading :: bool
  cn_out :: string
  cn_state :: 's

text \<open>A step of the connection, with the parser it derives from.\<close>

type_synonym ('a, 's) step = "http_parser \<Rightarrow> ('a, 's) conn \<Rightarrow> (http_parser \<times> ('a, 's) conn) res"

definition new_conn :: "'s \<Rightarrow> ('a, 's) conn" where
  "new_conn s = \<lparr> cn_req = new_request, cn_header_field = [], cn_header_value = [], cn_header_building_state = 0,
     cn_message_complete = False, cn_found = None, cn_res = response_code 200, cn_handler = False,
     cn_close_connection = False, cn_add_keep_alive = False, cn_continue_requested = False,
     cn_need_to_call_after_handlers = False, cn_need_to_start_read = False, cn_open = True, cn_reading = False,
     cn_out = [], cn_state = s \<rparr>"

section \<open>The parser's own operations\<close>

definition parser_clear :: "http_parser \<Rightarrow> ('a, 's) conn \<Rightarrow> http_parser \<times> ('a, 's) conn" where
  "parser_clear p c =
     (p\<lparr>qs_point := 0, pstate := s_start_req\<rparr>,
      c\<lparr>cn_req := new_request, cn_header_field := [], cn_header_value := [], cn_header_building_state := 0,
        cn_message_complete := False\<rparr>)"

text \<open>\<open>done\<close> feeds no bytes. The state \<open>s_body_identity_eof\<close>, in which that would end a message, needs lenient parsing.\<close>

definition parser_done :: "http_parser \<Rightarrow> ('a, 's) conn \<Rightarrow> http_parser" where
  "parser_done p c =
     (if cn_message_complete c \<or> http_errno p \<noteq> CHPE_OK \<or> pstate p \<in> {s_dead, s_start_req, s_body_identity_eof} then p
      else p\<lparr>http_errno := CHPE_INVALID_EOF_STATE\<rparr>)"

definition set_connection_parameters :: "http_parser \<Rightarrow> request \<Rightarrow> request" where
  "set_connection_parameters p r =
     (let one_zero = (http_major p = 1 \<and> http_minor p = 0); one_one = (http_major p = 1 \<and> http_minor p = 1)
      in r\<lparr>rq_version := (http_major p, http_minor p),
           rq_keep_alive := (if one_zero then F_CONNECTION_KEEP_ALIVE \<in> flags p else one_one),
           rq_close := (if one_zero then F_CONNECTION_KEEP_ALIVE \<notin> flags p else one_one \<and> F_CONNECTION_CLOSE \<in> flags p),
           rq_upgrade := upgrade p\<rparr>)"

section \<open>Writing\<close>

definition status_codes :: "(int \<times> string) list" where
  "status_codes =
     [(100, ''Continue''), (101, ''Switching Protocols''),
      (200, ''OK''), (201, ''Created''), (202, ''Accepted''), (203, ''Non-Authoritative Information''), (204, ''No Content''),
      (205, ''Reset Content''), (206, ''Partial Content''),
      (300, ''Multiple Choices''), (301, ''Moved Permanently''), (302, ''Found''), (303, ''See Other''), (304, ''Not Modified''),
      (307, ''Temporary Redirect''), (308, ''Permanent Redirect''),
      (400, ''Bad Request''), (401, ''Unauthorized''), (403, ''Forbidden''), (404, ''Not Found''), (405, ''Method Not Allowed''),
      (406, ''Not Acceptable''), (407, ''Proxy Authentication Required''), (409, ''Conflict''), (410, ''Gone''),
      (413, ''Payload Too Large''), (415, ''Unsupported Media Type''), (416, ''Range Not Satisfiable''),
      (417, ''Expectation Failed''), (428, ''Precondition Required''), (429, ''Too Many Requests''),
      (451, ''Unavailable For Legal Reasons''),
      (500, ''Internal Server Error''), (501, ''Not Implemented''), (502, ''Bad Gateway''), (503, ''Service Unavailable''),
      (504, ''Gateway Timeout''), (506, ''Variant Also Negotiates'')]"

definition crlf :: string where "crlf = [cr, lf]"

text \<open>\<open>statusCodes[code]\<close> without its first nine characters, and the whole line.\<close>

definition status_text :: "int \<Rightarrow> string" where
  "status_text code = show_int code @ '' '' @ (case map_of status_codes code of Some t \<Rightarrow> t | None \<Rightarrow> []) @ crlf"

definition header_line :: "string \<Rightarrow> string \<Rightarrow> string" where
  "header_line k v = k @ '': '' @ v @ crlf"

text \<open>The response with the changes made to it, and the bytes before its body.\<close>

definition prepare_buffers :: "('a, 'h, 's) app \<Rightarrow> bool \<Rightarrow> response \<Rightarrow> response \<times> string" where
  "prepare_buffers A keep_alive res =
     (let code = (if map_of status_codes (rs_code res) = None then 500 else rs_code res);
          res = res\<lparr>rs_code := code\<rparr>;
          res = (if 400 \<le> code \<and> rs_text res = [] then res\<lparr>rs_text := status_text code\<rparr> else res);
          has = (\<lambda>k. header_count k (rs_headers res) \<noteq> 0)
      in (res, ''HTTP/1.1 '' @ status_text code
          @ concat (map (\<lambda>(k, v). header_line k v) (rs_headers res))
          @ (if \<not> rs_manual_length res \<and> \<not> has ''content-length''
             then header_line ''Content-Length'' (show_nat (length (rs_text res))) else [])
          @ (if \<not> has ''server'' \<and> ap_server_name A \<noteq> [] then header_line ''Server'' (ap_server_name A) else [])
          @ (if \<not> has ''date'' then header_line ''Date'' (ap_date A) else [])
          @ (if keep_alive then header_line ''Connection'' ''Keep-Alive'' else [])
          @ crlf))"

text \<open>A write whose error code is ignored, after which response and parser are cleared.\<close>

definition do_write_sync :: "string \<Rightarrow> http_parser \<Rightarrow> ('a, 's) conn \<Rightarrow> http_parser \<times> ('a, 's) conn" where
  "do_write_sync bytes p c =
     (let c = c\<lparr>cn_out := (if cn_open c then cn_out c @ bytes else cn_out c), cn_res := clear_response (cn_res c)\<rparr>
      in if cn_continue_requested c then (p, c\<lparr>cn_continue_requested := False\<rparr>) else parser_clear p c)"

text \<open>A write that throws if the socket is closed.\<close>

definition write_or_throw :: "string \<Rightarrow> ('a, 's) conn \<Rightarrow> ('a, 's) conn res" where
  "write_or_throw bytes c =
     (if cn_open c then Inr (c\<lparr>cn_out := cn_out c @ bytes\<rparr>) else Inl (Runtime_error ''write''))"

text \<open>What follows a body that is written in pieces: \<open>res.end\<close> is without a completion handler here.\<close>

definition written_in_pieces :: "http_parser \<Rightarrow> ('a, 's) conn \<Rightarrow> http_parser \<times> ('a, 's) conn" where
  "written_in_pieces p c =
     (let c = (if cn_close_connection c then c\<lparr>cn_open := False\<rparr> else c)
      in parser_clear p (c\<lparr>cn_res := clear_response (end_response (cn_res c))\<rparr>))"

text \<open>The file is written in pieces of 16384 bytes, each by \<open>do_write_sync\<close>, which clears the same members again.\<close>

definition do_write_static :: "('a, 'h, 's) app \<Rightarrow> string \<Rightarrow> ('a, 's) step" where
  "do_write_static A head p c =
     bind_res (write_or_throw head c) (\<lambda>c.
       let (p, c) = (case ap_files A (rs_file (cn_res c)) of
                       Some content \<Rightarrow> if content = [] then (p, c) else do_write_sync content p c
                     | None \<Rightarrow> (p, c))
       in Inr (written_in_pieces p c))"

text \<open>
  A body from the threshold on is written in pieces of 16384 bytes from the body itself, which the
  first \<open>do_write_sync\<close> clears: the second piece is read past the end. Below it, a read that was put
  off is started now.
\<close>

definition do_write_general :: "('a, 'h, 's) app \<Rightarrow> string \<Rightarrow> ('a, 's) step" where
  "do_write_general A head p c =
     (let body = rs_text (cn_res c); n = of_nat (length body) :: 64 word
      in if n < ap_threshold A
         then (let (p, c) = do_write_sync (if cn_open c then head @ body else []) p c
               in Inr (p, if cn_need_to_start_read c then c\<lparr>cn_need_to_start_read := False, cn_reading := True\<rparr> else c))
         else bind_res (write_or_throw head c) (\<lambda>c.
                if body = [] then Inr (written_in_pieces p c)
                else if n \<le> 16384 then (let (p, c) = do_write_sync body p c in Inr (written_in_pieces p c))
                else Inl (Undefined Out_of_bounds)))"

definition complete_request :: "('a, 'h, 's) app \<Rightarrow> ('a, 's) step" where
  "complete_request A p c =
     (let c = (if cn_need_to_call_after_handlers c
               then c\<lparr>cn_need_to_call_after_handlers := False, cn_res := ap_after A (cn_res c)\<rparr> else c);
          c = c\<lparr>cn_handler := False\<rparr>;
          (res, head) = (if cn_open c then prepare_buffers A (cn_add_keep_alive c) (cn_res c) else (cn_res c, []));
          c = c\<lparr>cn_res := res\<rparr>
      in if is_static_type res then do_write_static A head p c else do_write_general A head p c)"

text \<open>\<open>res.end()\<close> with the completion handler, if it is set.\<close>

definition end_res :: "('a, 'h, 's) app \<Rightarrow> ('a, 's) step" where
  "end_res A p c =
     (if rs_ended (cn_res c) then Inr (p, c)
      else let c = c\<lparr>cn_res := end_response (cn_res c)\<rparr>
           in if \<not> cn_handler c then Inr (p, c)
              else bind_res (complete_request A p c) (\<lambda>(p, c).
                Inr (p, c\<lparr>cn_res := (cn_res c)\<lparr>rs_manual_length := False, rs_skip_body := False\<rparr>\<rparr>)))"

section \<open>Handling a request\<close>

text \<open>Without a route, the response is written before the rest of the request is read.\<close>

definition handle_url :: "('a, 'h, 's) app \<Rightarrow> ('a, 's) step" where
  "handle_url A p c =
     bind_res (handle_initial (ap_strtod A) (ap_router A) (cn_req c) (cn_res c)) (\<lambda>(found, res).
       let c = c\<lparr>cn_found := Some found, cn_res := res\<rparr>
       in if rf_rule found = 0
          then complete_request A (parser_done p c) (c\<lparr>cn_need_to_call_after_handlers := True\<rparr>)
          else Inr (p, c))"

definition expect_100_continue :: string where
  "expect_100_continue = ''HTTP/1.1 100 Continue'' @ crlf @ crlf"

definition handle_header :: "http_parser \<Rightarrow> ('a, 's) conn \<Rightarrow> http_parser \<times> ('a, 's) conn" where
  "handle_header p c =
     (if rq_version (cn_req c) = (1, 1) \<and> get_header_value (rq_headers (cn_req c)) ''expect'' = ''100-continue''
      then do_write_sync expect_100_continue p (c\<lparr>cn_continue_requested := True\<rparr>)
      else (p, c))"

text \<open>The rule's handler with \<open>res.end()\<close>; exceptions become a response.\<close>

definition call_rule :: "('a, 'h, 's) app \<Rightarrow> 'h rule \<Rightarrow> 'a routing_params \<Rightarrow> ('a, 's) step" where
  "call_rule A r ps p c =
     (case ru_kind r of
        Websocket _ \<Rightarrow> end_res A p (c\<lparr>cn_res := assign_response (response_code 404) (cn_res c)\<rparr>)
      | Tagged None \<Rightarrow> Inl (Undefined Dangling_pointer)
      | Tagged (Some h) \<Rightarrow>
          (case ap_call A h (cn_req c) ps (cn_res c) (cn_state c) of
             Inr (res, s) \<Rightarrow> end_res A p (c\<lparr>cn_res := res, cn_state := s\<rparr>)
           | Inl (Undefined u) \<Rightarrow> Inl (Undefined u)
           | Inl e \<Rightarrow> end_res A p (c\<lparr>cn_res := exception_handler (cn_res c)\<rparr>)))"

definition handle_route :: "('a, 'h, 's) app \<Rightarrow> ('a, 's) step" where
  "handle_route A p c =
     (case cn_found c of
        None \<Rightarrow> Inl (Undefined Dangling_pointer)
      | Some found \<Rightarrow>
          bind_res (router_handle (ap_router A) (cn_req c) (cn_res c) found) (\<lambda>a.
            case a of
              Respond res \<Rightarrow> end_res A p (c\<lparr>cn_res := res\<rparr>)
            | Call r \<Rightarrow> call_rule A r (rf_params found) p c))"

text \<open>The middleware: if it ends the response, its second function runs at once.\<close>

definition call_middleware :: "('a, 'h, 's) app \<Rightarrow> ('a, 's) conn \<Rightarrow> ('a, 's) conn" where
  "call_middleware A c =
     (let res = ap_before A (cn_req c) (cn_res c)
      in c\<lparr>cn_res := (if rs_ended res then ap_after A res else res)\<rparr>)"

text \<open>The socket moves to the websocket connection. Without a websocket rule the response ends without a completion
  handler, so that nothing is written.\<close>

definition handle_upgrade :: "('a, 'h, 's) app \<Rightarrow> ('a, 's) step" where
  "handle_upgrade A p c =
     bind_res (router_handle_upgrade (ap_strtod A) (ap_router A) (cn_req c) (cn_res c)) (\<lambda>a.
       case a of
         None \<Rightarrow> Inr (p, c)
       | Some (Respond res) \<Rightarrow> end_res A p (c\<lparr>cn_res := res\<rparr>)
       | Some (Call r) \<Rightarrow>
           (case ru_kind r of
              Tagged _ \<Rightarrow> Inl (Undefined Dangling_pointer)
            | Websocket h \<Rightarrow>
                (case ap_websocket A h (cn_req c) (cn_state c) of
                   Inr s \<Rightarrow> Inr (p, c\<lparr>cn_state := s, cn_open := False\<rparr>)
                 | Inl (Undefined u) \<Rightarrow> Inl (Undefined u)
                 | Inl e \<Rightarrow> end_res A p (c\<lparr>cn_res := exception_handler (cn_res c)\<rparr>))))"

definition handle :: "('a, 'h, 's) app \<Rightarrow> ('a, 's) step" where
  "handle A p c =
     (let req = cn_req c; c = c\<lparr>cn_add_keep_alive := rq_keep_alive req, cn_close_connection := rq_close req\<rparr>;
          one_one = (rq_version req = (1, 1));
          h2 = (take 2 (get_header_value (rq_headers req) ''upgrade'') = ''h2'')
      in if one_one \<and> header_count ''host'' (rq_headers req) = 0
         then complete_request A p (c\<lparr>cn_res := assign_response (response_code 400) (cn_res c), cn_need_to_call_after_handlers := False\<rparr>)
         else if one_one \<and> rq_upgrade req \<and> \<not> h2
         then handle_upgrade A p ((call_middleware A c)\<lparr>cn_close_connection := True\<rparr>)
         else let c = call_middleware A (c\<lparr>cn_need_to_call_after_handlers := False, cn_handler := False\<rparr>)
              in if rs_ended (cn_res c) then complete_request A p c
                 else bind_res (handle_route A p (c\<lparr>cn_handler := True, cn_need_to_call_after_handlers := True\<rparr>)) (\<lambda>(p, c).
                   Inr (p, if cn_add_keep_alive c
                           then c\<lparr>cn_res := set_header ''connection'' ''Keep-Alive'' (cn_res c)\<rparr> else c)))"

section \<open>The callbacks\<close>

definition zero :: "(http_parser \<times> 'c) res \<Rightarrow> (http_parser \<times> 'c \<times> int) res" where
  "zero r = bind_res r (\<lambda>(p, c). Inr (p, c, 0))"

definition crow_on_method :: "('a, 's) conn notify" where
  "crow_on_method p c = Inr (p, c\<lparr>cn_req := (cn_req c)\<lparr>rq_method := rmethod p\<rparr>\<rparr>, 0)"

text \<open>The URL up to the question mark, if one was seen.\<close>

definition crow_on_url :: "('a, 'h, 's) app \<Rightarrow> string \<Rightarrow> ('a, 's) conn notify" where
  "crow_on_url A d p c =
     (let raw = rq_raw_url (cn_req c) @ d; url = (if qs_point p \<noteq> 0 then take (qs_point p) raw else raw)
      in zero (handle_url A p (c\<lparr>cn_req := (cn_req c)\<lparr>rq_raw_url := raw, rq_url := url\<rparr>\<rparr>)))"

definition emplace_header :: "('a, 's) conn \<Rightarrow> ('a, 's) conn" where
  "emplace_header c = c\<lparr>cn_req := (cn_req c)\<lparr>rq_headers := rq_headers (cn_req c) @ [(cn_header_field c, cn_header_value c)]\<rparr>,
     cn_header_field := [], cn_header_value := []\<rparr>"

definition crow_on_header_field :: "string \<Rightarrow> ('a, 's) conn notify" where
  "crow_on_header_field d p c =
     (if cn_header_building_state c = 0
      then let c = (if cn_header_value c \<noteq> [] then emplace_header c else c)
           in Inr (p, c\<lparr>cn_header_field := d, cn_header_building_state := 1\<rparr>, 0)
      else Inr (p, c\<lparr>cn_header_field := cn_header_field c @ d\<rparr>, 0))"

definition crow_on_header_value :: "string \<Rightarrow> ('a, 's) conn notify" where
  "crow_on_header_value d p c =
     (if cn_header_building_state c = 0 then Inr (p, c\<lparr>cn_header_value := cn_header_value c @ d\<rparr>, 0)
      else Inr (p, c\<lparr>cn_header_building_state := 0, cn_header_value := d\<rparr>, 0))"

definition crow_on_headers_complete :: "('a, 's) conn notify" where
  "crow_on_headers_complete p c =
     (let c = (if cn_header_field c \<noteq> [] then emplace_header c else c);
          (p, c) = handle_header p (c\<lparr>cn_req := set_connection_parameters p (cn_req c)\<rparr>)
      in Inr (p, c, 0))"

definition crow_on_body :: "string \<Rightarrow> ('a, 's) conn notify" where
  "crow_on_body d p c = Inr (p, c\<lparr>cn_req := (cn_req c)\<lparr>rq_body := rq_body (cn_req c) @ d\<rparr>\<rparr>, 0)"

definition crow_on_message_complete :: "('a, 'h, 's) app \<Rightarrow> ('a, 's) conn notify" where
  "crow_on_message_complete A p c = zero (handle A p (c\<lparr>cn_message_complete := True\<rparr>))"

definition crow_settings :: "('a, 'h, 's) app \<Rightarrow> ('a, 's) conn settings" where
  "crow_settings A = \<lparr> on_message_begin = (\<lambda>p c. Inr (p, c, 0)), on_method = crow_on_method, on_url = crow_on_url A,
     on_header_field = crow_on_header_field, on_header_value = crow_on_header_value,
     on_headers_complete = crow_on_headers_complete, on_body = crow_on_body,
     on_message_complete = crow_on_message_complete A \<rparr>"

section \<open>Reading\<close>

text \<open>\<open>feed\<close>: whether all bytes were parsed without an error.\<close>

definition feed :: "('a, 'h, 's) app \<Rightarrow> http_parser \<Rightarrow> ('a, 's) conn \<Rightarrow> string \<Rightarrow> (http_parser \<times> ('a, 's) conn \<times> bool) res option" where
  "feed A p c bytes =
     (if cn_message_complete c then Some (Inr (p, c, True))
      else map_option (\<lambda>r. bind_res r (\<lambda>(p, c, n). Inr (p, c, http_errno p = CHPE_OK \<and> n = length bytes)))
             (http_parser_execute (crow_settings A) p c bytes))"

text \<open>\<open>start\<close>, and the completion of a read; \<open>None\<close> is a failed read.\<close>

definition start :: "http_parser \<Rightarrow> ('a, 's) conn \<Rightarrow> http_parser \<times> ('a, 's) conn" where
  "start p c = (let (p, c) = parser_clear p c in (p, c\<lparr>cn_reading := True\<rparr>))"

definition read_failed :: "http_parser \<Rightarrow> ('a, 's) conn \<Rightarrow> http_parser \<times> ('a, 's) conn" where
  "read_failed p c = (parser_done p c, c\<lparr>cn_open := False\<rparr>)"

definition on_read_some :: "('a, 'h, 's) app \<Rightarrow> string option \<Rightarrow> http_parser \<Rightarrow> ('a, 's) conn \<Rightarrow> (http_parser \<times> ('a, 's) conn) res option" where
  "on_read_some A read p c =
     (let c = c\<lparr>cn_reading := False\<rparr>
      in case read of
           None \<Rightarrow> Some (Inr (read_failed p c))
         | Some bytes \<Rightarrow>
             map_option (\<lambda>r. bind_res r (\<lambda>(p, c, ok).
               Inr (if \<not> (ok \<and> cn_open c) then read_failed p c
                    else if cn_close_connection c then (parser_done p c, c)
                    else if \<not> cn_need_to_call_after_handlers c then (p, c\<lparr>cn_reading := True\<rparr>)
                    else (p, c\<lparr>cn_need_to_start_read := True\<rparr>))))
               (feed A p c bytes))"

text \<open>A sequence of reads of an open connection.\<close>

fun reads :: "('a, 'h, 's) app \<Rightarrow> string list \<Rightarrow> http_parser \<Rightarrow> ('a, 's) conn \<Rightarrow> (http_parser \<times> ('a, 's) conn) res option" where
  "reads A [] p c = Some (Inr (p, c))"
| "reads A (d # ds) p c =
     (if \<not> cn_reading c then Some (Inr (p, c))
      else case on_read_some A (Some d) p c of
             None \<Rightarrow> None
           | Some (Inl e) \<Rightarrow> Some (Inl e)
           | Some (Inr (p, c)) \<Rightarrow> reads A ds p c)"

end
