(* ===== verification/Spec2Isabelle.thy ===== *)
theory Spec2Isabelle
  imports ActivationFacts LossFacts LayerFacts NetworkFacts TrainFacts Normalisation Descent
    Dataset HyperParameterSearch SampleData ServerFacts WebSocketRuns Handshake RouterFacts HttpMethods HttpConnection
begin

text \<open>
  A model of the neural-network server of \<open>c++-framework\<close>: fully connected networks trained
  by mini-batch gradient descent, and the websocket and HTTP handlers that compile and train
  one network for a web client.

  \<^bold>\<open>The program.\<close> \<open>main\<close> (\<open>Src/test.cpp\<close>) makes one \<open>NeuralNetwork\<close> object and registers the
  routes of \<open>Src/Api/RouteHandlers.cpp\<close>. \<open>POST /compile\<close> replaces the layers of the object; a
  message on \<open>/ws\<close> starts a detached thread that trains it and reports every epoch on the
  connection. The object (\<open>Src/NeuralNetwork.cpp\<close>) owns a vector of layers
  (\<open>Src/Layer Types/DenseLayer.cpp\<close>), each with an activation object, and a loss object, made by
  two factories from their names. Layers compute with the matrix routines of
  \<open>Src/Essential Functions/Math Utils\<close>. The files of \<open>Src/Util Functions\<close> read CSV data and try
  combinations of hyper-parameters; they are used from the program, not from the server.

  \<^bold>\<open>Theories and sources.\<close>
  \<^item> \<open>Prelude\<close>: results with errors, the \<open>for\<close> loops of the code as recursion over an index, access
    to vectors and matrices, the predicate \<open>mat_wf r c A\<close> (\<open>A\<close> has \<open>r\<close> rows of \<open>c\<close> entries) and
    the function \<open>mat_of\<close>. \<open>Cxx\<close>: the numeric interface, \<open>int\<close> arithmetic, construction and
    resizing of vectors, number printing, the sources of random draws.
  \<^item> \<open>MathUtils\<close>: the twenty element-wise overloads, dot products and transposes.
  \<^item> \<open>Activations\<close>, \<open>SoftmaxLoop\<close>, \<open>ActivationFacts\<close>: the five activation classes and their factory.
  \<^item> \<open>Losses\<close>, \<open>LossFacts\<close>: the two loss classes and their factory.
  \<^item> \<open>Regularization\<close>, \<open>Initializer\<close>, \<open>Evaluator\<close>: the files of these names.
  \<^item> \<open>DenseLayer\<close>, \<open>DenseFacts\<close>, \<open>LayerFacts\<close>: the layer class; \<open>layer_contract\<close> is what a network
    relies on, interpreted on \<open>DenseLayer\<close>.
  \<^item> \<open>NeuralNetwork\<close>, \<open>Training\<close>: the network class; \<open>NetworkFacts\<close>, \<open>Batches\<close>, \<open>TrainFacts\<close>,
    \<open>Normalisation\<close>: construction, batches, training, normalisation.
  \<^item> \<open>Gradient\<close>, \<open>Backprop\<close>, \<open>Descent\<close>: over the reals, what the backward pass computes.
  \<^item> \<open>TextIO\<close>, \<open>Dataset\<close>: reading text, the loaders of \<open>DatasetLoader.cpp\<close> and \<open>MatrixOperations.cpp\<close>.
  \<^item> \<open>HyperParameterSearch\<close>, \<open>SampleData\<close>: \<open>HyperParameterSearch.cpp\<close> and the sample generator of
    \<open>test.cpp\<close>.
  \<^item> \<open>JsonText\<close>, \<open>Json\<close>, \<open>JsonParse\<close>, \<open>JsonDump\<close> (\<open>lib/crow/json.h\<close>): escape sequences, parsed values and
    their accessors, the parser, and the writer. \<open>JsonParseFacts\<close>: the parser returns and stays
    inside the text; \<open>JsonNumbers\<close>: which numbers it accepts; \<open>JsonRoundtrip\<close>: what it reads of
    values in compact notation, and how deep they may be; \<open>JsonDumpFacts\<close>: what is written is read
    back.
  \<^item> \<open>Server\<close>, \<open>ServerFacts\<close>: the handlers, the middleware and the globals.
  \<^item> \<open>WebSocket\<close> (\<open>lib/crow/websocket.h\<close>): one connection, with the reads, writes and posted calls it
    waits for. \<open>WebSocketBytes\<close>, \<open>WebSocketFrames\<close>, \<open>WebSocketFacts\<close>: bytes, frames cut into reads, the
    dialog of frames; \<open>WebSocketClose\<close>: the end of a connection; \<open>WebSocketRuns\<close>: invariants of runs.
    \<open>Handshake\<close>: the constructor of a connection, with \<open>Sha1\<close> (\<open>TinySHA1.hpp\<close>) and \<open>Base64\<close> (\<open>utility.h\<close>).
  \<^item> \<open>Http\<close>: requests, responses, header maps and methods (\<open>http_request.h\<close>, \<open>http_response.h\<close>, \<open>ci_map.h\<close>,
    \<open>common.h\<close>). \<open>Routing\<close>, \<open>RoutingFacts\<close>: the search tree of \<open>routing.h\<close>; \<open>Router\<close>, \<open>RouterFacts\<close>: rules, their
    registration and the two passes over a request. \<open>Sanitize\<close>: file names from URLs (\<open>utility.h\<close>);
    \<open>HttpFiles\<close>: redirections, MIME types and static files.
  \<^item> \<open>HttpParser\<close> (\<open>http_parser_merged.h\<close>): one definition per state of the parser and the loop over a buffer;
    \<open>HttpMethods\<close>: the methods it accepts. \<open>HttpConnection\<close> (\<open>http_connection.h\<close>, \<open>parser.h\<close>,
    \<open>middleware.h\<close>): the callbacks of the parser, the handling of a request, the writing of a response.
  \<^item> \<open>Bits\<close>: lemmas on bit fields that these share.

  \<^bold>\<open>State and operations.\<close> A class is a record with the fields of the class and the prefix of its
  name (\<open>dl_\<close> for \<open>DenseLayer\<close>, \<open>nn_\<close> for \<open>NeuralNetwork\<close>, \<open>sv_\<close> for the globals of the server); a
  method takes the record and returns the changed one. A pointer to one of the strategy
  objects is a constructor of \<open>activation\<close> or \<open>loss\<close>, and a virtual call is a function by cases on
  it. Overloads have the suffixes \<open>_v\<close> and \<open>_m\<close> for vectors and matrices. Draws of \<open>rand()\<close> and
  of the random device come from sources (\<open>nat \<Rightarrow> int\<close>, \<open>nat \<Rightarrow> nat\<close>) that are part of the state.

  \<^bold>\<open>Numbers.\<close> \<open>double\<close> is a type variable with the operations of a record \<open>'a cxx\<close> (literals, \<open>exp\<close>,
  \<open>log\<close>, \<open>sqrt\<close>, conversions, printing); no algebraic law is assumed of it, and the order of
  the additions is that of the code. Theorems over an arbitrary \<open>C\<close> therefore hold of
  floating-point arithmetic; theorems about gradients, means and distributions are about
  \<open>real_cxx\<close>, exact arithmetic over the reals. An \<open>int\<close> is an integer whose sums are checked
  against the 32-bit range where the code adds to it; \<open>size_t\<close> is a 64-bit word.

  \<^bold>\<open>Errors.\<close> A result is \<open>Inr\<close> of a value or \<open>Inl\<close> of an error: an exception with its text, or
  \<open>Undefined\<close> of what the standard leaves undefined (an index past the end, a missing return,
  a dangling pointer, a data race, signed overflow). A theorem that concludes \<open>Inr\<close> excludes
  all of them.

  \<^bold>\<open>Termination.\<close> Loops with a known number of rounds are structural recursion. The batch loop
  may run forever (batch size 0), so it is a partial function whose value \<open>None\<close> means that it
  does not return; \<open>train\<close> and the search inherit this. \<open>train_returns\<close> and
  \<open>batches_partition_the_data\<close> prove that they return; \<open>batch_size_must_be_positive\<close> when not.
  The JSON parser has fuel, for its recursion and for the loops over items: one more than the
  length of the text. Every level and every item reads a character, so it never runs out
  (\<open>parse_returns\<close>). The HTTP parser has as fuel the length of the buffer, since every round of its loop
  takes a character, and six rounds for the jumps back to its switch.

  \<^bold>\<open>Groups of lemmas.\<close> Shapes (\<open>mat_wf\<close> in, \<open>mat_wf\<close> out) for every matrix routine, activation, loss
  and layer operation; well-formedness (\<open>layer_ok\<close>, \<open>nn_ok\<close>) of layers and networks, kept by
  construction, passes and training; the entries each loop computes (\<open>mat_of\<close> and finite
  sums); derivatives and gradients (\<open>is_gradient\<close>); the frame of each handler on the server
  state and runs of the server (\<open>run\<close>, by rule induction). For JSON, that each decoder shortens
  the text (\<open>safe_item\<close>, a locale interpreted on \<open>decode_value\<close>), and how it reads a text with more
  text behind it. For connections, one lemma per state of the reader, and two invariants kept
  by every event (\<open>settled\<close>, \<open>whole\<close>).

  \<^bold>\<open>The server.\<close> A handler is one step. A training thread takes two: the evaluation of its first
  lines, and the rest of the training; the handlers of other connections run between them.
  Two simultaneous trainings, and a compilation during a training, are data races; the second
  is an error of the model, the first is not covered by a theorem. The library destroys a
  connection after its close handler.

  \<^bold>\<open>Connections.\<close> A connection is a record of the members of \<open>Connection\<close>; an operation is what runs
  between two waits for \<open>asio\<close>. The handlers of the application are recorded as calls. The host
  is little-endian. \<open>receive\<close> feeds reads to a connection and gives \<open>None\<close> for one that it does not
  wait for, so that theorems about it also say that the reads fit.

  \<^bold>\<open>Routes.\<close> The router is a list of rules and a tree per method; \<open>entries\<close> are the patterns a tree holds
  and \<open>results\<close> what a list of patterns gives for a URL, of which the search returns the best. \<open>router_ok\<close>
  is what registration establishes and both passes rely on.

  \<^bold>\<open>Not modelled.\<close> \<open>asio\<close>, which completes reads and writes; the timers of connections and the asynchronous
  write, which nothing calls; blueprints and middleware of single rules, which the
  program does not use; comparison and stream output of JSON values; console
  output and logging; \<open>ConvolutionalLayer\<close>, a declaration without code; the JavaScript client and
  account server; the data sets. \<open>stod\<close> reads decimal notation only.
\<close>

end
